(* ===== verification/Arc_Prelude.thy ===== *)
theory Arc_Prelude
  imports "HOL-Library.Word" "HOL-Library.List_Lexorder" "HOL-Library.Product_Lexorder"
begin

text \<open>
  Shared vocabulary of the Arc node development: the machine integers of the Rust
  sources as words, the checked and saturating arithmetic of the Rust standard
  library, big-endian byte strings, the early-return operator of \<open>Result\<close>,
  ordered maps (\<open>BTreeMap\<close>) as association lists with strictly increasing keys,
  and a locale for state machines that keep an invariant.
\<close>

section \<open>Machine types\<close>

type_synonym u8 = "8 word"
type_synonym u32 = "32 word"
type_synonym u64 = "64 word"
type_synonym u128 = "128 word"
type_synonym u256 = "256 word"
type_synonym bytes = "u8 list"
type_synonym address = "160 word"

named_theorems rust_arith \<open>characterisations of the standard library's integer operations\<close>
named_theorems byte_simps \<open>byte-string encodings\<close>

definition checked_add :: "'a::len word \<Rightarrow> 'a word \<Rightarrow> 'a word option" where
  "checked_add a b = (if unat a + unat b < 2 ^ LENGTH('a) then Some (a + b) else None)"

definition checked_sub :: "'a::len word \<Rightarrow> 'a word \<Rightarrow> 'a word option" where
  "checked_sub a b = (if b \<le> a then Some (a - b) else None)"

definition checked_mul :: "'a::len word \<Rightarrow> 'a word \<Rightarrow> 'a word option" where
  "checked_mul a b = (if unat a * unat b < 2 ^ LENGTH('a) then Some (a * b) else None)"

definition saturating_add :: "'a::len word \<Rightarrow> 'a word \<Rightarrow> 'a word" where
  "saturating_add a b = (case checked_add a b of Some c \<Rightarrow> c | None \<Rightarrow> - 1)"

definition saturating_sub :: "'a::len word \<Rightarrow> 'a word \<Rightarrow> 'a word" where
  "saturating_sub a b = (if b \<le> a then a - b else 0)"

definition saturating_mul :: "'a::len word \<Rightarrow> 'a word \<Rightarrow> 'a word" where
  "saturating_mul a b = (case checked_mul a b of Some c \<Rightarrow> c | None \<Rightarrow> - 1)"

text \<open>\<open>T::try_from(x)\<close> between unsigned types, and \<open>Ord::clamp\<close>.\<close>

definition try_from :: "'a::len word \<Rightarrow> 'b::len word option" where
  "try_from x = (if unat x < 2 ^ LENGTH('b) then Some (ucast x) else None)"

definition try_from_or_max :: "'a::len word \<Rightarrow> 'b::len word" where
  "try_from_or_max x = (case try_from x of Some y \<Rightarrow> y | None \<Rightarrow> - 1)"

definition word_clamp :: "'a::len word \<Rightarrow> 'a word \<Rightarrow> 'a word \<Rightarrow> 'a word" where
  "word_clamp x lo hi = (if x < lo then lo else if x > hi then hi else x)"

lemma unat_lt2p: "unat (x :: 'a::len word) < 2 ^ LENGTH('a)"
  by (rule unsigned_less)

lemma unat_minus_one_max: "unat (- 1 :: 'a::len word) = 2 ^ LENGTH('a) - 1"
  by (simp add: unsigned_minus_1_eq_mask mask_eq_exp_minus_1)

lemma unat_add_fits:
  "unat a + unat b < 2 ^ LENGTH('a) \<Longrightarrow> unat (a + b :: 'a::len word) = unat a + unat b"
  by (simp add: unat_word_ariths)

lemma unat_mul_fits:
  "unat a * unat b < 2 ^ LENGTH('a) \<Longrightarrow> unat (a * b :: 'a::len word) = unat a * unat b"
  by (simp add: unat_word_ariths)

lemma unat_ucast_fits:
  "unat x < 2 ^ LENGTH('b) \<Longrightarrow> unat (ucast (x :: 'a::len word) :: 'b::len word) = unat x"
  by (simp add: unsigned_ucast_eq take_bit_nat_eq_self)

lemma unat_minus_ge: "b \<le> a \<Longrightarrow> unat (a - b :: 'a::len word) = unat a - unat b"
  by (rule unat_sub)

lemma checked_add_iff [rust_arith]:
  "checked_add a b = Some c \<longleftrightarrow> unat (c :: 'a::len word) = unat a + unat b"
proof
  assume "checked_add a b = Some c"
  then show "unat c = unat a + unat b"
    by (auto simp: checked_add_def unat_add_fits split: if_splits)
next
  assume c: "unat c = unat a + unat b"
  then have fits: "unat a + unat b < 2 ^ LENGTH('a)"
    using unat_lt2p [of c] by simp
  then have "unat (a + b) = unat c"
    using c by (simp add: unat_add_fits)
  then show "checked_add a b = Some c"
    using fits by (simp add: checked_add_def word_unat_eq_iff)
qed

lemma checked_add_None_iff [rust_arith]:
  "checked_add a b = None \<longleftrightarrow> 2 ^ LENGTH('a) \<le> unat (a :: 'a::len word) + unat b"
  by (auto simp: checked_add_def)

lemma checked_sub_iff [rust_arith]:
  "checked_sub a b = Some c \<longleftrightarrow> unat (a :: 'a::len word) = unat b + unat c"
proof
  assume "checked_sub a b = Some c"
  then show "unat a = unat b + unat c"
    by (auto simp: checked_sub_def unat_minus_ge word_le_nat_alt split: if_splits)
next
  assume "unat a = unat b + unat c"
  then show "checked_sub a b = Some c"
    by (simp add: checked_sub_def word_le_nat_alt word_unat_eq_iff unat_minus_ge)
qed

lemma checked_sub_None_iff [rust_arith]:
  "checked_sub a b = None \<longleftrightarrow> unat (a :: 'a::len word) < unat b"
  by (auto simp: checked_sub_def word_le_nat_alt)

lemma checked_mul_Some [rust_arith]:
  "unat a * unat b < 2 ^ LENGTH('a) \<Longrightarrow> checked_mul a b = Some (a * b :: 'a::len word)"
  by (simp add: checked_mul_def)

lemma unat_saturating_add [rust_arith]:
  "unat (saturating_add a b :: 'a::len word) = min (unat a + unat b) (2 ^ LENGTH('a) - 1)"
  by (auto simp: saturating_add_def checked_add_def unat_add_fits unat_minus_one_max min_def)

lemma unat_saturating_sub [rust_arith]:
  "unat (saturating_sub a b :: 'a::len word) = unat a - unat b"
  by (auto simp: saturating_sub_def unat_minus_ge word_le_nat_alt)

lemma unat_saturating_mul [rust_arith]:
  "unat (saturating_mul a b :: 'a::len word) = min (unat a * unat b) (2 ^ LENGTH('a) - 1)"
proof (cases "unat a * unat b < 2 ^ LENGTH('a)")
  case True
  then have "unat a * unat b \<le> 2 ^ LENGTH('a) - 1" by simp
  with True show ?thesis
    by (simp add: saturating_mul_def checked_mul_def unat_mul_fits min_absorb1)
next
  case False
  then show ?thesis
    by (simp add: saturating_mul_def checked_mul_def unat_minus_one_max)
qed

lemma try_from_iff [rust_arith]:
  "try_from (x :: 'a::len word) = Some (y :: 'b::len word) \<longleftrightarrow> unat y = unat x"
proof (cases "unat x < 2 ^ LENGTH('b)")
  case True
  then have "try_from x = Some y \<longleftrightarrow> (ucast x :: 'b word) = y"
    by (simp add: try_from_def)
  also have "\<dots> \<longleftrightarrow> unat (ucast x :: 'b word) = unat y"
    by (rule word_unat_eq_iff)
  also have "\<dots> \<longleftrightarrow> unat y = unat x"
    using True by (simp only: unat_ucast_fits eq_commute)
  finally show ?thesis .
next
  case False
  have "unat y \<noteq> unat x"
  proof
    assume eq: "unat y = unat x"
    have "unat x < 2 ^ LENGTH('b)" unfolding eq [symmetric] by (rule unat_lt2p)
    with False show False ..
  qed
  with False show ?thesis by (simp add: try_from_def)
qed

lemma unat_try_from_or_max [rust_arith]:
  "unat (try_from_or_max (x :: 'a::len word) :: 'b::len word) = min (unat x) (2 ^ LENGTH('b) - 1)"
  by (auto simp: try_from_or_max_def try_from_def unat_ucast_fits unat_minus_one_max min_def)

lemma unat_word_clamp [rust_arith]:
  "unat (word_clamp x lo hi) =
     (if unat x < unat lo then unat lo else if unat x > unat hi then unat hi else unat x)"
  by (simp add: word_clamp_def word_less_nat_alt)

lemma word_clamp_bounds: "lo \<le> hi \<Longrightarrow> lo \<le> word_clamp x lo hi \<and> word_clamp x lo hi \<le> hi"
  by (auto simp: word_clamp_def)

lemma word_clamp_id_iff: "lo \<le> hi \<Longrightarrow> word_clamp x lo hi = x \<longleftrightarrow> lo \<le> x \<and> x \<le> hi"
  by (auto simp: word_clamp_def)

lemma word_clamp_idem: "lo \<le> hi \<Longrightarrow> word_clamp (word_clamp x lo hi) lo hi = word_clamp x lo hi"
  by (auto simp: word_clamp_def)

section \<open>Big-endian byte strings\<close>

text \<open>
  \<open>to_be_bytes\<close> and \<open>from_be_bytes\<close> of the unsigned types: \<open>k\<close> bytes, most
  significant first.
\<close>

fun be_of_nat :: "nat \<Rightarrow> nat \<Rightarrow> bytes" where
  "be_of_nat 0 n = []"
| "be_of_nat (Suc k) n = be_of_nat k (n div 256) @ [of_nat (n mod 256)]"

definition nat_of_be :: "bytes \<Rightarrow> nat" where
  "nat_of_be bs = foldl (\<lambda>acc b. acc * 256 + unat b) 0 bs"

definition to_be_bytes :: "nat \<Rightarrow> 'a::len word \<Rightarrow> bytes" where
  "to_be_bytes k w = be_of_nat k (unat w)"

definition from_be_bytes :: "bytes \<Rightarrow> 'a::len word" where
  "from_be_bytes bs = of_nat (nat_of_be bs)"

lemma length_be_of_nat [simp, byte_simps]: "length (be_of_nat k n) = k"
  by (induction k arbitrary: n) auto

lemma length_to_be_bytes [simp, byte_simps]: "length (to_be_bytes k w) = k"
  by (simp add: to_be_bytes_def)

lemma nat_of_be_Nil [simp]: "nat_of_be [] = 0"
  by (simp add: nat_of_be_def)

lemma nat_of_be_snoc [simp]: "nat_of_be (bs @ [b]) = nat_of_be bs * 256 + unat b"
  by (simp add: nat_of_be_def)

lemma unat_byte_of_nat: "unat (of_nat (n mod 256) :: u8) = n mod 256"
  by (simp add: unat_of_nat)

lemma nat_of_be_be_of_nat: "nat_of_be (be_of_nat k n) = n mod 256 ^ k"
proof (induction k arbitrary: n)
  case 0
  then show ?case by simp
next
  case (Suc k)
  have "n mod 256 ^ Suc k = (n div 256) mod 256 ^ k * 256 + n mod 256"
    by (simp add: mod_mult2_eq algebra_simps)
  then show ?case
    using Suc.IH [of "n div 256"] by (simp add: unat_byte_of_nat)
qed

lemma nat_of_be_bound: "nat_of_be bs < 256 ^ length bs"
proof (induction bs rule: rev_induct)
  case Nil
  then show ?case by simp
next
  case (snoc b bs)
  have "unat b < 256" using unat_lt2p [of b] by simp
  with snoc show ?case by simp
qed

lemma be_of_nat_nat_of_be: "be_of_nat (length bs) (nat_of_be bs) = bs"
proof (induction bs rule: rev_induct)
  case Nil
  then show ?case by simp
next
  case (snoc b bs)
  have "unat b < 256" using unat_lt2p [of b] by simp
  with snoc show ?case by simp
qed

lemma from_to_be_bytes [byte_simps]:
  assumes "2 ^ LENGTH('a) \<le> (256 :: nat) ^ k"
  shows "from_be_bytes (to_be_bytes k w) = (w :: 'a::len word)"
proof -
  have "unat w < 256 ^ k" using unat_lt2p [of w] assms by linarith
  then show ?thesis
    by (simp add: from_be_bytes_def to_be_bytes_def nat_of_be_be_of_nat)
qed

lemma to_from_be_bytes [byte_simps]:
  assumes "length bs = k" and "(256 :: nat) ^ k = 2 ^ LENGTH('a)"
  shows "to_be_bytes k (from_be_bytes bs :: 'a::len word) = bs"
proof -
  have "nat_of_be bs < 2 ^ LENGTH('a)"
    using nat_of_be_bound [of bs] assms by simp
  then have "unat (from_be_bytes bs :: 'a word) = nat_of_be bs"
    by (simp add: from_be_bytes_def unat_of_nat take_bit_nat_eq_self)
  then show ?thesis
    using be_of_nat_nat_of_be [of bs] assms(1) by (simp add: to_be_bytes_def)
qed

lemma pow256_8 [simp]: "(256 :: nat) ^ 8 = 2 ^ 64"
  by simp

section \<open>Early return\<close>

text \<open>
  Rust's \<open>?\<close> on a computation that threads a state: an error returns at once with
  the state reached so far, a value continues. \<open>'e + 'a\<close> is \<open>Result<'a, 'e>\<close>.
\<close>

definition and_then :: "('e + 'a) \<times> 's \<Rightarrow> ('a \<Rightarrow> 's \<Rightarrow> ('e + 'b) \<times> 's) \<Rightarrow> ('e + 'b) \<times> 's" where
  "and_then r k = (case r of (Inl e, s) \<Rightarrow> (Inl e, s) | (Inr a, s) \<Rightarrow> k a s)"

lemma and_then_Inr [simp]: "and_then (Inr a, s) k = k a s"
  by (simp add: and_then_def)

lemma and_then_Inl [simp]: "and_then (Inl e, s) k = (Inl e, s)"
  by (simp add: and_then_def)

lemma and_then_eq_InrE:
  assumes "and_then r k = (Inr b, s')"
  obtains a s where "r = (Inr a, s)" and "k a s = (Inr b, s')"
  using assms by (auto simp: and_then_def split: prod.splits sum.splits)

lemma and_then_eq_InlE:
  assumes "and_then r k = (Inl e, s')"
  obtains "r = (Inl e, s')" | a s where "r = (Inr a, s)" and "k a s = (Inl e, s')"
  using assms by (auto simp: and_then_def split: prod.splits sum.splits)

section \<open>Extremal elements of an iterator\<close>

text \<open>
  \<open>Iterator::max_by_key\<close> returns the last of several maximal elements,
  \<open>Iterator::min_by_key\<close> the first of several minimal ones.
\<close>

fun max_by_key :: "('a \<Rightarrow> 'b::linorder) \<Rightarrow> 'a list \<Rightarrow> 'a option" where
  "max_by_key f [] = None"
| "max_by_key f (x # xs) =
     (case max_by_key f xs of None \<Rightarrow> Some x | Some y \<Rightarrow> Some (if f y < f x then x else y))"

fun min_by_key :: "('a \<Rightarrow> 'b::linorder) \<Rightarrow> 'a list \<Rightarrow> 'a option" where
  "min_by_key f [] = None"
| "min_by_key f (x # xs) =
     (case min_by_key f xs of None \<Rightarrow> Some x | Some y \<Rightarrow> Some (if f y < f x then y else x))"

lemma max_by_key_None_iff [simp]: "max_by_key f xs = None \<longleftrightarrow> xs = []"
  by (cases xs) (auto split: option.splits)

lemma min_by_key_None_iff [simp]: "min_by_key f xs = None \<longleftrightarrow> xs = []"
  by (cases xs) (auto split: option.splits)

lemma max_by_key_in: "max_by_key f xs = Some y \<Longrightarrow> y \<in> set xs"
  by (induction xs arbitrary: y) (auto split: option.splits if_splits)

lemma min_by_key_in: "min_by_key f xs = Some y \<Longrightarrow> y \<in> set xs"
  by (induction xs arbitrary: y) (auto split: option.splits if_splits)

lemma max_by_key_ge: "max_by_key f xs = Some y \<Longrightarrow> x \<in> set xs \<Longrightarrow> f x \<le> f y"
  by (induction xs arbitrary: y) (fastforce split: option.splits if_splits)+

lemma min_by_key_le: "min_by_key f xs = Some y \<Longrightarrow> x \<in> set xs \<Longrightarrow> f y \<le> f x"
  by (induction xs arbitrary: y) (fastforce split: option.splits if_splits)+

text \<open>A list sorted strictly by a key is determined by its elements.\<close>

lemma strict_sorted_keys_unique:
  fixes f :: "'a \<Rightarrow> 'b::linorder"
  assumes "sorted_wrt (<) (map f xs)" and "sorted_wrt (<) (map f ys)" and "set xs = set ys"
  shows "xs = ys"
proof (rule map_sorted_distinct_set_unique)
  show "sorted (map f xs)" "sorted (map f ys)" "distinct (map f xs)" "distinct (map f ys)"
    using assms(1,2) strict_sorted_iff by blast+
  then show "inj_on f (set xs \<union> set ys)"
    using assms(3) by (simp add: distinct_map)
qed (fact assms(3))

section \<open>Ordered maps\<close>

text \<open>
  A \<open>BTreeMap\<close> is the list of its entries in key order. The well-formedness
  predicate says that the keys increase strictly, so iteration order, \<open>len\<close> and
  lookup are those of the Rust container.
\<close>

type_synonym ('k, 'v) btree_map = "('k \<times> 'v) list"

definition bt_wf :: "('k::linorder, 'v) btree_map \<Rightarrow> bool" where
  "bt_wf m \<longleftrightarrow> sorted_wrt (<) (map fst m)"

definition bt_get :: "('k, 'v) btree_map \<Rightarrow> 'k \<Rightarrow> 'v option" where
  "bt_get m k = map_of m k"

definition bt_keys :: "('k, 'v) btree_map \<Rightarrow> 'k set" where
  "bt_keys m = set (map fst m)"

fun bt_insert :: "'k::linorder \<Rightarrow> 'v \<Rightarrow> ('k, 'v) btree_map \<Rightarrow> ('k, 'v) btree_map" where
  "bt_insert k v [] = [(k, v)]"
| "bt_insert k v (e # m) =
     (if fst e < k then e # bt_insert k v m
      else if fst e = k then (k, v) # m
      else (k, v) # e # m)"

definition bt_remove :: "'k \<Rightarrow> ('k, 'v) btree_map \<Rightarrow> ('k, 'v) btree_map" where
  "bt_remove k m = filter (\<lambda>e. fst e \<noteq> k) m"

definition bt_retain :: "('k \<Rightarrow> 'v \<Rightarrow> bool) \<Rightarrow> ('k, 'v) btree_map \<Rightarrow> ('k, 'v) btree_map" where
  "bt_retain P m = filter (\<lambda>e. P (fst e) (snd e)) m"

lemma bt_wf_Nil [simp]: "bt_wf []"
  by (simp add: bt_wf_def)

lemma bt_wf_Cons: "bt_wf (e # m) \<longleftrightarrow> (\<forall>k \<in> bt_keys m. fst e < k) \<and> bt_wf m"
  by (simp add: bt_wf_def bt_keys_def)

lemma bt_keys_Nil [simp]: "bt_keys [] = {}"
  by (simp add: bt_keys_def)

lemma bt_keys_Cons: "bt_keys (e # m) = insert (fst e) (bt_keys m)"
  by (simp add: bt_keys_def)

lemma bt_keys_insert [simp]: "bt_keys (bt_insert k v m) = insert k (bt_keys m)"
  by (induction m) (auto simp: bt_keys_def)

lemma bt_wf_insert: "bt_wf m \<Longrightarrow> bt_wf (bt_insert k v m)"
proof (induction m)
  case Nil
  then show ?case by (simp add: bt_wf_Cons bt_keys_def)
next
  case (Cons e m)
  then have "bt_wf (bt_insert k v m)" and "\<And>j. j \<in> bt_keys m \<Longrightarrow> fst e < j"
    by (simp_all add: bt_wf_Cons)
  with Cons.prems show ?case
    by (auto simp: bt_wf_Cons bt_keys_Cons not_less_iff_gr_or_eq intro: less_trans)
qed

lemma bt_wf_filter: "bt_wf m \<Longrightarrow> bt_wf (filter P m)"
  by (induction m) (auto simp: bt_wf_Cons bt_keys_def)

lemma bt_wf_remove: "bt_wf m \<Longrightarrow> bt_wf (bt_remove k m)"
  by (simp add: bt_remove_def bt_wf_filter)

lemma bt_wf_retain: "bt_wf m \<Longrightarrow> bt_wf (bt_retain P m)"
  by (simp add: bt_retain_def bt_wf_filter)

lemma bt_wf_distinct: "bt_wf m \<Longrightarrow> distinct (map fst m)"
  by (induction m) (auto simp: bt_wf_Cons bt_keys_def)

lemma bt_keys_remove [simp]: "bt_keys (bt_remove k m) = bt_keys m - {k}"
  by (auto simp: bt_keys_def bt_remove_def)

lemma bt_keys_retain_subset: "bt_keys (bt_retain P m) \<subseteq> bt_keys m"
  by (auto simp: bt_keys_def bt_retain_def)

lemma bt_get_Some_key: "bt_get m k = Some v \<Longrightarrow> k \<in> bt_keys m"
  by (force simp: bt_get_def bt_keys_def dest: map_of_SomeD)

lemma bt_get_None_iff: "bt_get m k = None \<longleftrightarrow> k \<notin> bt_keys m"
  by (auto simp: bt_get_def bt_keys_def map_of_eq_None_iff)

lemma bt_get_insert: "bt_wf m \<Longrightarrow> bt_get (bt_insert k v m) j = (if j = k then Some v else bt_get m j)"
  by (induction m) (auto simp: bt_wf_Cons bt_get_def bt_keys_def)

lemma bt_get_remove: "bt_get (bt_remove k m) j = (if j = k then None else bt_get m j)"
  by (induction m) (auto simp: bt_get_def bt_remove_def)

lemma bt_get_retain:
  "bt_wf m \<Longrightarrow> bt_get (bt_retain P m) k =
     (case bt_get m k of None \<Rightarrow> None | Some v \<Rightarrow> if P k v then Some v else None)"
  by (induction m) (auto simp: bt_get_def bt_retain_def bt_wf_Cons bt_keys_def map_of_eq_None_iff
      split: option.splits)

lemma bt_in_set_get: "bt_wf m \<Longrightarrow> (k, v) \<in> set m \<longleftrightarrow> bt_get m k = Some v"
  by (simp add: bt_get_def bt_wf_distinct)

lemma card_bt_keys: "bt_wf m \<Longrightarrow> card (bt_keys m) = length m"
  by (metis bt_keys_def bt_wf_distinct distinct_card length_map)

lemma length_bt_insert:
  "bt_wf m \<Longrightarrow> length (bt_insert k v m) = (if k \<in> bt_keys m then length m else Suc (length m))"
  by (metis bt_keys_insert bt_wf_insert card_bt_keys card_insert_if finite_set bt_keys_def)

lemma length_bt_remove:
  "bt_wf m \<Longrightarrow> length (bt_remove k m) = (if k \<in> bt_keys m then length m - 1 else length m)"
  by (metis bt_keys_remove bt_wf_remove card_bt_keys card_Diff_singleton_if)

lemma length_bt_retain_le: "length (bt_retain P m) \<le> length m"
  by (simp add: bt_retain_def)

text \<open>What a client of an ordered map relies on.\<close>

locale keyed_store =
  fixes get :: "'m \<Rightarrow> 'k \<Rightarrow> 'v option"
    and put :: "'k \<Rightarrow> 'v \<Rightarrow> 'm \<Rightarrow> 'm"
    and del :: "'k \<Rightarrow> 'm \<Rightarrow> 'm"
    and count :: "'m \<Rightarrow> nat"
    and ok :: "'m \<Rightarrow> bool"
  assumes get_put: "ok m \<Longrightarrow> get (put k v m) j = (if j = k then Some v else get m j)"
    and get_del: "ok m \<Longrightarrow> get (del k m) j = (if j = k then None else get m j)"
    and count_put: "ok m \<Longrightarrow> count (put k v m) = (if get m k = None then Suc (count m) else count m)"
    and count_del: "ok m \<Longrightarrow> count (del k m) = (if get m k = None then count m else count m - 1)"
    and ok_put: "ok m \<Longrightarrow> ok (put k v m)"
    and ok_del: "ok m \<Longrightarrow> ok (del k m)"
begin

lemma put_put: "ok m \<Longrightarrow> get (put k v (put k w m)) j = get (put k v m) j"
  by (simp add: get_put ok_put)

lemma get_del_put: "ok m \<Longrightarrow> get (del k (put k v m)) j = get (del k m) j"
  by (simp add: get_put get_del ok_put)

lemma count_del_put: "ok m \<Longrightarrow> count (del k (put k v m)) \<le> count m"
  by (simp add: count_del count_put get_put ok_put)

lemma count_put_le: "ok m \<Longrightarrow> count (put k v m) \<le> Suc (count m)"
  by (simp add: count_put)

lemma count_del_le: "ok m \<Longrightarrow> count (del k m) \<le> count m"
  by (simp add: count_del)

end

interpretation bt: keyed_store bt_get bt_insert bt_remove length bt_wf
  by (unfold_locales; (rule bt_get_insert bt_get_remove bt_wf_insert bt_wf_remove)?)
    (simp_all add: length_bt_insert length_bt_remove bt_get_None_iff)

section \<open>State machines that keep an invariant\<close>

text \<open>
  A component whose operations are commands of a datatype: if every admissible command
  keeps the invariant then so does every run of admissible commands.
\<close>

locale invariant_machine =
  fixes step :: "'s \<Rightarrow> 'c \<Rightarrow> 's"
    and admissible :: "'c \<Rightarrow> bool"
    and inv :: "'s \<Rightarrow> bool"
  assumes step_inv: "inv s \<Longrightarrow> admissible c \<Longrightarrow> inv (step s c)"
begin

lemma run_inv: "inv s \<Longrightarrow> list_all admissible cs \<Longrightarrow> inv (foldl step s cs)"
  by (induction cs arbitrary: s) (auto simp: step_inv)

lemma run_prefix_inv:
  "inv s \<Longrightarrow> list_all admissible (cs @ ds) \<Longrightarrow> inv (foldl step s cs)"
  by (auto intro: run_inv)

end

end
