(* ===== verification/Consensus_Types.thy ===== *)
theory Consensus_Types
  imports Arc_Prelude
begin

text \<open>
  The consensus data types of \<open>crates/types\<close>: heights, rounds, validators and
  validator sets, and the round-robin proposer selection of \<open>proposer.rs\<close>.
\<close>

section \<open>Heights and rounds\<close>

text \<open>
  \<open>Height\<close> is a newtype over \<open>u64\<close>. \<open>Round\<close> is Malachite's round type, of which
  the sources use the nil round, the numbered rounds, the conversions to \<open>Option<u32>\<close>
  and \<open>i64\<close> (nil is \<open>-1\<close>) and the order of the \<open>i64\<close> values.
\<close>

type_synonym height = u64

definition height_increment :: "height \<Rightarrow> height option" where
  "height_increment h = checked_add h 1"

definition height_decrement :: "height \<Rightarrow> height option" where
  "height_decrement h = checked_sub h 1"

definition height_saturating_sub :: "height \<Rightarrow> u64 \<Rightarrow> height" where
  "height_saturating_sub h n = saturating_sub h n"

definition height_increment_by :: "height \<Rightarrow> u64 \<Rightarrow> height option" where
  "height_increment_by h n = checked_add h n"

definition height_decrement_by :: "height \<Rightarrow> u64 \<Rightarrow> height option" where
  "height_decrement_by h n = Some (saturating_sub h n)"

datatype round = RoundNil | Round u32

fun round_as_u32 :: "round \<Rightarrow> u32 option" where
  "round_as_u32 RoundNil = None"
| "round_as_u32 (Round r) = Some r"

fun round_as_i64 :: "round \<Rightarrow> int" where
  "round_as_i64 RoundNil = - 1"
| "round_as_i64 (Round r) = uint r"

lemma uint_neq_minus_one: "uint (x :: 'a::len word) \<noteq> - 1"
proof
  assume "uint x = - 1"
  with uint_ge_0 [of x] show False by linarith
qed

lemma round_as_i64_inj: "round_as_i64 r = round_as_i64 r' \<longleftrightarrow> r = r'"
  using uint_neq_minus_one [symmetric]
  by (cases r; cases r') (simp_all add: uint_neq_minus_one word_uint_eq_iff)

text \<open>The panic of \<open>increment\<close> is the \<open>None\<close> of the model.\<close>

lemma height_increment_iff: "height_increment h = Some h' \<longleftrightarrow> unat h' = unat h + 1"
  by (simp add: height_increment_def checked_add_iff)

lemma height_decrement_increment:
  "height_increment h = Some h' \<longleftrightarrow> height_decrement h' = Some h"
  by (simp add: height_increment_def height_decrement_def checked_add_iff checked_sub_iff add.commute)

section \<open>Validator sets\<close>

text \<open>
  A validator carries the address derived from its public key. Public keys are opaque.
\<close>

record 'pk validator =
  val_address :: address
  val_public_key :: 'pk
  val_voting_power :: u64

text \<open>
  \<open>sort_validators\<close>: by descending voting power, then by ascending address, with the
  comparison key of the source; \<open>Vec::dedup\<close> drops an element equal to the one kept
  before it.
\<close>

definition validator_key :: "'pk validator \<Rightarrow> int \<times> int" where
  "validator_key v = (- uint (val_voting_power v), uint (val_address v))"

fun dedup :: "'a list \<Rightarrow> 'a list" where
  "dedup (x # y # xs) = (if x = y then dedup (x # xs) else x # dedup (y # xs))"
| "dedup xs = xs"

definition sort_validators :: "'pk validator list \<Rightarrow> 'pk validator list" where
  "sort_validators vs = dedup (sort_key validator_key vs)"

definition validator_set_new :: "'pk validator list \<Rightarrow> 'pk validator list option" where
  "validator_set_new vs = (let vs' = sort_validators vs in if vs' = [] then None else Some vs')"

fun total_voting_power_from :: "u64 \<Rightarrow> 'pk validator list \<Rightarrow> u64 option" where
  "total_voting_power_from acc [] = Some acc"
| "total_voting_power_from acc (v # vs) =
     (case checked_add acc (val_voting_power v) of
        None \<Rightarrow> None
      | Some acc' \<Rightarrow> total_voting_power_from acc' vs)"

definition total_voting_power :: "'pk validator list \<Rightarrow> u64 option" where
  "total_voting_power vs = total_voting_power_from 0 vs"

definition get_by_index :: "'pk validator list \<Rightarrow> nat \<Rightarrow> 'pk validator option" where
  "get_by_index vs i = (if i < length vs then Some (vs ! i) else None)"

definition get_by_address :: "'pk validator list \<Rightarrow> address \<Rightarrow> 'pk validator option" where
  "get_by_address vs a = find (\<lambda>v. val_address v = a) vs"

definition get_by_public_key :: "'pk validator list \<Rightarrow> 'pk \<Rightarrow> 'pk validator option" where
  "get_by_public_key vs k = find (\<lambda>v. val_public_key v = k) vs"

lemma set_dedup [simp]: "set (dedup xs) = set xs"
  by (induction xs rule: dedup.induct) auto

lemma dedup_Nil_iff [simp]: "dedup xs = [] \<longleftrightarrow> xs = []"
  by (induction xs rule: dedup.induct) auto

lemma sorted_dedup: "sorted (map f xs) \<Longrightarrow> sorted (map f (dedup xs))"
  by (induction xs rule: dedup.induct) auto

lemma dedup_hd: "xs \<noteq> [] \<Longrightarrow> hd (dedup xs) = hd xs"
  by (induction xs rule: dedup.induct) auto

lemma dedup_no_adjacent: "successively (\<noteq>) (dedup xs)"
proof (induction xs rule: dedup.induct)
  case (1 x y xs)
  show ?case
  proof (cases "x = y")
    case True
    with "1.IH"(1) show ?thesis by simp
  next
    case False
    have "hd (dedup (y # xs)) = y" by (simp add: dedup_hd)
    with False "1.IH"(2) [OF False] show ?thesis
      by (cases "dedup (y # xs)") auto
  qed
qed auto

lemma set_sort_validators [simp]: "set (sort_validators vs) = set vs"
  by (simp add: sort_validators_def)

lemma sort_validators_sorted: "sorted (map validator_key (sort_validators vs))"
  by (simp add: sort_validators_def sorted_dedup)

lemma validator_set_new_Some_iff:
  "validator_set_new vs = Some vs' \<longleftrightarrow> vs \<noteq> [] \<and> vs' = sort_validators vs"
  using set_sort_validators [of vs]
  by (auto simp: validator_set_new_def Let_def simp del: set_sort_validators)

text \<open>Distinct adjacent keys: with distinct addresses the set has no duplicate validator.\<close>

lemma sorted_key_strict:
  assumes "sorted (map f xs)" and "successively (\<noteq>) xs" and "inj_on f (set xs)"
  shows "sorted_wrt (<) (map f xs)"
  using assms
proof (induction xs)
  case Nil
  then show ?case by simp
next
  case (Cons x xs)
  have IH: "sorted_wrt (<) (map f xs)"
    using Cons by (cases xs) (auto simp: inj_on_def)
  show ?case
  proof (cases xs)
    case Nil
    then show ?thesis by simp
  next
    case (Cons y ys)
    have "f x \<noteq> f y" using Cons.prems Cons \<open>xs = y # ys\<close> by (auto simp: inj_on_def)
    moreover have "f x \<le> f y" using Cons.prems(1) \<open>xs = y # ys\<close> by simp
    ultimately have "f x < f y" by (rule neq_le_trans)
    with IH show ?thesis using \<open>xs = y # ys\<close> by (auto intro: less_trans)
  qed
qed

lemma total_voting_power_from_iff:
  "total_voting_power_from acc vs = Some t \<longleftrightarrow>
     unat t = unat acc + (\<Sum>v\<leftarrow>vs. unat (val_voting_power v))"
proof (induction vs arbitrary: acc)
  case Nil
  then show ?case by (auto simp: word_unat_eq_iff)
next
  case (Cons v vs)
  show ?case
  proof (cases "checked_add acc (val_voting_power v)")
    case None
    then have "2 ^ 64 \<le> unat acc + unat (val_voting_power v)"
      by (simp add: checked_add_None_iff)
    moreover have "unat t < 2 ^ 64" using unat_lt2p [of t] by simp
    ultimately show ?thesis using None by auto
  next
    case (Some a)
    then have "unat a = unat acc + unat (val_voting_power v)"
      by (simp add: checked_add_iff)
    with Some show ?thesis by (simp add: Cons.IH add.assoc)
  qed
qed

lemma total_voting_power_iff:
  "total_voting_power vs = Some t \<longleftrightarrow> unat t = (\<Sum>v\<leftarrow>vs. unat (val_voting_power v))"
  by (simp add: total_voting_power_def total_voting_power_from_iff)

section \<open>Round-robin proposer selection\<close>

text \<open>
  \<open>RoundRobin::select_proposer\<close>. The two assertions and the final \<open>expect\<close> are
  \<open>None\<close>; \<open>height - 1\<close> and the addition are \<open>usize\<close> (64-bit) operations whose
  overflow panics in a checked build, again \<open>None\<close>.
\<close>

definition select_proposer :: "'pk validator list \<Rightarrow> height \<Rightarrow> round \<Rightarrow> 'pk validator option" where
  "select_proposer vs h r =
     (if vs = [] then None
      else if r = RoundNil \<or> round_as_i64 r < 0 then None
      else (case checked_sub h 1 of
              None \<Rightarrow> None
            | Some h' \<Rightarrow>
                (case checked_add h' (of_int (round_as_i64 r)) of
                   None \<Rightarrow> None
                 | Some i \<Rightarrow> get_by_index vs (unat i mod length vs))))"

lemma select_proposer_value:
  assumes "vs \<noteq> []" and "0 < unat h" and "unat h - 1 + unat r < 2 ^ 64"
  shows "select_proposer vs h (Round r) = Some (vs ! ((unat h - 1 + unat r) mod length vs))"
proof -
  have h1: "checked_sub h 1 = Some (h - 1)" and uh: "unat (h - 1) = unat h - 1"
    using assms(2) by (simp_all add: checked_sub_def word_le_nat_alt unat_minus_ge)
  have r64: "unat (ucast r :: u64) = unat r"
    using unat_lt2p [of r] by (intro unat_ucast_fits) simp
  let ?i = "h - 1 + ucast r :: u64"
  have i: "unat ?i = unat h - 1 + unat r"
    using assms(3) by (subst unat_add_fits) (simp_all only: uh r64, simp)
  then have "checked_add (h - 1) (ucast r) = Some ?i"
    by (simp only: checked_add_iff uh r64)
  moreover have "(unat h - 1 + unat r) mod length vs < length vs"
    using assms(1) by simp
  ultimately show ?thesis
    using assms(1) uint_ge_0 [of r]
    by (simp add: select_proposer_def get_by_index_def h1 i)
qed

lemma select_proposer_in: "select_proposer vs h r = Some v \<Longrightarrow> v \<in> set vs"
  by (auto simp: select_proposer_def get_by_index_def split: if_splits option.splits)

text \<open>Every residue is reached by some round below the number of validators.\<close>

lemma shift_mod_surj:
  fixes a n j :: nat
  assumes "j < n"
  shows "\<exists>r < n. (a + r) mod n = j"
proof (intro exI conjI)
  let ?r = "(j + (n - a mod n)) mod n"
  show "?r < n" using assms by simp
  have "(a + ?r) mod n = (a mod n + (j + (n - a mod n))) mod n"
    by (metis mod_add_eq mod_mod_trivial)
  also have "a mod n + (j + (n - a mod n)) = j + n"
    using assms mod_less_divisor [of n a] by linarith
  finally show "(a + ?r) mod n = j" using assms by simp
qed

section \<open>Properties\<close>

text \<open>
  (C22) Proposer fairness: for every height from 1 on and every window of as many consecutive
  rounds as there are validators, each validator of the set is the proposer of some round of
  the window.
\<close>

theorem every_validator_proposes:
  assumes "v \<in> set vs" and "0 < h" and "unat r + length vs \<le> 2 ^ 32"
    and "unat h - 1 + unat r + length vs \<le> 2 ^ 64"
  shows "\<exists>k < length vs. select_proposer vs h (Round (r + of_nat k)) = Some v"
proof -
  obtain j where j: "j < length vs" "vs ! j = v"
    using assms(1) by (auto simp: in_set_conv_nth)
  obtain k where k: "k < length vs" "(unat h - 1 + unat r + k) mod length vs = j"
    using shift_mod_surj [OF j(1), of "unat h - 1 + unat r"] by blast
  have "unat (r + of_nat k) = unat r + k"
  proof -
    have "unat (of_nat k :: u32) = k"
      using k(1) assms(3) by (simp add: unat_of_nat take_bit_nat_eq_self)
    then show ?thesis using k(1) assms(3) by (subst unat_add_fits) simp_all
  qed
  moreover have "0 < unat h" using assms(2) by (simp add: word_less_nat_alt)
  ultimately have "select_proposer vs h (Round (r + of_nat k)) = Some v"
    using assms(1,4) k j by (subst select_proposer_value) (auto simp: add.assoc)
  with k(1) show ?thesis by blast
qed

theorem every_validator_proposes_witness:
  "\<exists>k < Suc (Suc 0). select_proposer
     [\<lparr>val_address = 1, val_public_key = (), val_voting_power = 20\<rparr>,
      \<lparr>val_address = 2, val_public_key = (), val_voting_power = 10\<rparr>] 7 (Round (3 + of_nat k))
   = Some \<lparr>val_address = 2, val_public_key = (), val_voting_power = 10\<rparr>"
  using every_validator_proposes
    [of "\<lparr>val_address = 2, val_public_key = (), val_voting_power = 10\<rparr>"
        "[\<lparr>val_address = 1, val_public_key = (), val_voting_power = 20\<rparr>,
          \<lparr>val_address = 2, val_public_key = (), val_voting_power = 10\<rparr>]" 7 3]
  by simp

text \<open>
  (C23) A validator set depends on the validators it is built from, not on their order or on
  duplicates: two nodes that collect the same validators, with distinct power and address
  pairs, hold the same list, and it has no duplicate.
\<close>

theorem validator_set_canonical:
  assumes "set vs = set ws" and "inj_on validator_key (set vs)"
  shows "validator_set_new vs = validator_set_new ws \<and> distinct (sort_validators vs)"
proof -
  have strict: "sorted_wrt (<) (map validator_key (sort_validators us))"
    if "set us = set vs" for us
    using assms(2) that unfolding sort_validators_def
    by (intro sorted_key_strict) (simp_all add: sorted_dedup dedup_no_adjacent)
  have eq: "sort_validators vs = sort_validators ws"
    using assms(1) by (intro strict_sorted_keys_unique [OF strict strict]) simp_all
  have "vs = [] \<longleftrightarrow> ws = []" using assms(1) by auto
  moreover have "distinct (map validator_key (sort_validators vs))"
    using strict [of vs] strict_sorted_iff by blast
  ultimately show ?thesis
    by (simp add: validator_set_new_def eq distinct_map)
qed

theorem validator_set_canonical_witness:
  "validator_set_new
     [\<lparr>val_address = 1, val_public_key = (), val_voting_power = 20\<rparr>,
      \<lparr>val_address = 2, val_public_key = (), val_voting_power = 10\<rparr>] =
   validator_set_new
     [\<lparr>val_address = 2, val_public_key = (), val_voting_power = 10\<rparr>,
      \<lparr>val_address = 1, val_public_key = (), val_voting_power = 20\<rparr>,
      \<lparr>val_address = 2, val_public_key = (), val_voting_power = 10\<rparr>]"
  by (rule validator_set_canonical [THEN conjunct1]) (auto simp: validator_key_def inj_on_def)

end
