(* ===== verification/Proposal_Parts.thy ===== *)
theory Proposal_Parts
  imports Consensus_Types
begin

text \<open>
  Proposal parts: the data of \<open>types/src/proposal_part.rs\<close>, \<open>proposal_parts.rs\<close> and
  \<open>block.rs\<close>, and the producer and consumer of a proposal stream in
  \<open>malachite-app/src/proposal_parts.rs\<close>. Signatures and public keys are opaque types;
  Keccak-256, SSZ and the signing provider are arguments of the definitions that call
  them.
\<close>

section \<open>Data\<close>

record proposal_init =
  pi_height :: height
  pi_round :: round
  pi_pol_round :: round
  pi_proposer :: address

datatype 'sig proposal_part =
    PartInit proposal_init
  | PartData bytes
  | PartFin 'sig

fun as_init :: "'sig proposal_part \<Rightarrow> proposal_init option" where
  "as_init (PartInit i) = Some i"
| "as_init _ = None"

text \<open>The end-of-stream message of a stream is \<open>StreamContent::Fin\<close>, distinct from the \<open>Fin\<close> part.\<close>

datatype 'c stream_content = ContentData 'c | ContentFin

fun as_data :: "'c stream_content \<Rightarrow> 'c option" where
  "as_data (ContentData c) = Some c"
| "as_data ContentFin = None"

record 'c stream_message =
  sm_stream_id :: bytes
  sm_sequence :: u64
  sm_content :: "'c stream_content"

definition is_fin :: "'c stream_message \<Rightarrow> bool" where
  "is_fin m \<longleftrightarrow> as_data (sm_content m) = None"

record 'sig proposal_parts =
  pp_init :: proposal_init
  pp_data :: "bytes list"
  pp_fin :: 'sig

datatype proposal_parts_error = MissingPart string | DuplicatePart string

section \<open>Assembling the parts of a proposal\<close>

text \<open>\<open>ProposalParts::new\<close>: the loop over the parts, then the two presence checks.\<close>

fun collect_parts ::
  "proposal_init option \<Rightarrow> 'sig option \<Rightarrow> bytes list \<Rightarrow> 'sig proposal_part list
     \<Rightarrow> proposal_parts_error + (proposal_init option \<times> 'sig option \<times> bytes list)" where
  "collect_parts i f d [] = Inr (i, f, d)"
| "collect_parts i f d (PartInit p # ps) =
     (if i \<noteq> None then Inl (DuplicatePart ''Init'') else collect_parts (Some p) f d ps)"
| "collect_parts i f d (PartFin p # ps) =
     (if f \<noteq> None then Inl (DuplicatePart ''Fin'') else collect_parts i (Some p) d ps)"
| "collect_parts i f d (PartData p # ps) = collect_parts i f (d @ [p]) ps"

definition proposal_parts_new ::
  "'sig proposal_part list \<Rightarrow> proposal_parts_error + 'sig proposal_parts" where
  "proposal_parts_new ps =
     (case collect_parts None None [] ps of
        Inl e \<Rightarrow> Inl e
      | Inr (i, f, d) \<Rightarrow>
          (case i of
             None \<Rightarrow> Inl (MissingPart ''Init'')
           | Some i' \<Rightarrow>
               (case f of
                  None \<Rightarrow> Inl (MissingPart ''Fin'')
                | Some f' \<Rightarrow> Inr \<lparr>pp_init = i', pp_data = d, pp_fin = f'\<rparr>)))"

definition pp_height :: "'sig proposal_parts \<Rightarrow> height" where
  "pp_height pp = pi_height (pp_init pp)"

definition pp_round :: "'sig proposal_parts \<Rightarrow> round" where
  "pp_round pp = pi_round (pp_init pp)"

definition pp_proposer :: "'sig proposal_parts \<Rightarrow> address" where
  "pp_proposer pp = pi_proposer (pp_init pp)"

definition pp_data_size :: "'sig proposal_parts \<Rightarrow> nat" where
  "pp_data_size pp = sum_list (map length (pp_data pp))"

definition i64_be_bytes :: "int \<Rightarrow> bytes" where
  "i64_be_bytes i = to_be_bytes 8 (of_int i :: u64)"

definition pp_hash :: "(bytes \<Rightarrow> bytes) \<Rightarrow> 'sig proposal_parts \<Rightarrow> bytes" where
  "pp_hash keccak256 pp =
     keccak256 (to_be_bytes 8 (pp_height pp) @ i64_be_bytes (round_as_i64 (pp_round pp))
       @ concat (pp_data pp))"

definition pending_key ::
  "(bytes \<Rightarrow> bytes) \<Rightarrow> ('sig \<Rightarrow> bytes) \<Rightarrow> 'sig proposal_parts \<Rightarrow> height \<times> round \<times> bytes" where
  "pending_key keccak256 sig_to_bytes pp =
     (pp_height pp, pp_round pp,
      keccak256 (pp_hash keccak256 pp @ to_be_bytes 20 (pp_proposer pp)
        @ i64_be_bytes (round_as_i64 (pi_pol_round (pp_init pp))) @ sig_to_bytes (pp_fin pp)))"

text \<open>The three projections that say what a list of parts holds.\<close>

definition inits_of :: "'sig proposal_part list \<Rightarrow> proposal_init list" where
  "inits_of ps = List.map_filter (\<lambda>p. case p of PartInit i \<Rightarrow> Some i | _ \<Rightarrow> None) ps"

definition datas_of :: "'sig proposal_part list \<Rightarrow> bytes list" where
  "datas_of ps = List.map_filter (\<lambda>p. case p of PartData d \<Rightarrow> Some d | _ \<Rightarrow> None) ps"

definition fins_of :: "'sig proposal_part list \<Rightarrow> 'sig list" where
  "fins_of ps = List.map_filter (\<lambda>p. case p of PartFin f \<Rightarrow> Some f | _ \<Rightarrow> None) ps"

lemma parts_of_Nil [simp]: "inits_of [] = []" "datas_of [] = []" "fins_of [] = []"
  by (simp_all add: inits_of_def datas_of_def fins_of_def map_filter_simps)

lemma inits_of_Cons [simp]:
  "inits_of (p # ps) = (case p of PartInit i \<Rightarrow> i # inits_of ps | _ \<Rightarrow> inits_of ps)"
  by (simp add: inits_of_def map_filter_simps split: proposal_part.split)

lemma datas_of_Cons [simp]:
  "datas_of (p # ps) = (case p of PartData d \<Rightarrow> d # datas_of ps | _ \<Rightarrow> datas_of ps)"
  by (simp add: datas_of_def map_filter_simps split: proposal_part.split)

lemma fins_of_Cons [simp]:
  "fins_of (p # ps) = (case p of PartFin f \<Rightarrow> f # fins_of ps | _ \<Rightarrow> fins_of ps)"
  by (simp add: fins_of_def map_filter_simps split: proposal_part.split)

lemma parts_of_append [simp]:
  "inits_of (ps @ qs) = inits_of ps @ inits_of qs"
  "datas_of (ps @ qs) = datas_of ps @ datas_of qs"
  "fins_of (ps @ qs) = fins_of ps @ fins_of qs"
  by (induction ps) (auto split: proposal_part.splits)

lemma parts_of_map_PartData [simp]:
  "inits_of (map PartData ds) = []" "datas_of (map PartData ds) = ds" "fins_of (map PartData ds) = []"
  by (induction ds) auto

lemma collect_parts_Inr_iff:
  "collect_parts i f d ps = Inr (i', f', d') \<longleftrightarrow>
     (case inits_of ps of [] \<Rightarrow> i' = i | [x] \<Rightarrow> i = None \<and> i' = Some x | _ \<Rightarrow> False) \<and>
     (case fins_of ps of [] \<Rightarrow> f' = f | [x] \<Rightarrow> f = None \<and> f' = Some x | _ \<Rightarrow> False) \<and>
     d' = d @ datas_of ps"
  by (induction i f d ps rule: collect_parts.induct) (auto split: list.splits)

lemma set_datas_of: "d \<in> set (datas_of ps) \<longleftrightarrow> PartData d \<in> set ps"
  by (induction ps) (auto split: proposal_part.splits)

lemma set_inits_of: "i \<in> set (inits_of ps) \<longleftrightarrow> PartInit i \<in> set ps"
  by (induction ps) (auto split: proposal_part.splits)

lemma inits_of_nonempty: "inits_of ps \<noteq> [] \<longleftrightarrow> (\<exists>p \<in> set ps. as_init p \<noteq> None)"
  by (induction ps) (auto split: proposal_part.splits)

lemma proposal_parts_new_Inr_iff:
  "proposal_parts_new ps = Inr pp \<longleftrightarrow>
     inits_of ps = [pp_init pp] \<and> fins_of ps = [pp_fin pp] \<and> datas_of ps = pp_data pp"
proof (cases "collect_parts None None [] ps")
  case (Inl e)
  then have "\<not> (\<exists>i f d. collect_parts None None [] ps = Inr (i, f, d))" by simp
  then have "\<not> (inits_of ps = [pp_init pp] \<and> fins_of ps = [pp_fin pp])"
    by (auto simp: collect_parts_Inr_iff)
  with Inl show ?thesis by (auto simp: proposal_parts_new_def)
next
  case (Inr r)
  then obtain i f d where r: "collect_parts None None [] ps = Inr (i, f, d)"
    by (cases r) auto
  then have "(case inits_of ps of [] \<Rightarrow> i = None | [x] \<Rightarrow> i = Some x | _ \<Rightarrow> False)"
    and "(case fins_of ps of [] \<Rightarrow> f = None | [x] \<Rightarrow> f = Some x | _ \<Rightarrow> False)"
    and "d = datas_of ps"
    by (auto simp: collect_parts_Inr_iff split: list.splits)
  with r show ?thesis
    by (cases pp) (auto simp: proposal_parts_new_def split: list.splits option.splits)
qed

lemma collect_parts_Inl:
  "collect_parts i f d ps = Inl e \<Longrightarrow> e = DuplicatePart ''Init'' \<or> e = DuplicatePart ''Fin''"
  by (induction i f d ps rule: collect_parts.induct) (auto split: if_splits)

section \<open>Blocks\<close>

text \<open>
  \<open>ExecutionPayloadV3\<close> is the Engine API's payload; the consensus layer reads its block
  number, parent hash, block hash and timestamp. \<open>pl_rest\<close> stands for the other fields.
\<close>

type_synonym block_hash = u256

record exec_payload =
  pl_block_number :: u64
  pl_parent_hash :: block_hash
  pl_block_hash :: block_hash
  pl_timestamp :: u64
  pl_rest :: bytes

datatype validity = Valid | Invalid

definition is_valid :: "validity \<Rightarrow> bool" where
  "is_valid v \<longleftrightarrow> v = Valid"

record 'sig consensus_block =
  cb_height :: height
  cb_round :: round
  cb_valid_round :: round
  cb_proposer :: address
  cb_validity :: validity
  cb_payload :: exec_payload
  cb_signature :: "'sig option"

definition self_reported_block_hash :: "'sig consensus_block \<Rightarrow> block_hash" where
  "self_reported_block_hash b = pl_block_hash (cb_payload b)"

text \<open>\<open>hash_of\<close> is the execution library's block reconstruction and header hash.\<close>

definition self_reported_hash_is_canonical ::
  "(exec_payload \<Rightarrow> 'e + block_hash) \<Rightarrow> 'sig consensus_block \<Rightarrow> bool" where
  "self_reported_hash_is_canonical hash_of b =
     (case hash_of (cb_payload b) of
        Inl _ \<Rightarrow> False
      | Inr canonical \<Rightarrow> canonical = self_reported_block_hash b)"

definition may_be_stored_as_undecided ::
  "(exec_payload \<Rightarrow> 'e + block_hash) \<Rightarrow> 'sig consensus_block \<Rightarrow> bool" where
  "may_be_stored_as_undecided hash_of b \<longleftrightarrow>
     is_valid (cb_validity b) \<or> self_reported_hash_is_canonical hash_of b"

record proposed_value =
  pv_height :: height
  pv_round :: round
  pv_proposer :: address
  pv_valid_round :: round
  pv_value :: block_hash
  pv_validity :: validity

definition to_proposed_value_with_validity ::
  "'sig consensus_block \<Rightarrow> validity \<Rightarrow> proposed_value" where
  "to_proposed_value_with_validity b v =
     \<lparr>pv_height = cb_height b, pv_round = cb_round b, pv_proposer = cb_proposer b,
      pv_valid_round = cb_valid_round b, pv_value = self_reported_block_hash b,
      pv_validity = v\<rparr>"

section \<open>Producing a proposal stream\<close>

definition CHUNK_SIZE :: nat where
  "CHUNK_SIZE = 128 * 1024"

text \<open>\<open>slice::chunks\<close>; a chunk size of zero panics there and yields no chunk here.\<close>

function chunks :: "nat \<Rightarrow> 'a list \<Rightarrow> 'a list list" where
  "chunks n xs = (if xs = [] \<or> n = 0 then [] else take n xs # chunks n (drop n xs))"
  by pat_completeness auto
termination
  by (relation "measure (\<lambda>(n, xs). length xs)") auto

declare chunks.simps [simp del]

lemma chunks_Nil [simp]: "chunks n [] = []"
  by (simp add: chunks.simps)

lemma concat_chunks: "0 < n \<Longrightarrow> concat (chunks n xs) = xs"
proof (induction n xs rule: chunks.induct)
  case (1 n xs)
  then show ?case by (cases "xs = []") (simp_all add: chunks.simps [of n xs])
qed

lemma chunks_length_le: "c \<in> set (chunks n xs) \<Longrightarrow> length c \<le> n"
proof (induction n xs rule: chunks.induct)
  case (1 n xs)
  then show ?case
    by (cases "xs = [] \<or> n = 0") (auto simp: chunks.simps [of n xs])
qed

lemma ceil_div_step:
  fixes m n :: nat
  assumes "0 < n" and "0 < m"
  shows "(m + n - 1) div n = Suc ((m - n + n - 1) div n)"
proof -
  have eq: "m + n - 1 = (m - 1) + n" using assms by linarith
  have "(m + n - 1) div n = (m - 1) div n + 1"
    unfolding eq by (rule div_add_self2) (use assms in simp)
  moreover have "(m - 1) div n = (m - n + n - 1) div n"
  proof (cases "m \<le> n")
    case True
    then have "(m - 1) div n = 0" and "m - n + n - 1 = n - 1"
      using assms by auto
    with assms show ?thesis by simp
  next
    case False
    then have "m - n + n - 1 = m - 1" by linarith
    then show ?thesis by simp
  qed
  ultimately show ?thesis by simp
qed

lemma length_chunks: "0 < n \<Longrightarrow> length (chunks n xs) = (length xs + n - 1) div n"
proof (induction n xs rule: chunks.induct)
  case (1 n xs)
  show ?case
  proof (cases "xs = []")
    case True
    with "1.prems" show ?thesis by simp
  next
    case False
    then have "length (chunks n xs) = Suc (length (chunks n (drop n xs)))"
      using "1.prems" by (simp add: chunks.simps [of n xs])
    also have "length (chunks n (drop n xs)) = (length xs - n + n - 1) div n"
      using "1.IH" False "1.prems" by simp
    also have "Suc \<dots> = (length xs + n - 1) div n"
      by (rule ceil_div_step [symmetric]) (use "1.prems" False in auto)
    finally show ?thesis .
  qed
qed

text \<open>
  \<open>make_proposal_parts\<close>: \<open>ssz\<close> is the SSZ encoding of the payload, \<open>sign\<close> the signing
  provider. A stored signature is reused (restreaming), otherwise the hash of height,
  round and chunks is signed.
\<close>

definition make_proposal_parts ::
  "(exec_payload \<Rightarrow> bytes) \<Rightarrow> (bytes \<Rightarrow> bytes) \<Rightarrow> (bytes \<Rightarrow> 'e + 'sig) \<Rightarrow> 'sig consensus_block
     \<Rightarrow> 'e + ('sig proposal_part list \<times> 'sig)" where
  "make_proposal_parts ssz keccak256 sign b =
     (let data = chunks CHUNK_SIZE (ssz (cb_payload b));
          init = \<lparr>pi_height = cb_height b, pi_round = cb_round b,
                  pi_pol_round = cb_valid_round b, pi_proposer = cb_proposer b\<rparr>;
          hash = keccak256 (to_be_bytes 8 (cb_height b) @ i64_be_bytes (round_as_i64 (cb_round b))
                   @ concat data)
      in case (case cb_signature b of Some s \<Rightarrow> Inr s | None \<Rightarrow> sign hash) of
           Inl e \<Rightarrow> Inl e
         | Inr s \<Rightarrow> Inr (PartInit init # map PartData data @ [PartFin s], s))"

fun number_messages :: "bytes \<Rightarrow> u64 \<Rightarrow> 'c list \<Rightarrow> 'c stream_message list" where
  "number_messages sid n [] = [\<lparr>sm_stream_id = sid, sm_sequence = n, sm_content = ContentFin\<rparr>]"
| "number_messages sid n (p # ps) =
     \<lparr>sm_stream_id = sid, sm_sequence = n, sm_content = ContentData p\<rparr>
       # number_messages sid (n + 1) ps"

definition prepare_stream ::
  "(exec_payload \<Rightarrow> bytes) \<Rightarrow> (bytes \<Rightarrow> bytes) \<Rightarrow> (bytes \<Rightarrow> 'e + 'sig) \<Rightarrow> bytes \<Rightarrow> 'sig consensus_block
     \<Rightarrow> 'e + ('sig proposal_part stream_message list \<times> 'sig)" where
  "prepare_stream ssz keccak256 sign sid b =
     (case make_proposal_parts ssz keccak256 sign b of
        Inl e \<Rightarrow> Inl e
      | Inr (parts, s) \<Rightarrow> Inr (number_messages sid 0 parts, s))"

section \<open>Consuming a proposal\<close>

datatype verification_result = SigValid | SigInvalid

definition validate_proposal_parts ::
  "(bytes \<Rightarrow> bytes) \<Rightarrow> (bytes \<Rightarrow> 'sig \<Rightarrow> 'pk \<Rightarrow> 'e + verification_result)
     \<Rightarrow> 'sig proposal_parts \<Rightarrow> 'pk validator \<Rightarrow> bool" where
  "validate_proposal_parts keccak256 verify pp v =
     (if val_address v \<noteq> pp_proposer pp then False
      else (case verify (pp_hash keccak256 pp) (pp_fin pp) (val_public_key v) of
              Inr SigValid \<Rightarrow> True
            | Inr SigInvalid \<Rightarrow> False
            | Inl _ \<Rightarrow> False))"

definition resolve_expected_proposer ::
  "'pk validator list \<Rightarrow> 'sig proposal_parts \<Rightarrow> 'pk validator option" where
  "resolve_expected_proposer vs pp = select_proposer vs (pp_height pp) (pp_round pp)"

text \<open>\<open>unssz\<close> is the SSZ decoder of the payload.\<close>

definition assemble_block_from_parts ::
  "(bytes \<Rightarrow> 'e + exec_payload) \<Rightarrow> 'sig proposal_parts \<Rightarrow> 'e + 'sig consensus_block" where
  "assemble_block_from_parts unssz pp =
     (case unssz (concat (pp_data pp)) of
        Inl e \<Rightarrow> Inl e
      | Inr pl \<Rightarrow>
          Inr \<lparr>cb_height = pp_height pp, cb_round = pp_round pp,
               cb_valid_round = pi_pol_round (pp_init pp), cb_proposer = pp_proposer pp,
               cb_validity = Valid, cb_payload = pl, cb_signature = Some (pp_fin pp)\<rparr>)"

lemma make_proposal_parts_new:
  assumes "make_proposal_parts ssz keccak256 sign b = Inr (parts, s)"
  obtains pp where "proposal_parts_new parts = Inr pp"
    and "pp_height pp = cb_height b" and "pp_round pp = cb_round b"
    and "pp_proposer pp = cb_proposer b" and "pi_pol_round (pp_init pp) = cb_valid_round b"
    and "pp_fin pp = s" and "pp_data pp = chunks CHUNK_SIZE (ssz (cb_payload b))"
proof -
  let ?init = "\<lparr>pi_height = cb_height b, pi_round = cb_round b,
                pi_pol_round = cb_valid_round b, pi_proposer = cb_proposer b\<rparr>"
  let ?data = "chunks CHUNK_SIZE (ssz (cb_payload b))"
  let ?pp = "\<lparr>pp_init = ?init, pp_data = ?data, pp_fin = s\<rparr>"
  have parts: "parts = PartInit ?init # map PartData ?data @ [PartFin s]"
    using assms by (auto simp: make_proposal_parts_def Let_def split: sum.splits)
  have "proposal_parts_new parts = Inr ?pp"
    by (simp add: proposal_parts_new_Inr_iff parts)
  then show thesis
    by (rule that) (simp_all add: pp_height_def pp_round_def pp_proposer_def)
qed

lemma make_proposal_parts_sound_signature:
  assumes "make_proposal_parts ssz keccak256 sign b = Inr (parts, s)" and "cb_signature b = None"
    and "proposal_parts_new parts = Inr pp"
  shows "sign (pp_hash keccak256 pp) = Inr (pp_fin pp)"
proof -
  obtain pp' where "proposal_parts_new parts = Inr pp'"
    and "pp_height pp' = cb_height b" and "pp_round pp' = cb_round b"
    and "pp_fin pp' = s" and "pp_data pp' = chunks CHUNK_SIZE (ssz (cb_payload b))"
    using assms(1) by (rule make_proposal_parts_new)
  with assms show ?thesis
    by (auto simp: make_proposal_parts_def Let_def pp_hash_def split: sum.splits)
qed

lemma length_number_messages [simp]: "length (number_messages sid n ps) = Suc (length ps)"
  by (induction ps arbitrary: n) auto

lemma number_messages_nth:
  assumes "i \<le> length ps"
  shows "number_messages sid n ps ! i =
    \<lparr>sm_stream_id = sid, sm_sequence = n + of_nat i,
     sm_content = (if i < length ps then ContentData (ps ! i) else ContentFin)\<rparr>"
  using assms
proof (induction ps arbitrary: n i)
  case Nil
  then show ?case by simp
next
  case (Cons p ps)
  show ?case
  proof (cases i)
    case 0
    then show ?thesis by simp
  next
    case (Suc j)
    with Cons show ?thesis by (simp add: ac_simps)
  qed
qed

section \<open>Properties\<close>

text \<open>
  (C21) \<open>ProposalParts::new\<close> succeeds exactly on the part lists with one \<open>Init\<close> and one
  \<open>Fin\<close>, keeping the data parts in order, and it names the missing part when neither kind is
  duplicated.
\<close>

theorem proposal_parts_new_exact:
  "(proposal_parts_new ps = Inr pp \<longleftrightarrow>
      inits_of ps = [pp_init pp] \<and> fins_of ps = [pp_fin pp] \<and> datas_of ps = pp_data pp)
   \<and> (proposal_parts_new ps = Inl (MissingPart ''Init'') \<longleftrightarrow>
        inits_of ps = [] \<and> length (fins_of ps) \<le> 1)
   \<and> (proposal_parts_new ps = Inl (MissingPart ''Fin'') \<longleftrightarrow>
        length (inits_of ps) = 1 \<and> fins_of ps = [])"
proof (intro conjI)
  show "proposal_parts_new ps = Inl (MissingPart ''Init'') \<longleftrightarrow> inits_of ps = [] \<and> length (fins_of ps) \<le> 1"
    and "proposal_parts_new ps = Inl (MissingPart ''Fin'') \<longleftrightarrow> length (inits_of ps) = 1 \<and> fins_of ps = []"
  proof -
    have none: "proposal_parts_new ps = Inl (MissingPart w) \<longleftrightarrow>
      (\<exists>f d. collect_parts None None [] ps = Inr (None, f, d) \<and> w = ''Init'')
      \<or> (\<exists>i d. collect_parts None None [] ps = Inr (Some i, None, d) \<and> w = ''Fin'')" for w
      using collect_parts_Inl [of None None "[]" ps]
      by (cases "collect_parts None None [] ps") (auto simp: proposal_parts_new_def split: option.splits)
    show "proposal_parts_new ps = Inl (MissingPart ''Init'') \<longleftrightarrow> inits_of ps = [] \<and> length (fins_of ps) \<le> 1"
      unfolding none collect_parts_Inr_iff
      by (cases "inits_of ps"; cases "fins_of ps"; cases "tl (inits_of ps)"; cases "tl (fins_of ps)") auto
    show "proposal_parts_new ps = Inl (MissingPart ''Fin'') \<longleftrightarrow> length (inits_of ps) = 1 \<and> fins_of ps = []"
      unfolding none collect_parts_Inr_iff
      by (cases "inits_of ps"; cases "fins_of ps"; cases "tl (inits_of ps)"; cases "tl (fins_of ps)") auto
  qed
qed (rule proposal_parts_new_Inr_iff)

text \<open>
  A freshly signed proposal is accepted: the parts that the proposer makes and signs
  assemble into parts that the validation accepts against the expected proposer, whenever
  the verifier accepts what the signer signed.
\<close>

theorem fresh_proposal_validates:
  assumes mk: "make_proposal_parts ssz keccak256 sign b = Inr (parts, s)" and fresh: "cb_signature b = None"
    and law: "\<And>msg sg. sign msg = Inr sg \<Longrightarrow> verify msg sg (val_public_key v) = Inr SigValid"
    and proposer: "cb_proposer b = val_address v"
  shows "\<exists>pp. proposal_parts_new parts = Inr pp \<and> validate_proposal_parts keccak256 verify pp v"
proof -
  obtain pp where pp: "proposal_parts_new parts = Inr pp" and "pp_proposer pp = cb_proposer b"
    using mk by (rule make_proposal_parts_new)
  moreover have "verify (pp_hash keccak256 pp) (pp_fin pp) (val_public_key v) = Inr SigValid"
    using make_proposal_parts_sound_signature [OF mk fresh pp] by (rule law)
  ultimately show ?thesis by (simp add: validate_proposal_parts_def proposer)
qed

theorem fresh_proposal_validates_witness:
  "\<exists>pp. proposal_parts_new
       [PartInit \<lparr>pi_height = 5, pi_round = Round 0, pi_pol_round = RoundNil, pi_proposer = 77\<rparr>,
        PartData [1, 2, 3], PartFin (9 :: nat)] = Inr pp
     \<and> validate_proposal_parts (\<lambda>bs. bs) (\<lambda>_ sg pk. if sg = pk then Inr SigValid else (Inr SigInvalid :: unit + _))
         pp \<lparr>val_address = 77, val_public_key = 9, val_voting_power = 1\<rparr>"
proof -
  have "make_proposal_parts (\<lambda>_. [1, 2, 3]) (\<lambda>bs. bs) (\<lambda>_. Inr 9 :: unit + nat)
     \<lparr>cb_height = 5, cb_round = Round 0, cb_valid_round = RoundNil, cb_proposer = 77,
      cb_validity = Valid,
      cb_payload = \<lparr>pl_block_number = 5, pl_parent_hash = 11, pl_block_hash = 12, pl_timestamp = 100,
        pl_rest = []\<rparr>, cb_signature = None\<rparr>
     = Inr ([PartInit \<lparr>pi_height = 5, pi_round = Round 0, pi_pol_round = RoundNil, pi_proposer = 77\<rparr>,
             PartData [1, 2, 3], PartFin 9], 9)"
    by (simp add: make_proposal_parts_def chunks.simps CHUNK_SIZE_def)
  then show ?thesis
    by (rule fresh_proposal_validates) simp_all
qed

end
