(* ===== verification/Part_Streams.thy ===== *)
theory Part_Streams
  imports Proposal_Parts "HOL-Library.Multiset"
begin

text \<open>
  The reassembly of proposal streams, \<open>malachite-app/src/streaming.rs\<close>: the state of one
  stream (\<open>StreamState\<close>), the bounded map of all streams (\<open>PartStreamsMap\<close>) with its
  limits, evictions and closed keys, and the stream identifiers.

  Instants are natural numbers of nanoseconds; every reading of the clock is an argument.
  The least-recently-used map of closed keys is a third-party container: its operations
  are a record of functions and what is relied on is the predicate \<open>lru_laws\<close>.
\<close>

section \<open>Limits\<close>

definition MAX_MESSAGES_PER_STREAM :: nat where
  "MAX_MESSAGES_PER_STREAM = 128"

definition MAX_STREAMS_PER_PEER :: nat where
  "MAX_STREAMS_PER_PEER = 4"

definition MAX_STREAM_AGE :: nat where
  "MAX_STREAM_AGE = 60 * 10 ^ 9"

definition MAX_CLOSED_STREAMS :: nat where
  "MAX_CLOSED_STREAMS = 10000"

definition STREAM_ID_LEN :: nat where
  "STREAM_ID_LEN = 8 + 4 + 4"

text \<open>\<open>usize::saturating_mul\<close>, then \<open>max\<close>.\<close>

definition max_total_streams :: "nat \<Rightarrow> nat" where
  "max_total_streams num_validators =
     max (min (MAX_STREAMS_PER_PEER * num_validators) (2 ^ 64 - 1)) MAX_STREAMS_PER_PEER"

definition is_valid_fin_sequence :: "u64 \<Rightarrow> bool" where
  "is_valid_fin_sequence s \<longleftrightarrow> unat s < MAX_MESSAGES_PER_STREAM"

lemmas stream_limits = MAX_MESSAGES_PER_STREAM_def MAX_STREAMS_PER_PEER_def
  MAX_STREAM_AGE_def STREAM_ID_LEN_def

section \<open>Stream identifiers\<close>

text \<open>\<open>new_stream_id\<close>; \<open>None\<close> is its panic on the nil round.\<close>

definition new_stream_id :: "height \<Rightarrow> round \<Rightarrow> u32 \<Rightarrow> bytes option" where
  "new_stream_id h r nonce =
     (case round_as_u32 r of
        None \<Rightarrow> None
      | Some r' \<Rightarrow> Some (to_be_bytes 8 h @ to_be_bytes 4 r' @ to_be_bytes 4 nonce))"

definition stream_id_height :: "bytes \<Rightarrow> height option" where
  "stream_id_height sid = (if 8 \<le> length sid then Some (from_be_bytes (take 8 sid)) else None)"

section \<open>The state of one stream\<close>

text \<open>
  The binary heap ordered by descending \<open>sequence\<close> is the list of its messages in the
  order in which \<open>pop\<close> returns them.
\<close>

type_synonym 'sig part_message = "'sig proposal_part stream_message"

definition heap_push :: "'c stream_message \<Rightarrow> 'c stream_message list \<Rightarrow> 'c stream_message list" where
  "heap_push m h = insort_key sm_sequence m h"

fun heap_drain :: "'c stream_message list \<Rightarrow> 'c list" where
  "heap_drain [] = []"
| "heap_drain (m # h) =
     (case as_data (sm_content m) of None \<Rightarrow> heap_drain h | Some d \<Rightarrow> d # heap_drain h)"

record 'sig stream_state =
  ss_buffer :: "'sig part_message list"
  ss_seen_sequences :: "u64 set"
  ss_expected_messages :: nat
  ss_message_count :: nat
  ss_height :: "height option"
  ss_fin_received :: bool
  ss_is_complete :: bool
  ss_created_at :: nat

datatype 'sig stream_insert_result =
    SDuplicate
  | SIncomplete "height option"
  | SExceededMaxMessages
  | SInvalidFinSequence u64
  | SExceededMaxChunkSize nat
  | SComplete "'sig proposal_part list"

definition stream_state_new :: "nat \<Rightarrow> 'sig stream_state" where
  "stream_state_new now =
     \<lparr>ss_buffer = [], ss_seen_sequences = {}, ss_expected_messages = 0, ss_message_count = 0,
      ss_height = None, ss_fin_received = False, ss_is_complete = False, ss_created_at = now\<rparr>"

text \<open>The guards of \<open>StreamState::insert\<close> on the message alone.\<close>

definition oversized_chunk :: "'sig part_message \<Rightarrow> nat option" where
  "oversized_chunk msg =
     (case as_data (sm_content msg) of
        Some (PartData d) \<Rightarrow> if CHUNK_SIZE < length d then Some (length d) else None
      | _ \<Rightarrow> None)"

definition msg_init :: "'sig part_message \<Rightarrow> proposal_init option" where
  "msg_init msg = Option.bind (as_data (sm_content msg)) as_init"

text \<open>The accepting part of \<open>StreamState::insert\<close>, from the message count on.\<close>

definition stream_accept ::
  "'sig part_message \<Rightarrow> 'sig stream_state \<Rightarrow> 'sig stream_insert_result \<times> 'sig stream_state" where
  "stream_accept msg s =
     (let s1 = s\<lparr>ss_message_count := ss_message_count s + 1\<rparr>;
          s2 = (case msg_init msg of Some i \<Rightarrow> s1\<lparr>ss_height := Some (pi_height i)\<rparr> | None \<Rightarrow> s1);
          s3 = (if is_fin msg
                then s2\<lparr>ss_fin_received := True, ss_expected_messages := unat (sm_sequence msg) + 1\<rparr>
                else s2);
          s4 = s3\<lparr>ss_buffer := heap_push msg (ss_buffer s3)\<rparr>;
          s5 = s4\<lparr>ss_is_complete := ss_height s4 \<noteq> None \<and> ss_fin_received s4
                                    \<and> length (ss_buffer s4) = ss_expected_messages s4\<rparr>
      in if \<not> ss_is_complete s5 then (SIncomplete (ss_height s5), s5)
         else (SComplete (heap_drain (ss_buffer s5)), s5\<lparr>ss_buffer := []\<rparr>))"

definition stream_insert ::
  "'sig part_message \<Rightarrow> 'sig stream_state \<Rightarrow> 'sig stream_insert_result \<times> 'sig stream_state" where
  "stream_insert msg s =
     (case oversized_chunk msg of
        Some n \<Rightarrow> (SExceededMaxChunkSize n, s)
      | None \<Rightarrow>
          if is_fin msg \<and> \<not> is_valid_fin_sequence (sm_sequence msg)
          then (SInvalidFinSequence (sm_sequence msg), s)
          else if sm_sequence msg \<in> ss_seen_sequences s then (SDuplicate, s)
          else
            let s' = s\<lparr>ss_seen_sequences := insert (sm_sequence msg) (ss_seen_sequences s)\<rparr>
            in if MAX_MESSAGES_PER_STREAM \<le> ss_message_count s' then (SExceededMaxMessages, s')
               else stream_accept msg s')"

section \<open>The map of streams\<close>

record ('k, 'l) lru_ops =
  lru_new :: "nat \<Rightarrow> 'l"
  lru_insert :: "'k \<Rightarrow> 'l \<Rightarrow> 'l"
  lru_peek :: "'l \<Rightarrow> 'k \<Rightarrow> bool"

text \<open>
  The documented behaviour of the LRU map with a length limiter: a new map is empty, an
  inserted key is present, and an insertion adds no other key.
\<close>

definition lru_laws :: "('k, 'l) lru_ops \<Rightarrow> bool" where
  "lru_laws lru \<longleftrightarrow>
     (\<forall>n k. \<not> lru_peek lru (lru_new lru n) k)
     \<and> (\<forall>l k. lru_peek lru (lru_insert lru k l) k)
     \<and> (\<forall>l k j. lru_peek lru (lru_insert lru k l) j \<longrightarrow> j = k \<or> lru_peek lru l j)"

record ('p, 'sig, 'l) part_streams_map =
  psm_current_height :: height
  psm_max_total_streams :: nat
  psm_streams :: "('p \<times> bytes, 'sig stream_state) btree_map"
  psm_closed_keys :: 'l
  psm_last_eviction :: nat

datatype insert_error =
    InvalidStreamIdLength nat nat
  | StreamIdHeightMismatch height height
  | AssemblyFailed proposal_parts_error

datatype 'sig insert_result =
    IComplete "'sig proposal_parts"
  | IPending
  | IStale
  | IInvalid insert_error

definition part_streams_map_new ::
  "('p \<times> bytes, 'l) lru_ops \<Rightarrow> nat \<Rightarrow> height \<Rightarrow> nat \<Rightarrow> ('p, 'sig, 'l) part_streams_map" where
  "part_streams_map_new lru now current_height num_validators =
     \<lparr>psm_current_height = current_height,
      psm_max_total_streams = max_total_streams num_validators,
      psm_streams = [], psm_closed_keys = lru_new lru MAX_CLOSED_STREAMS,
      psm_last_eviction = now\<rparr>"

definition evict ::
  "('p \<times> bytes, 'l) lru_ops \<Rightarrow> 'p \<times> bytes
     \<Rightarrow> ('p, 'sig, 'l) part_streams_map \<Rightarrow> ('p, 'sig, 'l) part_streams_map" where
  "evict lru key m =
     m\<lparr>psm_streams := bt_remove key (psm_streams m),
       psm_closed_keys := lru_insert lru key (psm_closed_keys m)\<rparr>"

definition mark_closed ::
  "('p \<times> bytes, 'l) lru_ops \<Rightarrow> 'p \<Rightarrow> bytes
     \<Rightarrow> ('p, 'sig, 'l) part_streams_map \<Rightarrow> ('p, 'sig, 'l) part_streams_map" where
  "mark_closed lru peer sid m =
     m\<lparr>psm_closed_keys := lru_insert lru (peer, sid) (psm_closed_keys m)\<rparr>"

definition evict_old_streams ::
  "('p \<times> bytes, 'l) lru_ops \<Rightarrow> nat
     \<Rightarrow> ('p, 'sig, 'l) part_streams_map \<Rightarrow> ('p, 'sig, 'l) part_streams_map" where
  "evict_old_streams lru now m =
     (if now - psm_last_eviction m < MAX_STREAM_AGE then m
      else
        let m1 = m\<lparr>psm_last_eviction := now\<rparr>;
            keys_to_remove =
              map fst (filter (\<lambda>e. MAX_STREAM_AGE < now - ss_created_at (snd e)) (psm_streams m1))
        in foldl (\<lambda>m' k. evict lru k m') m1 keys_to_remove)"

definition peer_streams_count :: "('p \<times> bytes, 'v) btree_map \<Rightarrow> 'p \<Rightarrow> nat" where
  "peer_streams_count streams peer = length (filter (\<lambda>k. fst k = peer) (map fst streams))"

definition count_peer :: "('p::linorder, nat) btree_map \<Rightarrow> 'p \<Rightarrow> ('p, nat) btree_map" where
  "count_peer counts p =
     bt_insert p ((case bt_get counts p of None \<Rightarrow> 0 | Some c \<Rightarrow> c) + 1) counts"

definition busiest_peer :: "('p::linorder \<times> bytes, 'v) btree_map \<Rightarrow> 'p option" where
  "busiest_peer streams =
     map_option fst (max_by_key snd (foldl count_peer [] (map (fst \<circ> fst) streams)))"

definition oldest_stream_of ::
  "('p \<times> bytes, 'sig stream_state) btree_map \<Rightarrow> 'p \<Rightarrow> ('p \<times> bytes) option" where
  "oldest_stream_of streams peer =
     map_option fst (min_by_key (\<lambda>e. ss_created_at (snd e))
       (filter (\<lambda>e. fst (fst e) = peer) streams))"

definition evict_oldest_stream ::
  "('p::linorder \<times> bytes, 'l) lru_ops
     \<Rightarrow> ('p, 'sig, 'l) part_streams_map \<Rightarrow> ('p, 'sig, 'l) part_streams_map" where
  "evict_oldest_stream lru m =
     (case busiest_peer (psm_streams m) of
        None \<Rightarrow> m
      | Some peer \<Rightarrow>
          (case oldest_stream_of (psm_streams m) peer of
             None \<Rightarrow> m
           | Some key \<Rightarrow> evict lru key m))"

definition remove_stale_streams ::
  "height \<Rightarrow> ('p, 'sig, 'l) part_streams_map \<Rightarrow> ('p, 'sig, 'l) part_streams_map" where
  "remove_stale_streams h m =
     m\<lparr>psm_streams := bt_retain
        (\<lambda>k _. case stream_id_height (snd k) of None \<Rightarrow> False | Some h' \<Rightarrow> h \<le> h') (psm_streams m)\<rparr>"

definition set_current_height ::
  "height \<Rightarrow> ('p, 'sig, 'l) part_streams_map \<Rightarrow> ('p, 'sig, 'l) part_streams_map" where
  "set_current_height h m = remove_stale_streams h (m\<lparr>psm_current_height := h\<rparr>)"

lemma bt_wf_count_peer: "bt_wf counts \<Longrightarrow> bt_wf (count_peer counts p)"
  by (simp add: count_peer_def bt_wf_insert)

lemma bt_wf_count_peers: "bt_wf counts \<Longrightarrow> bt_wf (foldl count_peer counts ps)"
  by (induction ps arbitrary: counts) (simp_all add: bt_wf_count_peer)

lemma bt_get_count_peers:
  "bt_wf counts \<Longrightarrow> bt_get (foldl count_peer counts ps) p =
     (if p \<in> set ps
      then Some ((case bt_get counts p of None \<Rightarrow> 0 | Some c \<Rightarrow> c) + length (filter ((=) p) ps))
      else bt_get counts p)"
proof (induction ps arbitrary: counts)
  case (Cons q ps)
  have "bt_get (count_peer counts q) p =
    (if p = q then Some ((case bt_get counts q of None \<Rightarrow> 0 | Some c \<Rightarrow> c) + 1) else bt_get counts p)"
    using Cons.prems by (simp add: count_peer_def bt_get_insert)
  moreover have "p \<notin> set ps \<Longrightarrow> filter ((=) p) ps = []"
    by (auto simp: filter_empty_conv)
  ultimately show ?case
    using Cons.IH [OF bt_wf_count_peer [OF Cons.prems]] by (cases "p = q") simp_all
qed simp

lemma peer_streams_count_alt:
  "peer_streams_count streams p = length (filter ((=) p) (map (fst \<circ> fst) streams))"
  by (induction streams) (auto simp: peer_streams_count_def)

lemma busiest_peer_None_iff [simp]: "busiest_peer streams = None \<longleftrightarrow> streams = []"
proof -
  let ?c = "foldl count_peer [] (map (fst \<circ> fst) streams)"
  have "?c = [] \<longleftrightarrow> streams = []"
  proof
    assume nil: "?c = []"
    show "streams = []"
    proof (rule ccontr)
      assume "streams \<noteq> []"
      then obtain e where "e \<in> set streams" by (cases streams) auto
      then have "fst (fst e) \<in> set (map (fst \<circ> fst) streams)" by auto
      with nil bt_get_count_peers [OF bt_wf_Nil, of "map (fst \<circ> fst) streams" "fst (fst e)"]
      show False by (simp add: bt_get_def)
    qed
  qed simp
  then show ?thesis by (simp add: busiest_peer_def)
qed

lemma busiest_peer_max:
  assumes "busiest_peer streams = Some p"
  shows "p \<in> fst ` bt_keys streams"
    and "peer_streams_count streams q \<le> peer_streams_count streams p"
proof -
  let ?ps = "map (fst \<circ> fst) streams"
  let ?c = "foldl count_peer [] ?ps"
  have wf: "bt_wf ?c" by (simp add: bt_wf_count_peers)
  obtain n where mx: "max_by_key snd ?c = Some (p, n)"
    using assms by (auto simp: busiest_peer_def)
  then have "(p, n) \<in> set ?c" by (rule max_by_key_in)
  then have pn: "bt_get ?c p = Some n" using wf by (simp add: bt_in_set_get)
  then have "p \<in> set ?ps" and n: "n = peer_streams_count streams p"
    using bt_get_count_peers [OF bt_wf_Nil, of ?ps p]
    by (auto simp: peer_streams_count_alt bt_get_def split: if_splits)
  then show "p \<in> fst ` bt_keys streams" by (auto simp: bt_keys_def)
  show "peer_streams_count streams q \<le> peer_streams_count streams p"
  proof (cases "q \<in> set ?ps")
    case True
    then have "bt_get ?c q = Some (peer_streams_count streams q)"
      using bt_get_count_peers [OF bt_wf_Nil, of ?ps q]
      by (simp add: peer_streams_count_alt bt_get_def)
    then have "(q, peer_streams_count streams q) \<in> set ?c" using wf by (simp add: bt_in_set_get)
    from max_by_key_ge [OF mx this] n show ?thesis by simp
  next
    case False
    then have "filter ((=) q) ?ps = []" by (auto simp: filter_empty_conv)
    then show ?thesis by (simp add: peer_streams_count_alt)
  qed
qed

lemma oldest_stream_of_Some:
  assumes "p \<in> fst ` bt_keys streams"
  obtains key s where "oldest_stream_of streams p = Some key" and "fst key = p"
    and "(key, s) \<in> set streams"
    and "\<And>key' s'. (key', s') \<in> set streams \<Longrightarrow> fst key' = p \<Longrightarrow> ss_created_at s \<le> ss_created_at s'"
proof -
  let ?xs = "filter (\<lambda>e. fst (fst e) = p) streams"
  have "?xs \<noteq> []" using assms by (force simp: bt_keys_def filter_empty_conv)
  then obtain e where mn: "min_by_key (\<lambda>e. ss_created_at (snd e)) ?xs = Some e"
    by (metis min_by_key_None_iff not_Some_eq)
  then have e: "e \<in> set ?xs" by (rule min_by_key_in)
  show thesis
  proof (rule that [of "fst e" "snd e"])
    show "oldest_stream_of streams p = Some (fst e)" by (simp add: oldest_stream_of_def mn)
    show "fst (fst e) = p" and "(fst e, snd e) \<in> set streams" using e by auto
    show "ss_created_at (snd e) \<le> ss_created_at s'"
      if "(key', s') \<in> set streams" and "fst key' = p" for key' s'
      using min_by_key_le [OF mn, of "(key', s')"] that by simp
  qed
qed

lemma evict_oldest_streamE:
  assumes "psm_streams m \<noteq> []"
  obtains key s where "evict_oldest_stream lru m = evict lru key m"
    and "(key, s) \<in> set (psm_streams m)"
    and "\<And>q. peer_streams_count (psm_streams m) q \<le> peer_streams_count (psm_streams m) (fst key)"
    and "\<And>key' s'. (key', s') \<in> set (psm_streams m) \<Longrightarrow> fst key' = fst key
           \<Longrightarrow> ss_created_at s \<le> ss_created_at s'"
proof -
  obtain p where p: "busiest_peer (psm_streams m) = Some p"
    using assms by (metis busiest_peer_None_iff not_Some_eq)
  obtain key s where k: "oldest_stream_of (psm_streams m) p = Some key" and "fst key = p"
    and "(key, s) \<in> set (psm_streams m)"
    and "\<And>key' s'. (key', s') \<in> set (psm_streams m) \<Longrightarrow> fst key' = p
           \<Longrightarrow> ss_created_at s \<le> ss_created_at s'"
    using busiest_peer_max(1) [OF p] by (rule oldest_stream_of_Some) blast
  with that [of key s] busiest_peer_max(2) [OF p] p show thesis
    by (simp add: evict_oldest_stream_def)
qed

lemma length_bt_remove_less: "(k, v) \<in> set m \<Longrightarrow> length (bt_remove k m) < length m"
  by (auto simp: bt_remove_def intro: length_filter_less)

lemma evict_oldest_stream_less:
  "psm_streams m \<noteq> [] \<Longrightarrow>
     length (psm_streams (evict_oldest_stream lru m)) < length (psm_streams m)"
  by (erule evict_oldest_streamE [of _ lru]) (simp add: evict_def length_bt_remove_less)

text \<open>The loop of \<open>set_num_validators\<close> ends because every round removes a stream.\<close>

function shrink_streams ::
  "('p::linorder \<times> bytes, 'l) lru_ops
     \<Rightarrow> ('p, 'sig, 'l) part_streams_map \<Rightarrow> ('p, 'sig, 'l) part_streams_map" where
  "shrink_streams lru m =
     (if psm_max_total_streams m < length (psm_streams m)
      then shrink_streams lru (evict_oldest_stream lru m) else m)"
  by pat_completeness auto
termination
  by (relation "measure (\<lambda>(lru, m). length (psm_streams m))")
    (auto intro: evict_oldest_stream_less)

declare shrink_streams.simps [simp del]

definition set_num_validators ::
  "('p::linorder \<times> bytes, 'l) lru_ops \<Rightarrow> nat
     \<Rightarrow> ('p, 'sig, 'l) part_streams_map \<Rightarrow> ('p, 'sig, 'l) part_streams_map" where
  "set_num_validators lru n m = shrink_streams lru (m\<lparr>psm_max_total_streams := max_total_streams n\<rparr>)"

text \<open>
  \<open>PartStreamsMap::insert\<close>. The three guards in front, the admission of a new stream, and
  the handling of the stream's answer, in the order of the source; \<open>now\<close> is the clock at
  the age sweep and \<open>now'\<close> the clock when a stream is created.
\<close>

definition finish_parts ::
  "('p \<times> bytes, 'l) lru_ops \<Rightarrow> 'p \<times> bytes \<Rightarrow> height \<Rightarrow> 'sig proposal_part list
     \<Rightarrow> ('p, 'sig, 'l) part_streams_map
     \<Rightarrow> 'sig insert_result \<times> ('p, 'sig, 'l) part_streams_map" where
  "finish_parts lru key stream_height parts m =
     (case proposal_parts_new parts of
        Inr pp \<Rightarrow>
          if pp_height pp \<noteq> stream_height
          then (IInvalid (StreamIdHeightMismatch stream_height (pp_height pp)), evict lru key m)
          else (IComplete pp, m)
      | Inl e \<Rightarrow> (IInvalid (AssemblyFailed e), m))"

definition insert_into_stream ::
  "('p::linorder \<times> bytes, 'l) lru_ops \<Rightarrow> nat \<Rightarrow> 'p \<times> bytes \<Rightarrow> height \<Rightarrow> 'sig part_message
     \<Rightarrow> ('p, 'sig, 'l) part_streams_map
     \<Rightarrow> 'sig insert_result \<times> ('p, 'sig, 'l) part_streams_map" where
  "insert_into_stream lru now' key stream_height msg m =
     (let s = (case bt_get (psm_streams m) key of Some s \<Rightarrow> s | None \<Rightarrow> stream_state_new now');
          (r, s') = stream_insert msg s;
          m' = m\<lparr>psm_streams := bt_insert key s' (psm_streams m)\<rparr>
      in case r of
           SDuplicate \<Rightarrow> (IPending, m')
         | SIncomplete None \<Rightarrow> (IPending, m')
         | SIncomplete (Some init_height) \<Rightarrow>
             if init_height \<noteq> stream_height
             then (IInvalid (StreamIdHeightMismatch stream_height init_height), evict lru key m')
             else (IPending, m')
         | SExceededMaxMessages \<Rightarrow> (IPending, evict lru key m')
         | SInvalidFinSequence _ \<Rightarrow> (IPending, evict lru key m')
         | SExceededMaxChunkSize _ \<Rightarrow> (IPending, evict lru key m')
         | SComplete parts \<Rightarrow>
             finish_parts lru key stream_height parts
               (m'\<lparr>psm_streams := bt_remove key (psm_streams m')\<rparr>))"

definition psm_insert ::
  "('p::linorder \<times> bytes, 'l) lru_ops \<Rightarrow> nat \<Rightarrow> nat \<Rightarrow> 'p \<Rightarrow> 'sig part_message
     \<Rightarrow> ('p, 'sig, 'l) part_streams_map
     \<Rightarrow> 'sig insert_result \<times> ('p, 'sig, 'l) part_streams_map" where
  "psm_insert lru now now' peer msg m =
     (let sid = sm_stream_id msg;
          key = (peer, sid);
          dropped = m\<lparr>psm_streams := bt_remove key (psm_streams m)\<rparr>
      in if length sid \<noteq> STREAM_ID_LEN
         then (IInvalid (InvalidStreamIdLength (length sid) STREAM_ID_LEN), dropped)
         else case stream_id_height sid of
           None \<Rightarrow> (IInvalid (InvalidStreamIdLength (length sid) STREAM_ID_LEN), dropped)
         | Some stream_height \<Rightarrow>
             if stream_height < psm_current_height m then (IStale, dropped)
             else
               let m1 = evict_old_streams lru now m
               in if lru_peek lru (psm_closed_keys m1) key then (IPending, m1)
                  else if bt_get (psm_streams m1) key \<noteq> None
                  then insert_into_stream lru now' key stream_height msg m1
                  else if MAX_STREAMS_PER_PEER \<le> peer_streams_count (psm_streams m1) peer
                  then (IPending, m1)
                  else
                    insert_into_stream lru now' key stream_height msg
                      (if psm_max_total_streams m1 \<le> length (psm_streams m1)
                       then evict_oldest_stream lru m1 else m1))"

section \<open>The invariant of a stream\<close>

definition stream_inv :: "'sig stream_state \<Rightarrow> bool" where
  "stream_inv s \<longleftrightarrow>
     sorted_wrt (<) (map sm_sequence (ss_buffer s))
     \<and> ss_seen_sequences s = sm_sequence ` set (ss_buffer s)
     \<and> ss_message_count s = length (ss_buffer s)
     \<and> ss_message_count s \<le> MAX_MESSAGES_PER_STREAM
     \<and> list_all (\<lambda>m. oversized_chunk m = None) (ss_buffer s)
     \<and> (ss_height s = None \<longrightarrow> list_all (\<lambda>m. msg_init m = None) (ss_buffer s))
     \<and> (\<forall>h. ss_height s = Some h \<longrightarrow>
          list_ex (\<lambda>m. \<exists>i. msg_init m = Some i \<and> pi_height i = h) (ss_buffer s))
     \<and> (ss_fin_received s \<longrightarrow>
          list_ex (\<lambda>m. is_fin m \<and> ss_expected_messages s = unat (sm_sequence m) + 1) (ss_buffer s))
     \<and> (\<not> ss_fin_received s \<longrightarrow> list_all (\<lambda>m. \<not> is_fin m) (ss_buffer s))"

lemma set_heap_push [simp]: "set (heap_push m h) = insert m (set h)"
  by (simp add: heap_push_def set_insort_key)

lemma length_heap_push [simp]: "length (heap_push m h) = Suc (length h)"
  by (simp add: heap_push_def)

lemma heap_push_list_all [simp]: "list_all P (heap_push m h) \<longleftrightarrow> P m \<and> list_all P h"
  by (simp add: list_all_iff)

lemma heap_push_list_ex [simp]: "list_ex P (heap_push m h) \<longleftrightarrow> P m \<or> list_ex P h"
  by (simp add: list_ex_iff)

lemma heap_push_sorted:
  "sorted_wrt (<) (map sm_sequence h) \<Longrightarrow> sm_sequence m \<notin> sm_sequence ` set h
     \<Longrightarrow> sorted_wrt (<) (map sm_sequence (heap_push m h))"
  unfolding heap_push_def
  by (induction h) (auto simp: set_insort_key less_le)

lemma heap_drain_conv: "heap_drain h = List.map_filter (\<lambda>m. as_data (sm_content m)) h"
  by (induction h) (auto simp: List.map_filter_def split: option.splits)

lemma stream_inv_new [simp]: "stream_inv (stream_state_new now)"
  by (simp add: stream_inv_def stream_state_new_def)

text \<open>What an accepted message does: the buffer grows by it and completion is decided.\<close>

lemma stream_insert_duplicate: "stream_insert msg s = (SDuplicate, s') \<Longrightarrow> s' = s"
  by (auto simp: stream_insert_def stream_accept_def Let_def split: option.splits if_splits)

lemma stream_insert_accepted:
  assumes "stream_insert msg s = (r, s')" and "(\<exists>h. r = SIncomplete h) \<or> (\<exists>ps. r = SComplete ps)"
  shows "oversized_chunk msg = None" and "is_fin msg \<Longrightarrow> is_valid_fin_sequence (sm_sequence msg)"
    and "sm_sequence msg \<notin> ss_seen_sequences s" and "ss_message_count s < MAX_MESSAGES_PER_STREAM"
    and "stream_accept msg (s\<lparr>ss_seen_sequences := insert (sm_sequence msg) (ss_seen_sequences s)\<rparr>) = (r, s')"
  using assms by (auto simp: stream_insert_def Let_def split: option.splits if_splits)

lemma stream_accept_created_at: "stream_accept msg s = (r, s') \<Longrightarrow> ss_created_at s' = ss_created_at s"
  by (auto simp: stream_accept_def Let_def split: option.splits if_splits)

lemma stream_accept_result:
  "fst (stream_accept msg s) =
     (if (msg_init msg \<noteq> None \<or> ss_height s \<noteq> None) \<and> (is_fin msg \<or> ss_fin_received s)
         \<and> Suc (length (ss_buffer s)) =
             (if is_fin msg then unat (sm_sequence msg) + 1 else ss_expected_messages s)
      then SComplete (heap_drain (heap_push msg (ss_buffer s)))
      else SIncomplete (case msg_init msg of Some i \<Rightarrow> Some (pi_height i) | None \<Rightarrow> ss_height s))"
  by (cases "msg_init msg"; cases "is_fin msg") (simp_all add: stream_accept_def Let_def)

lemma stream_accept_incomplete:
  assumes "stream_accept msg s = (SIncomplete h, s')"
  shows "ss_buffer s' = heap_push msg (ss_buffer s)" and "ss_height s' = h"
    and "ss_message_count s' = ss_message_count s + 1"
    and "ss_seen_sequences s' = ss_seen_sequences s"
    and "ss_fin_received s' \<longleftrightarrow> ss_fin_received s \<or> is_fin msg"
    and "ss_expected_messages s' =
      (if is_fin msg then unat (sm_sequence msg) + 1 else ss_expected_messages s)"
    and "h = (case msg_init msg of Some i \<Rightarrow> Some (pi_height i) | None \<Rightarrow> ss_height s)"
  using assms by (auto simp: stream_accept_def Let_def split: option.splits if_splits)

lemma stream_insert_incomplete:
  assumes "stream_insert msg s = (SIncomplete h, s')"
  shows "ss_buffer s' = heap_push msg (ss_buffer s)" and "ss_height s' = h"
    and "ss_seen_sequences s' = insert (sm_sequence msg) (ss_seen_sequences s)"
    and "ss_fin_received s' \<longleftrightarrow> ss_fin_received s \<or> is_fin msg"
    and "ss_expected_messages s' =
      (if is_fin msg then unat (sm_sequence msg) + 1 else ss_expected_messages s)"
    and "h = (case msg_init msg of Some i \<Rightarrow> Some (pi_height i) | None \<Rightarrow> ss_height s)"
  using stream_accept_incomplete [OF stream_insert_accepted(5) [OF assms]]
  by (simp_all cong: option.case_cong)

lemma stream_insert_inv:
  assumes inv: "stream_inv s" and ins: "stream_insert msg s = (SIncomplete h, s')"
  shows "stream_inv s'"
proof -
  note acc = stream_insert_accepted [OF ins]
  let ?s = "s\<lparr>ss_seen_sequences := insert (sm_sequence msg) (ss_seen_sequences s)\<rparr>"
  have "stream_accept msg ?s = (SIncomplete h, s')" by (rule acc(5)) simp
  note a = stream_accept_incomplete [OF this]
  have fresh: "sm_sequence msg \<notin> sm_sequence ` set (ss_buffer s)"
    using acc(3) inv by (simp add: stream_inv_def)
  have "sorted_wrt (<) (map sm_sequence (ss_buffer s'))"
    unfolding a by (simp add: heap_push_sorted fresh inv [unfolded stream_inv_def])
  moreover have "ss_height s' = None \<longrightarrow> list_all (\<lambda>m. msg_init m = None) (ss_buffer s')"
    and "\<forall>h. ss_height s' = Some h \<longrightarrow>
      list_ex (\<lambda>m. \<exists>i. msg_init m = Some i \<and> pi_height i = h) (ss_buffer s')"
    using inv by (auto simp: a stream_inv_def split: option.splits)
  moreover have "ss_fin_received s' \<longrightarrow>
      list_ex (\<lambda>m. is_fin m \<and> ss_expected_messages s' = unat (sm_sequence m) + 1) (ss_buffer s')"
    and "\<not> ss_fin_received s' \<longrightarrow> list_all (\<lambda>m. \<not> is_fin m) (ss_buffer s')"
    using inv by (auto simp: a stream_inv_def)
  ultimately show ?thesis
    using inv acc(1-4) by (simp add: stream_inv_def a)
qed

lemma stream_insert_complete:
  assumes inv: "stream_inv s" and ins: "stream_insert msg s = (SComplete ps, s')"
  shows "ps = heap_drain (heap_push msg (ss_buffer s))"
    and "sorted_wrt (<) (map sm_sequence (heap_push msg (ss_buffer s)))"
    and "length (heap_push msg (ss_buffer s)) \<le> MAX_MESSAGES_PER_STREAM"
    and "list_all (\<lambda>m. oversized_chunk m = None) (heap_push msg (ss_buffer s))"
    and "list_ex (\<lambda>m. msg_init m \<noteq> None) (heap_push msg (ss_buffer s))"
    and "list_ex (\<lambda>m. is_fin m \<and> unat (sm_sequence m) + 1 = length (heap_push msg (ss_buffer s)))
           (heap_push msg (ss_buffer s))"
proof -
  note acc = stream_insert_accepted [OF ins]
  let ?s = "s\<lparr>ss_seen_sequences := insert (sm_sequence msg) (ss_seen_sequences s)\<rparr>"
  have a: "stream_accept msg ?s = (SComplete ps, s')" by (rule acc(5)) simp
  have fresh: "sm_sequence msg \<notin> sm_sequence ` set (ss_buffer s)"
    using acc(3) inv by (simp add: stream_inv_def)
  show "ps = heap_drain (heap_push msg (ss_buffer s))"
    using a by (auto simp: stream_accept_def Let_def split: option.splits if_splits)
  show "sorted_wrt (<) (map sm_sequence (heap_push msg (ss_buffer s)))"
    by (simp add: heap_push_sorted fresh inv [unfolded stream_inv_def])
  show "length (heap_push msg (ss_buffer s)) \<le> MAX_MESSAGES_PER_STREAM"
    using acc(4) inv by (simp add: stream_inv_def)
  show "list_all (\<lambda>m. oversized_chunk m = None) (heap_push msg (ss_buffer s))"
    using acc(1) inv by (simp add: stream_inv_def)
  show "list_ex (\<lambda>m. msg_init m \<noteq> None) (heap_push msg (ss_buffer s))"
  proof -
    have "msg_init msg \<noteq> None \<or> ss_height s \<noteq> None"
      using a by (auto simp: stream_accept_def Let_def split: option.splits if_splits)
    with inv show ?thesis by (auto simp: stream_inv_def list_ex_iff)
  qed
  show "list_ex (\<lambda>m. is_fin m \<and> unat (sm_sequence m) + 1 = length (heap_push msg (ss_buffer s)))
           (heap_push msg (ss_buffer s))"
    using a inv by (auto simp: stream_accept_def stream_inv_def Let_def list_ex_iff
        split: option.splits if_splits)
qed

section \<open>The invariant of the map\<close>

definition entry_inv :: "height \<Rightarrow> 'p \<times> bytes \<Rightarrow> 'sig stream_state \<Rightarrow> bool" where
  "entry_inv cur k s \<longleftrightarrow>
     stream_inv s \<and> length (snd k) = STREAM_ID_LEN
     \<and> (case stream_id_height (snd k) of
          None \<Rightarrow> False
        | Some h \<Rightarrow> cur \<le> h \<and> (ss_height s = None \<or> ss_height s = Some h))"

definition psm_inv :: "('p::linorder, 'sig, 'l) part_streams_map \<Rightarrow> bool" where
  "psm_inv m \<longleftrightarrow>
     bt_wf (psm_streams m)
     \<and> MAX_STREAMS_PER_PEER \<le> psm_max_total_streams m
     \<and> length (psm_streams m) \<le> psm_max_total_streams m
     \<and> (\<forall>p. peer_streams_count (psm_streams m) p \<le> MAX_STREAMS_PER_PEER)
     \<and> (\<forall>e \<in> set (psm_streams m). entry_inv (psm_current_height m) (fst e) (snd e))"

lemma MAX_STREAMS_le_total: "MAX_STREAMS_PER_PEER \<le> max_total_streams n"
  by (simp add: max_total_streams_def)

lemma psm_inv_new: "psm_inv (part_streams_map_new lru now h n)"
  by (simp add: psm_inv_def part_streams_map_new_def MAX_STREAMS_le_total peer_streams_count_def)

lemma peer_streams_count_filter_le:
  "peer_streams_count (filter P streams) p \<le> peer_streams_count streams p"
  by (induction streams) (auto simp: peer_streams_count_def)

text \<open>Dropping streams, closing keys and moving the sweep time keep the invariant.\<close>

lemma psm_inv_drop:
  assumes "psm_inv m"
    and "psm_streams m' = filter P (psm_streams m)"
    and "psm_current_height m' = psm_current_height m"
    and "psm_max_total_streams m' = psm_max_total_streams m"
  shows "psm_inv m'"
  using assms
  by (auto simp: psm_inv_def bt_wf_filter
      intro: le_trans [OF length_filter_le] le_trans [OF peer_streams_count_filter_le])

lemma psm_inv_evict: "psm_inv m \<Longrightarrow> psm_inv (evict lru key m)"
  by (rule psm_inv_drop [where P = "\<lambda>e. fst e \<noteq> key"]) (simp_all add: evict_def bt_remove_def)

lemma psm_inv_evict_all: "psm_inv m \<Longrightarrow> psm_inv (foldl (\<lambda>m' k. evict lru k m') m ks)"
  by (induction ks arbitrary: m) (simp_all add: psm_inv_evict)

lemma psm_inv_last_eviction: "psm_inv (m\<lparr>psm_last_eviction := t\<rparr>) \<longleftrightarrow> psm_inv m"
  by (simp add: psm_inv_def)

lemma psm_inv_evict_old: "psm_inv m \<Longrightarrow> psm_inv (evict_old_streams lru now m)"
  by (simp add: evict_old_streams_def Let_def psm_inv_evict_all psm_inv_last_eviction)

lemma psm_inv_evict_oldest: "psm_inv m \<Longrightarrow> psm_inv (evict_oldest_stream lru m)"
  by (simp add: evict_oldest_stream_def psm_inv_evict split: option.split)

lemma psm_inv_mark_closed: "psm_inv (mark_closed lru p sid m) \<longleftrightarrow> psm_inv m"
  by (simp add: psm_inv_def mark_closed_def)

lemma evict_fields [simp]:
  "psm_streams (evict lru key m) = bt_remove key (psm_streams m)"
  "psm_current_height (evict lru key m) = psm_current_height m"
  "psm_max_total_streams (evict lru key m) = psm_max_total_streams m"
  "psm_last_eviction (evict lru key m) = psm_last_eviction m"
  "psm_closed_keys (evict lru key m) = lru_insert lru key (psm_closed_keys m)"
  by (simp_all add: evict_def)

lemma evict_all_fields [simp]:
  "psm_current_height (foldl (\<lambda>m' k. evict lru k m') m ks) = psm_current_height m"
  "psm_max_total_streams (foldl (\<lambda>m' k. evict lru k m') m ks) = psm_max_total_streams m"
  "psm_last_eviction (foldl (\<lambda>m' k. evict lru k m') m ks) = psm_last_eviction m"
  "psm_streams (foldl (\<lambda>m' k. evict lru k m') m ks) = filter (\<lambda>e. fst e \<notin> set ks) (psm_streams m)"
  by (induction ks arbitrary: m) (auto simp: bt_remove_def intro: filter_cong)

lemma evict_old_streams_fields [simp]:
  "psm_current_height (evict_old_streams lru now m) = psm_current_height m"
  "psm_max_total_streams (evict_old_streams lru now m) = psm_max_total_streams m"
  by (simp_all add: evict_old_streams_def Let_def)

lemma evict_oldest_stream_fields [simp]:
  "psm_current_height (evict_oldest_stream lru m) = psm_current_height m"
  "psm_max_total_streams (evict_oldest_stream lru m) = psm_max_total_streams m"
  "psm_last_eviction (evict_oldest_stream lru m) = psm_last_eviction m"
  by (simp_all add: evict_oldest_stream_def split: option.split)

lemma bt_remove_insert: "bt_wf m \<Longrightarrow> bt_remove k (bt_insert k v m) = bt_remove k m"
  by (induction m) (auto simp: bt_remove_def bt_wf_Cons)

lemma bt_insert_insert: "bt_wf m \<Longrightarrow> bt_insert k v (bt_insert k w m) = bt_insert k v m"
  by (induction m) (auto simp: bt_wf_Cons)

lemma peer_streams_count_insert:
  "bt_wf streams \<Longrightarrow> peer_streams_count (bt_insert k v streams) p =
     (if k \<notin> bt_keys streams \<and> fst k = p then Suc (peer_streams_count streams p)
      else peer_streams_count streams p)"
  by (induction streams)
    (auto simp: peer_streams_count_def bt_wf_Cons bt_keys_Cons dest: less_imp_neq)

lemma set_bt_insert: "e \<in> set (bt_insert k v m) \<Longrightarrow> e = (k, v) \<or> e \<in> set m"
  by (induction m) (auto split: if_splits)

lemma psm_inv_put:
  assumes "psm_inv m" and "entry_inv (psm_current_height m) key s"
    and "bt_get (psm_streams m) key = None \<Longrightarrow>
      length (psm_streams m) < psm_max_total_streams m
      \<and> peer_streams_count (psm_streams m) (fst key) < MAX_STREAMS_PER_PEER"
  shows "psm_inv (m\<lparr>psm_streams := bt_insert key s (psm_streams m)\<rparr>)"
proof -
  have "bt_wf (psm_streams m)" using assms by (simp add: psm_inv_def)
  then show ?thesis
    using assms
    by (auto simp: psm_inv_def bt_wf_insert length_bt_insert peer_streams_count_insert bt_get_None_iff
        Suc_le_eq dest!: set_bt_insert)
qed

lemma psm_inv_entry_put:
  assumes "psm_inv m" and "bt_get (psm_streams m) key = Some s"
  shows "entry_inv (psm_current_height m) key s"
proof -
  have "(key, s) \<in> set (psm_streams m)"
    using assms by (simp add: bt_in_set_get psm_inv_def)
  with assms(1) show ?thesis by (auto simp: psm_inv_def)
qed

text \<open>What the caller of \<open>insert_into_stream\<close> has established about the key.\<close>

definition admitted :: "'p::linorder \<times> bytes \<Rightarrow> height \<Rightarrow> ('p, 'sig, 'l) part_streams_map \<Rightarrow> bool" where
  "admitted key h m \<longleftrightarrow>
     length (snd key) = STREAM_ID_LEN \<and> stream_id_height (snd key) = Some h
     \<and> psm_current_height m \<le> h
     \<and> (bt_get (psm_streams m) key = None \<longrightarrow>
          length (psm_streams m) < psm_max_total_streams m
          \<and> peer_streams_count (psm_streams m) (fst key) < MAX_STREAMS_PER_PEER)"

definition stream_at :: "nat \<Rightarrow> 'p \<times> bytes \<Rightarrow> ('p, 'sig, 'l) part_streams_map \<Rightarrow> 'sig stream_state" where
  "stream_at now' key m =
     (case bt_get (psm_streams m) key of Some s \<Rightarrow> s | None \<Rightarrow> stream_state_new now')"

lemma entry_inv_stream_at:
  assumes "psm_inv m" and "admitted key h m"
  shows "entry_inv (psm_current_height m) key (stream_at now' key m)"
proof (cases "bt_get (psm_streams m) key")
  case None
  with assms show ?thesis
    by (simp add: stream_at_def entry_inv_def admitted_def) (simp add: stream_state_new_def)
next
  case (Some s)
  with assms(1) show ?thesis by (simp add: stream_at_def psm_inv_entry_put)
qed

lemma psm_inv_finish_parts:
  "psm_inv m \<Longrightarrow> psm_inv (snd (finish_parts lru key h parts m))"
  by (auto simp: finish_parts_def psm_inv_evict split: sum.split)

lemma psm_inv_insert_into_stream:
  assumes inv: "psm_inv m" and adm: "admitted key h m"
  shows "psm_inv (snd (insert_into_stream lru now' key h msg m))"
proof -
  have wf: "bt_wf (psm_streams m)" using inv by (simp add: psm_inv_def)
  obtain r s' where ins: "stream_insert msg (stream_at now' key m) = (r, s')"
    by (cases "stream_insert msg (stream_at now' key m)")
  let ?m' = "m\<lparr>psm_streams := bt_insert key s' (psm_streams m)\<rparr>"
  have e: "entry_inv (psm_current_height m) key (stream_at now' key m)"
    using inv adm by (rule entry_inv_stream_at)
  have put: "psm_inv ?m'" if "entry_inv (psm_current_height m) key s'"
    using inv that adm by (intro psm_inv_put) (auto simp: admitted_def)
  have ev: "psm_inv (evict lru key ?m')"
    by (rule psm_inv_drop [OF inv, where P = "\<lambda>e. fst e \<noteq> key"])
      (simp_all add: bt_remove_insert wf, simp add: bt_remove_def)
  have rm: "psm_inv (?m'\<lparr>psm_streams := bt_remove key (psm_streams ?m')\<rparr>)"
    by (rule psm_inv_drop [OF inv, where P = "\<lambda>e. fst e \<noteq> key"])
      (simp_all add: bt_remove_insert wf, simp add: bt_remove_def)
  have keep: "psm_inv ?m'" if "r = SIncomplete hh" "hh = None \<or> hh = Some h" for hh
  proof (rule put)
    have "ss_height s' = hh"
      using ins unfolding that(1) by (rule stream_insert_incomplete)
    with that e ins adm show "entry_inv (psm_current_height m) key s'"
      by (auto simp: entry_inv_def admitted_def intro: stream_insert_inv)
  qed
  have dup: "psm_inv ?m'" if "r = SDuplicate"
    using e ins that by (intro put) (auto dest: stream_insert_duplicate)
  show ?thesis
    using ins ev keep dup psm_inv_finish_parts [OF rm]
    by (auto simp: insert_into_stream_def stream_at_def [symmetric] Let_def
        split: stream_insert_result.split option.split)
qed

text \<open>After the admission of a new stream there is room for it in the map.\<close>

lemma admission_room:
  fixes m :: "('p::linorder, 'sig, 'l) part_streams_map"
  defines "m' \<equiv> \<lambda>lru. if psm_max_total_streams m \<le> length (psm_streams m)
                     then evict_oldest_stream lru m else m"
  assumes inv: "psm_inv m"
  shows "length (psm_streams (m' lru)) < psm_max_total_streams (m' lru)"
    and "peer_streams_count (psm_streams (m' lru)) p \<le> peer_streams_count (psm_streams m) p"
    and "psm_current_height (m' lru) = psm_current_height m"
proof -
  have nonempty: "psm_streams m \<noteq> []" if "psm_max_total_streams m \<le> length (psm_streams m)"
    using that inv by (auto simp: psm_inv_def stream_limits)
  show "length (psm_streams (m' lru)) < psm_max_total_streams (m' lru)"
    using nonempty evict_oldest_stream_less [of m lru] inv
    by (auto simp: m'_def psm_inv_def)
  show "peer_streams_count (psm_streams (m' lru)) p \<le> peer_streams_count (psm_streams m) p"
    by (simp add: m'_def evict_oldest_stream_def bt_remove_def peer_streams_count_filter_le
        split: option.split)
  show "psm_current_height (m' lru) = psm_current_height m"
    by (simp add: m'_def)
qed

lemma psm_inv_insert: "psm_inv m \<Longrightarrow> psm_inv (snd (psm_insert lru now now' peer msg m))"
proof -
  assume inv: "psm_inv m"
  let ?key = "(peer, sm_stream_id msg)"
  let ?m1 = "evict_old_streams lru now m"
  let ?m2 = "if psm_max_total_streams ?m1 \<le> length (psm_streams ?m1) then evict_oldest_stream lru ?m1 else ?m1"
  have inv1: "psm_inv ?m1" and inv2: "psm_inv ?m2"
    using inv by (simp_all add: psm_inv_evict_old psm_inv_evict_oldest)
  have drop: "psm_inv (m\<lparr>psm_streams := bt_remove ?key (psm_streams m)\<rparr>)"
    by (rule psm_inv_drop [OF inv, where P = "\<lambda>e. fst e \<noteq> ?key"]) (simp_all add: bt_remove_def)
  show ?thesis
  proof (cases "length (sm_stream_id msg) = STREAM_ID_LEN \<and> stream_id_height (sm_stream_id msg) \<noteq> None")
    case False
    with drop show ?thesis by (auto simp: psm_insert_def Let_def split: option.split)
  next
    case True
    then obtain h where sid: "length (sm_stream_id msg) = STREAM_ID_LEN"
      and h: "stream_id_height (sm_stream_id msg) = Some h" by blast
    have old: "psm_inv (snd (insert_into_stream lru now' ?key h msg ?m1))"
      if "\<not> h < psm_current_height m" "bt_get (psm_streams ?m1) ?key \<noteq> None"
      using sid h that by (intro psm_inv_insert_into_stream inv1) (auto simp: admitted_def not_less)
    have new: "psm_inv (snd (insert_into_stream lru now' ?key h msg ?m2))"
      if "\<not> h < psm_current_height m" "peer_streams_count (psm_streams ?m1) peer < MAX_STREAMS_PER_PEER"
    proof (rule psm_inv_insert_into_stream [OF inv2])
      show "admitted ?key h ?m2"
        using sid h that admission_room(1,3) [OF inv1, of lru]
          le_less_trans [OF admission_room(2) [OF inv1, of lru peer] that(2)]
        unfolding admitted_def by (simp del: evict_oldest_stream_fields add: not_less)
    qed
    show ?thesis
      using drop inv1 old new sid h
      by (auto simp: psm_insert_def Let_def simp del: evict_oldest_stream_fields)
  qed
qed

lemma psm_inv_set_current_height: "psm_inv m \<Longrightarrow> psm_inv (set_current_height h m)"
proof -
  assume inv: "psm_inv m"
  let ?s = "psm_streams (set_current_height h m)"
  have s: "?s = filter (\<lambda>e. case stream_id_height (snd (fst e)) of None \<Rightarrow> False | Some h' \<Rightarrow> h \<le> h')
                 (psm_streams m)"
    by (simp add: set_current_height_def remove_stale_streams_def bt_retain_def)
  have "length ?s \<le> psm_max_total_streams m"
    unfolding s using inv by (auto simp: psm_inv_def intro: le_trans [OF length_filter_le])
  moreover have "entry_inv h (fst e) (snd e)" if "e \<in> set ?s" for e
  proof -
    have "entry_inv (psm_current_height m) (fst e) (snd e)"
      using that inv by (simp add: s psm_inv_def)
    with that show ?thesis by (auto simp: s entry_inv_def split: option.splits)
  qed
  moreover have "peer_streams_count ?s p \<le> MAX_STREAMS_PER_PEER" for p
    unfolding s
    by (rule le_trans [OF peer_streams_count_filter_le]) (use inv in \<open>simp add: psm_inv_def\<close>)
  ultimately show ?thesis
    using inv unfolding psm_inv_def
    by (simp add: set_current_height_def remove_stale_streams_def bt_wf_retain)
qed

lemma shrink_streams_spec:
  "\<exists>P. psm_streams (shrink_streams lru m) = filter P (psm_streams m)
     \<and> psm_current_height (shrink_streams lru m) = psm_current_height m
     \<and> psm_max_total_streams (shrink_streams lru m) = psm_max_total_streams m
     \<and> length (psm_streams (shrink_streams lru m)) \<le> psm_max_total_streams m"
proof (induction lru m rule: shrink_streams.induct)
  case (1 lru m)
  show ?case
  proof (cases "psm_max_total_streams m < length (psm_streams m)")
    case False
    then have "shrink_streams lru m = m" by (simp add: shrink_streams.simps)
    with False show ?thesis by (intro exI [where x = "\<lambda>_. True"]) simp
  next
    case True
    have eq: "shrink_streams lru m = shrink_streams lru (evict_oldest_stream lru m)"
      using True by (subst shrink_streams.simps) simp
    obtain Q where "psm_streams (evict_oldest_stream lru m) = filter Q (psm_streams m)"
    proof (cases "psm_streams m = []")
      case False
      then obtain key where "evict_oldest_stream lru m = evict lru key m"
        by (rule evict_oldest_streamE)
      then show thesis by (intro that [of "\<lambda>e. fst e \<noteq> key"]) (simp add: bt_remove_def)
    qed (use True in simp)
    with "1.IH" [OF True] show ?thesis
      unfolding eq by (auto simp: conj_commute)
  qed
qed

lemma psm_inv_set_num_validators: "psm_inv m \<Longrightarrow> psm_inv (set_num_validators lru n m)"
proof -
  assume inv: "psm_inv m"
  let ?m = "m\<lparr>psm_max_total_streams := max_total_streams n\<rparr>"
  obtain P where P: "psm_streams (shrink_streams lru ?m) = filter P (psm_streams m)"
    and f: "psm_current_height (shrink_streams lru ?m) = psm_current_height m"
      "psm_max_total_streams (shrink_streams lru ?m) = max_total_streams n"
      "length (psm_streams (shrink_streams lru ?m)) \<le> max_total_streams n"
    using shrink_streams_spec [of lru ?m] by auto
  with inv show ?thesis
    using le_trans [OF peer_streams_count_filter_le, of "psm_streams m" _ MAX_STREAMS_PER_PEER P]
    by (auto simp: set_num_validators_def psm_inv_def bt_wf_filter MAX_STREAMS_le_total)
qed

section \<open>Runs of the map\<close>

text \<open>The public operations of \<open>PartStreamsMap\<close> as commands.\<close>

datatype ('p, 'sig) psm_command =
    PInsert nat nat 'p "'sig part_message"
  | PSetCurrentHeight height
  | PSetNumValidators nat
  | PMarkClosed 'p bytes

fun psm_step ::
  "('p::linorder \<times> bytes, 'l) lru_ops \<Rightarrow> ('p, 'sig, 'l) part_streams_map
     \<Rightarrow> ('p, 'sig) psm_command \<Rightarrow> ('p, 'sig, 'l) part_streams_map" where
  "psm_step lru m (PInsert now now' peer msg) = snd (psm_insert lru now now' peer msg m)"
| "psm_step lru m (PSetCurrentHeight h) = set_current_height h m"
| "psm_step lru m (PSetNumValidators n) = set_num_validators lru n m"
| "psm_step lru m (PMarkClosed peer sid) = mark_closed lru peer sid m"

interpretation psm: invariant_machine "psm_step lru" "\<lambda>_. True" psm_inv for lru
  by (unfold_locales; case_tac c)
    (simp_all add: psm_inv_insert psm_inv_set_current_height psm_inv_set_num_validators
      psm_inv_mark_closed)

lemma psm_inv_run: "psm_inv (foldl (psm_step lru) (part_streams_map_new lru now h n) cs)"
  by (rule psm.run_inv) (simp_all add: psm_inv_new list_all_iff)

text \<open>Bytes held by a stream and by the map.\<close>

definition msg_data_size :: "'sig part_message \<Rightarrow> nat" where
  "msg_data_size msg = (case sm_content msg of ContentData (PartData d) \<Rightarrow> length d | _ \<Rightarrow> 0)"

definition stream_data_size :: "'sig stream_state \<Rightarrow> nat" where
  "stream_data_size s = sum_list (map msg_data_size (ss_buffer s))"

definition psm_data_size :: "('p, 'sig, 'l) part_streams_map \<Rightarrow> nat" where
  "psm_data_size m = sum_list (map (stream_data_size \<circ> snd) (psm_streams m))"

lemma sum_list_map_le:
  "(\<And>x. x \<in> set xs \<Longrightarrow> f x \<le> (c::nat)) \<Longrightarrow> sum_list (map f xs) \<le> length xs * c"
  by (induction xs) (auto simp: add_mono)

lemma oversized_chunk_None: "oversized_chunk m = None \<Longrightarrow> msg_data_size m \<le> CHUNK_SIZE"
  by (auto simp: oversized_chunk_def msg_data_size_def split: stream_content.splits
      proposal_part.splits if_splits)

lemma stream_data_size_le: "stream_inv s \<Longrightarrow> stream_data_size s \<le> MAX_MESSAGES_PER_STREAM * CHUNK_SIZE"
proof -
  assume inv: "stream_inv s"
  have "stream_data_size s \<le> length (ss_buffer s) * CHUNK_SIZE"
    unfolding stream_data_size_def
    by (rule sum_list_map_le) (use inv in \<open>auto simp: stream_inv_def list_all_iff oversized_chunk_None\<close>)
  also have "\<dots> \<le> MAX_MESSAGES_PER_STREAM * CHUNK_SIZE"
    using inv by (simp add: stream_inv_def mult_le_mono)
  finally show ?thesis .
qed

lemma psm_data_size_le:
  "psm_inv m \<Longrightarrow> psm_data_size m \<le> psm_max_total_streams m * (MAX_MESSAGES_PER_STREAM * CHUNK_SIZE)"
proof -
  assume inv: "psm_inv m"
  have "psm_data_size m \<le> length (psm_streams m) * (MAX_MESSAGES_PER_STREAM * CHUNK_SIZE)"
    unfolding psm_data_size_def
    by (rule sum_list_map_le) (use inv in \<open>auto simp: psm_inv_def entry_inv_def stream_data_size_le\<close>)
  also have "\<dots> \<le> psm_max_total_streams m * (MAX_MESSAGES_PER_STREAM * CHUNK_SIZE)"
    using inv by (simp add: psm_inv_def)
  finally show ?thesis .
qed

section \<open>Reassembly in any order of arrival\<close>

text \<open>
  The messages of a stream are complete when their sequence numbers are distinct and every
  end-of-stream message carries the last one; \<open>full_stream\<close> says so of a list in sending
  order.
\<close>

definition full_stream :: "'sig part_message list \<Rightarrow> bool" where
  "full_stream ms \<longleftrightarrow>
     sorted_wrt (<) (map sm_sequence ms) \<and> length ms \<le> MAX_MESSAGES_PER_STREAM
     \<and> list_all (\<lambda>m. oversized_chunk m = None) ms
     \<and> list_all (\<lambda>m. is_fin m \<longrightarrow> unat (sm_sequence m) + 1 = length ms) ms
     \<and> list_ex is_fin ms \<and> list_ex (\<lambda>m. msg_init m \<noteq> None) ms"

definition stream_feed :: "'sig part_message list \<Rightarrow> 'sig stream_state \<Rightarrow> 'sig stream_state" where
  "stream_feed ms s = foldl (\<lambda>s m. snd (stream_insert m s)) s ms"

definition fed :: "'sig part_message list \<Rightarrow> 'sig part_message list \<Rightarrow> 'sig stream_state \<Rightarrow> bool" where
  "fed all pre s \<longleftrightarrow>
     stream_inv s \<and> set (ss_buffer s) = set pre
     \<and> (ss_fin_received s \<longrightarrow> ss_expected_messages s = length all)"

lemma full_stream_distinct:
  assumes "full_stream all" and "mset xs = mset all"
  shows "distinct xs" and "inj_on sm_sequence (set xs)"
proof -
  have "distinct (map sm_sequence all)"
    using assms(1) strict_sorted_iff unfolding full_stream_def by blast
  then have "distinct all" "inj_on sm_sequence (set all)" by (auto simp: distinct_map)
  with assms(2) show "distinct xs" "inj_on sm_sequence (set xs)"
    by (metis mset_eq_imp_distinct_iff, metis mset_eq_setD)
qed

lemma fed_length:
  assumes "full_stream all" and "mset (pre @ post) = mset all" and "fed all pre s"
  shows "length (ss_buffer s) = length pre"
proof -
  have "distinct (map sm_sequence (ss_buffer s))"
    using assms(3) strict_sorted_iff unfolding fed_def stream_inv_def by blast
  then have "distinct (ss_buffer s)" by (simp add: distinct_map)
  moreover have "distinct pre" using full_stream_distinct [OF assms(1,2)] by simp
  ultimately show ?thesis
    using assms(3) by (metis distinct_card fed_def)
qed

lemma fed_accepts:
  assumes full: "full_stream all" and perm: "mset (pre @ m # post) = mset all" and fed: "fed all pre s"
  shows "stream_insert m s =
    stream_accept m (s\<lparr>ss_seen_sequences := insert (sm_sequence m) (ss_seen_sequences s)\<rparr>)"
proof -
  have m: "m \<in> set all" using perm by (metis in_set_conv_decomp mset_eq_setD)
  have "m \<notin> set pre" and inj: "inj_on sm_sequence (set (pre @ m # post))"
    using full_stream_distinct [OF full perm] by auto
  then have fresh: "sm_sequence m \<notin> sm_sequence ` set pre"
    by (auto dest: inj_onD)
  have len: "length pre < MAX_MESSAGES_PER_STREAM"
  proof -
    have "length (pre @ m # post) = length all" using perm by (metis size_mset)
    with full show ?thesis by (simp add: full_stream_def)
  qed
  have "is_fin m \<Longrightarrow> is_valid_fin_sequence (sm_sequence m)"
    using full m by (auto simp: full_stream_def list_all_iff is_valid_fin_sequence_def)
  moreover have "oversized_chunk m = None"
    using full m by (auto simp: full_stream_def list_all_iff)
  ultimately show ?thesis
    using fresh len fed fed_length [OF full perm fed]
    by (auto simp: stream_insert_def fed_def stream_inv_def Let_def)
qed

lemma fed_step:
  assumes full: "full_stream all" and perm: "mset (pre @ m # post) = mset all" and fed: "fed all pre s"
    and more: "post \<noteq> []"
  obtains h s' where "stream_insert m s = (SIncomplete h, s')" and "fed all (pre @ [m]) s'"
proof -
  let ?s = "s\<lparr>ss_seen_sequences := insert (sm_sequence m) (ss_seen_sequences s)\<rparr>"
  have m: "m \<in> set all" using perm by (metis in_set_conv_decomp mset_eq_setD)
  have finlen: "is_fin m \<Longrightarrow> unat (sm_sequence m) + 1 = length all"
    using full m by (auto simp: full_stream_def list_all_iff)
  have "length (pre @ m # post) = length all" using perm by (metis size_mset)
  with more have "Suc (length (ss_buffer s)) < length all"
    using fed_length [OF full perm fed] by (cases post) auto
  then have "\<exists>h. fst (stream_accept m ?s) = SIncomplete h"
    using finlen fed by (auto simp: stream_accept_result fed_def)
  then have "\<exists>h s'. stream_accept m ?s = (SIncomplete h, s')"
    by (metis prod.collapse)
  then obtain h s' where ins: "stream_insert m s = (SIncomplete h, s')"
    using fed_accepts [OF full perm fed] by metis
  have "fed all (pre @ [m]) s'"
    using fed finlen stream_insert_inv [OF _ ins] stream_insert_incomplete [OF ins]
    by (auto simp: fed_def)
  with ins show thesis by (rule that)
qed

lemma fed_last:
  assumes full: "full_stream all" and perm: "mset (pre @ [m]) = mset all" and fed: "fed all pre s"
  obtains s' where "stream_insert m s = (SComplete (heap_drain all), s')"
proof -
  let ?s = "s\<lparr>ss_seen_sequences := insert (sm_sequence m) (ss_seen_sequences s)\<rparr>"
  have sets: "set all = insert m (set pre)"
    using perm by (metis mset_eq_setD set_append Un_insert_right list.simps(15) empty_set sup_bot_right)
  have len: "Suc (length (ss_buffer s)) = length all"
    using fed_length [OF full perm fed] perm by (metis length_append_singleton size_mset)
  have finlen: "is_fin m \<Longrightarrow> unat (sm_sequence m) + 1 = length all"
    using full sets by (auto simp: full_stream_def list_all_iff)
  have "is_fin m \<or> ss_fin_received s"
    using full sets fed by (auto simp: full_stream_def fed_def stream_inv_def list_ex_iff list_all_iff)
  moreover have "msg_init m \<noteq> None \<or> ss_height s \<noteq> None"
    using full sets fed by (auto simp: full_stream_def fed_def stream_inv_def list_ex_iff list_all_iff)
  ultimately have "\<exists>ps. fst (stream_accept m ?s) = SComplete ps"
    using len finlen fed by (auto simp: stream_accept_result fed_def)
  then obtain ps s' where "stream_accept m ?s = (SComplete ps, s')"
    by (metis prod.collapse)
  then have ins: "stream_insert m s = (SComplete ps, s')"
    using fed_accepts [OF full perm fed] by simp
  have inv: "stream_inv s" using fed by (simp add: fed_def)
  have "heap_push m (ss_buffer s) = all"
  proof (rule strict_sorted_keys_unique)
    show "sorted_wrt (<) (map sm_sequence (heap_push m (ss_buffer s)))"
      using inv ins by (rule stream_insert_complete)
    show "sorted_wrt (<) (map sm_sequence all)" using full by (simp add: full_stream_def)
    show "set (heap_push m (ss_buffer s)) = set all" using fed sets by (simp add: fed_def)
  qed
  with stream_insert_complete(1) [OF inv ins] ins show thesis by (intro that) simp
qed

text \<open>
  The same for the map: one peer's messages of one stream, arriving in any order within one
  sweep interval. An event is the two clock readings and the message.
\<close>

type_synonym 'sig arrival = "nat \<times> nat \<times> 'sig part_message"

definition arrived :: "'sig arrival list \<Rightarrow> 'sig part_message list" where
  "arrived evs = map (\<lambda>(now, now', msg). msg) evs"

lemma arrived_simps [simp]:
  "arrived [] = []" "arrived ((now, now', msg) # evs) = msg # arrived evs"
  "arrived (es @ evs) = arrived es @ arrived evs" "length (arrived evs) = length evs"
  by (simp_all add: arrived_def)

definition psm_feed ::
  "('p::linorder \<times> bytes, 'l) lru_ops \<Rightarrow> 'p \<Rightarrow> 'sig arrival list
     \<Rightarrow> ('p, 'sig, 'l) part_streams_map \<Rightarrow> 'sig insert_result list \<times> ('p, 'sig, 'l) part_streams_map" where
  "psm_feed lru peer evs m =
     foldl (\<lambda>(rs, m) (now, now', msg).
              let (r, m') = psm_insert lru now now' peer msg m in (rs @ [r], m')) ([], m) evs"

lemma psm_feed_Nil [simp]: "psm_feed lru peer [] m = ([], m)"
  by (simp add: psm_feed_def)

lemma psm_feed_snoc:
  "psm_feed lru peer (evs @ [(now, now', msg)]) m =
     (let (rs, m1) = psm_feed lru peer evs m; (r, m2) = psm_insert lru now now' peer msg m1
      in (rs @ [r], m2))"
  by (simp add: psm_feed_def split_beta)

text \<open>The key can be opened: its stream is current, not closed, not open, and within the limits.\<close>

definition openable :: "('p::linorder \<times> bytes, 'l) lru_ops \<Rightarrow> 'p \<times> bytes \<Rightarrow> height
    \<Rightarrow> ('p, 'sig, 'l) part_streams_map \<Rightarrow> bool" where
  "openable lru key h m \<longleftrightarrow>
     admitted key h m \<and> bt_get (psm_streams m) key = None \<and> \<not> lru_peek lru (psm_closed_keys m) key"

definition in_sweep :: "('p, 'sig, 'l) part_streams_map \<Rightarrow> 'sig arrival \<Rightarrow> bool" where
  "in_sweep m e \<longleftrightarrow> fst e - psm_last_eviction m < MAX_STREAM_AGE"

lemma psm_insert_openable:
  assumes "openable lru (peer, sid) h m" and "in_sweep m (now, now', msg)" and "sm_stream_id msg = sid"
    and "m1 = m \<or> m1 = m\<lparr>psm_streams := bt_insert (peer, sid) s (psm_streams m)\<rparr>"
    and "psm_inv m"
  shows "psm_insert lru now now' peer msg m1 = insert_into_stream lru now' (peer, sid) h msg m1"
proof -
  have "evict_old_streams lru now m1 = m1" and "\<not> h < psm_current_height m1"
    and "\<not> lru_peek lru (psm_closed_keys m1) (peer, sid)"
    using assms by (auto simp: openable_def admitted_def in_sweep_def evict_old_streams_def)
  moreover have "bt_get (psm_streams m1) (peer, sid) \<noteq> None
    \<or> (peer_streams_count (psm_streams m1) peer < MAX_STREAMS_PER_PEER
       \<and> length (psm_streams m1) < psm_max_total_streams m1)"
    using assms by (auto simp: openable_def admitted_def psm_inv_def bt_get_insert)
  ultimately show ?thesis
    using assms(1,3) by (auto simp: psm_insert_def Let_def openable_def admitted_def)
qed

lemma number_messages_full:
  assumes "length ps < MAX_MESSAGES_PER_STREAM" and "inits_of ps \<noteq> []"
    and "list_all (\<lambda>d. length d \<le> CHUNK_SIZE) (datas_of ps)"
  shows "full_stream (number_messages sid 0 ps)" (is "full_stream ?ms")
proof -
  have nth: "?ms ! i = \<lparr>sm_stream_id = sid, sm_sequence = of_nat i,
      sm_content = (if i < length ps then ContentData (ps ! i) else ContentFin)\<rparr>"
    if "i \<le> length ps" for i
    using number_messages_nth [OF that, of sid 0] by simp
  have seq: "unat (of_nat i :: u64) = i" if "i \<le> length ps" for i
  proof -
    have "i < 2 ^ 64" using that assms(1) by (simp add: stream_limits)
    then show ?thesis by (simp add: unat_of_nat take_bit_nat_eq_self)
  qed
  have "map sm_sequence ?ms = map of_nat [0..<Suc (length ps)]"
    by (rule nth_equalityI) (auto simp: nth less_Suc_eq_le simp del: upt_Suc)
  moreover have "sorted_wrt (<) (map of_nat [0..<Suc (length ps)] :: u64 list)"
    by (auto simp: sorted_wrt_iff_nth_less word_less_nat_alt seq simp del: upt_Suc)
  ultimately have "sorted_wrt (<) (map sm_sequence ?ms)" by simp
  moreover have "length ?ms \<le> MAX_MESSAGES_PER_STREAM" using assms(1) by simp
  moreover have "list_all (\<lambda>m. oversized_chunk m = None) ?ms"
  proof -
    have small: "length d \<le> CHUNK_SIZE" if "i < length ps" "ps ! i = PartData d" for i d
      using assms(3) that by (metis list_all_iff nth_mem set_datas_of)
    show ?thesis
      by (auto simp: list_all_length nth less_Suc_eq_le oversized_chunk_def
          split: proposal_part.split dest: small leD)
  qed
  moreover have "list_all (\<lambda>m. is_fin m \<longrightarrow> unat (sm_sequence m) + 1 = length ?ms) ?ms"
    by (auto simp: list_all_length nth less_Suc_eq_le is_fin_def seq)
  moreover have "list_ex is_fin ?ms"
    unfolding list_ex_length
    by (rule exI [of _ "length ps"]) (simp add: nth is_fin_def)
  moreover have "list_ex (\<lambda>m. msg_init m \<noteq> None) ?ms"
  proof -
    obtain i where "i < length ps" and "as_init (ps ! i) \<noteq> None"
      using assms(2) unfolding inits_of_nonempty by (metis in_set_conv_nth)
    then show ?thesis
      unfolding list_ex_length
      by (intro exI [of _ i]) (simp add: nth msg_init_def)
  qed
  ultimately show ?thesis by (simp add: full_stream_def)
qed

lemma heap_drain_number_messages: "heap_drain (number_messages sid n ps) = ps"
  by (induction ps arbitrary: n) auto

text \<open>
  While messages are missing the map answers \<open>Pending\<close> and holds the stream; \<open>pre\<close> are the
  arrivals so far.
\<close>

lemma psm_feed_pending:
  assumes inv: "psm_inv m" and opn: "openable lru (peer, sid) h m" and full: "full_stream all"
    and sids: "\<forall>msg \<in> set all. sm_stream_id msg = sid" and 
    heights: "\<forall>msg \<in> set all. \<forall>i. msg_init msg = Some i \<longrightarrow> pi_height i = h"
    and perm: "mset (arrived (pre @ post)) = mset all" and more: "post \<noteq> []" and pre: "pre \<noteq> []"
    and sweep: "list_all (in_sweep m) (pre @ post)"
  shows "\<exists>s. psm_feed lru peer pre m =
           (replicate (length pre) IPending, m\<lparr>psm_streams := bt_insert (peer, sid) s (psm_streams m)\<rparr>)
         \<and> fed all (arrived pre) s"
  using perm more pre sweep
proof (induction pre arbitrary: post rule: rev_induct)
  case Nil
  then show ?case by simp
next
  case (snoc e pre)
  obtain now now' msg where e: "e = (now, now', msg)" by (cases e)
  let ?key = "(peer, sid)"
  have perm': "mset (arrived pre @ msg # arrived post) = mset all"
    using snoc.prems(1) e by simp
  then have msg: "msg \<in> set all"
    by (metis in_set_conv_decomp mset_eq_setD)
  have wf: "bt_wf (psm_streams m)" using inv by (simp add: psm_inv_def)
  have "\<exists>m1 s. psm_feed lru peer pre m = (replicate (length pre) IPending, m1)
      \<and> (m1 = m \<or> m1 = m\<lparr>psm_streams := bt_insert ?key s (psm_streams m)\<rparr>)
      \<and> stream_at now' ?key m1 = s \<and> fed all (arrived pre) s"
  proof (cases "pre = []")
    case True
    with opn show ?thesis
      by (auto simp: stream_at_def openable_def fed_def) (simp_all add: stream_state_new_def)
  next
    case False
    with snoc.IH [of "e # post"] snoc.prems have "\<exists>s. psm_feed lru peer pre m =
        (replicate (length pre) IPending, m\<lparr>psm_streams := bt_insert ?key s (psm_streams m)\<rparr>)
      \<and> fed all (arrived pre) s" by (simp add: e)
    then obtain s where "psm_feed lru peer pre m = (replicate (length pre) IPending,
        m\<lparr>psm_streams := bt_insert ?key s (psm_streams m)\<rparr>)"
      and "fed all (arrived pre) s" by blast
    moreover have "stream_at now' ?key (m\<lparr>psm_streams := bt_insert ?key s (psm_streams m)\<rparr>) = s"
      using wf by (simp add: stream_at_def bt_get_insert)
    ultimately show ?thesis by blast
  qed
  then obtain m1 s where feed: "psm_feed lru peer pre m = (replicate (length pre) IPending, m1)"
    and m1: "m1 = m \<or> m1 = m\<lparr>psm_streams := bt_insert ?key s (psm_streams m)\<rparr>"
    and at: "stream_at now' ?key m1 = s" and fed: "fed all (arrived pre) s" by blast
  obtain hh s' where ins: "stream_insert msg s = (SIncomplete hh, s')"
    and fed': "fed all (arrived pre @ [msg]) s'"
  proof (rule fed_step [OF full perm' fed])
    show "arrived post \<noteq> []" using snoc.prems(2) by (simp add: arrived_def)
  qed
  have hh: "hh = None \<or> hh = Some h"
  proof (cases hh)
    case (Some x)
    have "ss_height s' = Some x" and "stream_inv s'"
      using stream_insert_incomplete(2) [OF ins] Some fed' by (auto simp: fed_def)
    then obtain mm i where "mm \<in> set (ss_buffer s')" "msg_init mm = Some i" "pi_height i = x"
      by (auto simp: stream_inv_def list_ex_iff)
    moreover have "set (ss_buffer s') \<subseteq> set all"
      using fed' mset_eq_setD [OF perm'] by (auto simp: fed_def)
    ultimately show ?thesis using heights Some by auto
  qed simp
  have "psm_insert lru now now' peer msg m1 = insert_into_stream lru now' ?key h msg m1"
    using opn snoc.prems(4) msg sids m1 inv e by (intro psm_insert_openable) auto
  also have "\<dots> = (IPending, m1\<lparr>psm_streams := bt_insert ?key s' (psm_streams m1)\<rparr>)"
    using hh ins at by (auto simp: insert_into_stream_def stream_at_def [symmetric] Let_def)
  also have "m1\<lparr>psm_streams := bt_insert ?key s' (psm_streams m1)\<rparr>
      = m\<lparr>psm_streams := bt_insert ?key s' (psm_streams m)\<rparr>"
    using m1 wf by (auto simp: bt_insert_insert)
  finally show ?case
    using feed fed' by (auto simp: e psm_feed_snoc replicate_append_same)
qed

lemma bt_remove_fresh: "bt_get m k = None \<Longrightarrow> bt_remove k m = m"
  unfolding bt_get_None_iff bt_remove_def bt_keys_def by (induction m) auto

lemma psm_feed_complete:
  assumes inv: "psm_inv m" and opn: "openable lru (peer, sid) h m"
    and parts: "proposal_parts_new ps = Inr pp" and h: "pp_height pp = h"
    and len: "length ps < MAX_MESSAGES_PER_STREAM"
    and small: "list_all (\<lambda>d. length d \<le> CHUNK_SIZE) (pp_data pp)"
    and perm: "mset (arrived evs) = mset (number_messages sid 0 ps)"
    and sweep: "list_all (in_sweep m) evs"
  shows "psm_feed lru peer evs m = (replicate (length ps) IPending @ [IComplete pp], m)"
proof -
  let ?all = "number_messages sid 0 ps" and ?key = "(peer, sid)"
  have inits: "inits_of ps = [pp_init pp]" and datas: "datas_of ps = pp_data pp"
    using parts by (simp_all add: proposal_parts_new_Inr_iff)
  have full: "full_stream ?all"
    using len small by (intro number_messages_full) (simp_all add: inits datas)
  have sids: "\<forall>msg \<in> set ?all. sm_stream_id msg = sid"
    by (auto simp: in_set_conv_nth number_messages_nth less_Suc_eq_le)
  have heights: "\<forall>msg \<in> set ?all. \<forall>i. msg_init msg = Some i \<longrightarrow> pi_height i = h"
  proof (intro ballI allI impI)
    fix msg i assume "msg \<in> set ?all" and "msg_init msg = Some i"
    then have "PartInit i \<in> set ps"
      by (auto simp: in_set_conv_nth number_messages_nth less_Suc_eq_le msg_init_def
          elim!: as_init.elims split: if_splits)
    then have "i \<in> set (inits_of ps)" by (simp add: set_inits_of)
    then show "pi_height i = h" using h by (simp add: inits pp_height_def)
  qed
  have "evs \<noteq> []" using perm by (auto dest: arg_cong [of _ _ size])
  then obtain pre now now' msg where evs: "evs = pre @ [(now, now', msg)]"
    by (metis prod_cases3 rev_exhaust)
  have lens: "length pre = length ps"
    using perm evs by (metis add_right_cancel arrived_simps(4) length_append_singleton length_number_messages nat.inject size_mset)
  have wf: "bt_wf (psm_streams m)" using inv by (simp add: psm_inv_def)
  have perm': "mset (arrived pre @ [msg]) = mset ?all" using perm evs by simp
  have "ps \<noteq> []" using inits by auto
  then have pre: "pre \<noteq> []" using lens by auto
  have "\<exists>s. psm_feed lru peer pre m =
           (replicate (length pre) IPending, m\<lparr>psm_streams := bt_insert ?key s (psm_streams m)\<rparr>)
         \<and> fed ?all (arrived pre) s"
    by (rule psm_feed_pending [OF inv opn full sids heights, where post = "[(now, now', msg)]"])
      (use perm sweep pre in \<open>simp_all add: evs\<close>)
  then obtain s where feed: "psm_feed lru peer pre m =
           (replicate (length pre) IPending, m\<lparr>psm_streams := bt_insert ?key s (psm_streams m)\<rparr>)"
    and fed: "fed ?all (arrived pre) s" by blast
  obtain s' where ins: "stream_insert msg s = (SComplete ps, s')"
    using fed_last [OF full perm' fed] by (metis heap_drain_number_messages)
  let ?m1 = "m\<lparr>psm_streams := bt_insert ?key s (psm_streams m)\<rparr>"
  have "msg \<in> set ?all" using perm' by (metis in_set_conv_decomp mset_eq_setD)
  then have "psm_insert lru now now' peer msg ?m1 = insert_into_stream lru now' ?key h msg ?m1"
    using opn sweep sids inv by (intro psm_insert_openable) (auto simp: evs)
  also have "\<dots> = (IComplete pp, m)"
    using opn wf ins h parts
    by (simp add: insert_into_stream_def bt_get_insert bt_insert_insert bt_remove_insert
        bt_remove_fresh openable_def finish_parts_def)
  finally show ?thesis
    using feed by (simp add: evs psm_feed_snoc lens)
qed

section \<open>What a completed stream holds\<close>

lemma length_heap_drain: "length (heap_drain h) + length (filter is_fin h) = length h"
  by (induction h) (auto simp: is_fin_def split: option.splits)

lemma set_heap_drain: "p \<in> set (heap_drain h) \<longleftrightarrow> (\<exists>m \<in> set h. sm_content m = ContentData p)"
proof (induction h)
  case (Cons m h)
  then show ?case by (cases "sm_content m") auto
qed simp

lemma length_parts: "length (inits_of ps) + length (datas_of ps) + length (fins_of ps) = length ps"
  by (induction ps) (auto split: proposal_part.split)

lemma completed_parts_bounds:
  assumes "stream_inv s" and "stream_insert msg s = (SComplete ps, s')" and "proposal_parts_new ps = Inr pp"
  shows "length (pp_data pp) + 3 \<le> MAX_MESSAGES_PER_STREAM"
    and "list_all (\<lambda>d. length d \<le> CHUNK_SIZE) (pp_data pp)"
proof -
  let ?b = "heap_push msg (ss_buffer s)"
  note c = stream_insert_complete [OF assms(1,2)]
  note n = assms(3) [unfolded proposal_parts_new_Inr_iff]
  have "filter is_fin ?b \<noteq> []"
    using c(6) by (auto simp: list_ex_iff filter_empty_conv simp del: heap_push_list_ex set_heap_push)
  then have "1 \<le> length (filter is_fin ?b)" by (cases "filter is_fin ?b") auto
  then have "length ps + 1 \<le> MAX_MESSAGES_PER_STREAM"
    using length_heap_drain [of ?b] c(3) unfolding c(1) by linarith
  then show "length (pp_data pp) + 3 \<le> MAX_MESSAGES_PER_STREAM"
    using length_parts [of ps] n by simp
  have "length d \<le> CHUNK_SIZE" if d: "PartData d \<in> set ps" for d
  proof -
    obtain m where "m \<in> set ?b" "sm_content m = ContentData (PartData d)"
      using d unfolding c(1) set_heap_drain by blast
    then show ?thesis
      using c(4) oversized_chunk_None [of m] by (auto simp: list_all_iff msg_data_size_def)
  qed
  then show "list_all (\<lambda>d. length d \<le> CHUNK_SIZE) (pp_data pp)"
    using n by (auto simp: list_all_iff set_datas_of [symmetric])
qed

lemma insert_into_stream_complete:
  assumes "psm_inv m" and "admitted key h m"
    and "insert_into_stream lru now' key h msg m = (IComplete pp, m')"
  shows "pp_height pp = h" and "length (pp_data pp) + 3 \<le> MAX_MESSAGES_PER_STREAM"
    and "list_all (\<lambda>d. length d \<le> CHUNK_SIZE) (pp_data pp)" and "bt_get (psm_streams m') key = None"
proof -
  let ?s = "stream_at now' key m"
  obtain ps s' where ins: "stream_insert msg ?s = (SComplete ps, s')"
    and pp: "proposal_parts_new ps = Inr pp" and h: "pp_height pp = h"
    and m': "psm_streams m' = bt_remove key (bt_insert key s' (psm_streams m))"
    using assms(3)
    by (auto simp: insert_into_stream_def stream_at_def [symmetric] finish_parts_def Let_def
        split: prod.splits stream_insert_result.splits option.splits if_splits sum.splits)
  have inv: "stream_inv ?s"
    using entry_inv_stream_at [OF assms(1,2), of now'] by (simp add: entry_inv_def)
  show "pp_height pp = h" by (fact h)
  show "length (pp_data pp) + 3 \<le> MAX_MESSAGES_PER_STREAM"
    "list_all (\<lambda>d. length d \<le> CHUNK_SIZE) (pp_data pp)"
    using completed_parts_bounds [OF inv ins pp] .
  show "bt_get (psm_streams m') key = None" by (simp add: m' bt_get_remove)
qed

text \<open>The branch of \<open>psm_insert\<close> that reaches the stream, with what the guards established.\<close>

lemma psm_insert_reaches_stream:
  assumes inv: "psm_inv m" and ins: "psm_insert lru now now' peer msg m = (IComplete pp, m')"
  obtains h m2 where "stream_id_height (sm_stream_id msg) = Some h" and "psm_current_height m \<le> h"
    and "psm_inv m2" and "admitted (peer, sm_stream_id msg) h m2"
    and "insert_into_stream lru now' (peer, sm_stream_id msg) h msg m2 = (IComplete pp, m')"
proof -
  let ?key = "(peer, sm_stream_id msg)"
  let ?m1 = "evict_old_streams lru now m"
  let ?m2 = "if psm_max_total_streams ?m1 \<le> length (psm_streams ?m1) then evict_oldest_stream lru ?m1 else ?m1"
  have inv1: "psm_inv ?m1" and inv2: "psm_inv ?m2"
    using inv by (simp_all add: psm_inv_evict_old psm_inv_evict_oldest)
  obtain h where len: "length (sm_stream_id msg) = STREAM_ID_LEN"
    and h: "stream_id_height (sm_stream_id msg) = Some h" and cur: "psm_current_height m \<le> h"
    using ins by (auto simp: psm_insert_def Let_def split: if_splits option.splits)
  show thesis
  proof (cases "bt_get (psm_streams ?m1) ?key = None")
    case True
    with ins len h cur have ins2: "insert_into_stream lru now' ?key h msg ?m2 = (IComplete pp, m')"
      and cnt: "peer_streams_count (psm_streams ?m1) peer < MAX_STREAMS_PER_PEER"
      by (auto simp: psm_insert_def Let_def split: if_splits)
    have "admitted ?key h ?m2"
      using len h cur admission_room(1,3) [OF inv1, of lru]
        le_less_trans [OF admission_room(2) [OF inv1, of lru peer] cnt]
      unfolding admitted_def by (simp del: evict_oldest_stream_fields)
    with h cur inv2 ins2 show thesis by (intro that)
  next
    case False
    with ins len h cur have "insert_into_stream lru now' ?key h msg ?m1 = (IComplete pp, m')"
      by (auto simp: psm_insert_def Let_def split: if_splits)
    moreover have "admitted ?key h ?m1"
      using len h cur False by (auto simp: admitted_def)
    ultimately show thesis using h cur inv1 by (intro that)
  qed
qed

section \<open>A concrete stream\<close>

text \<open>
  A recency list for the closed keys, and a small proposal with its stream, on which the
  properties below are evaluated.
\<close>

definition recency_lru :: "('k, 'k list) lru_ops" where
  "recency_lru =
     \<lparr>lru_new = (\<lambda>_. []), lru_insert = (\<lambda>k l. take MAX_CLOSED_STREAMS (k # filter (\<lambda>j. j \<noteq> k) l)),
      lru_peek = (\<lambda>l k. k \<in> set l)\<rparr>"

definition ex_sid :: bytes where
  "ex_sid = to_be_bytes 8 (5 :: u64) @ to_be_bytes 4 (0 :: u32) @ to_be_bytes 4 (1 :: u32)"

definition ex_init :: proposal_init where
  "ex_init = \<lparr>pi_height = 5, pi_round = Round 0, pi_pol_round = RoundNil, pi_proposer = 77\<rparr>"

definition ex_payload :: exec_payload where
  "ex_payload = \<lparr>pl_block_number = 5, pl_parent_hash = 11, pl_block_hash = 12, pl_timestamp = 100,
     pl_rest = []\<rparr>"

definition ex_block :: "nat consensus_block" where
  "ex_block = \<lparr>cb_height = 5, cb_round = Round 0, cb_valid_round = RoundNil, cb_proposer = 77,
     cb_validity = Valid, cb_payload = ex_payload, cb_signature = None\<rparr>"

definition ex_parts :: "nat proposal_part list" where
  "ex_parts = [PartInit ex_init, PartData [1, 2, 3], PartFin 9]"

definition ex_map :: "(nat, nat, (nat \<times> bytes) list) part_streams_map" where
  "ex_map = part_streams_map_new recency_lru 0 5 4"

definition ex_arrivals :: "nat arrival list" where
  "ex_arrivals = map (\<lambda>m. (7, 7, m)) (rev (number_messages ex_sid 0 ex_parts))"

lemma recency_lru_laws: "lru_laws recency_lru"
  by (auto simp: lru_laws_def recency_lru_def MAX_CLOSED_STREAMS_def take_Cons' dest: in_set_takeD
      split: if_splits)

lemma ex_sid_height: "stream_id_height ex_sid = Some 5" "length ex_sid = STREAM_ID_LEN"
  by (simp_all add: ex_sid_def stream_id_height_def from_to_be_bytes stream_limits)

lemma ex_prepare:
  "prepare_stream (\<lambda>_. [1, 2, 3]) (\<lambda>bs. bs) (\<lambda>_. Inr 9 :: unit + nat) ex_sid ex_block
   = Inr (number_messages ex_sid 0 ex_parts, 9)"
  by (simp add: prepare_stream_def make_proposal_parts_def ex_block_def ex_init_def ex_parts_def
      chunks.simps CHUNK_SIZE_def)

lemma ex_map_inv: "psm_inv ex_map"
  by (simp add: ex_map_def psm_inv_new)

definition ex_pp :: "nat proposal_parts" where
  "ex_pp = \<lparr>pp_init = ex_init, pp_data = [[1, 2, 3]], pp_fin = 9\<rparr>"

definition ex_before_last :: "(nat, nat, (nat \<times> bytes) list) part_streams_map" where
  "ex_before_last = snd (psm_feed recency_lru 3 (butlast ex_arrivals) ex_map)"

lemma psm_inv_feed: "psm_inv m \<Longrightarrow> psm_inv (snd (psm_feed lru peer evs m))"
proof (induction evs rule: rev_induct)
  case (snoc e evs)
  then show ?case
    by (cases e) (simp add: psm_feed_snoc split_beta Let_def psm_inv_insert)
qed simp

lemma ex_feed: "psm_feed recency_lru 3 ex_arrivals ex_map = (replicate 3 IPending @ [IComplete ex_pp], ex_map)"
proof -
  have "psm_feed recency_lru 3 ex_arrivals ex_map
      = (replicate (length ex_parts) IPending @ [IComplete ex_pp], ex_map)"
    by (rule psm_feed_complete [OF ex_map_inv, where h = 5 and sid = ex_sid])
      (simp_all add: openable_def admitted_def ex_sid_height recency_lru_def bt_get_def stream_limits
        max_total_streams_def peer_streams_count_def in_sweep_def ex_arrivals_def list_all_iff
        ex_map_def part_streams_map_new_def ex_parts_def ex_pp_def arrived_def ex_init_def pp_height_def
        proposal_parts_new_Inr_iff CHUNK_SIZE_def)
  then show ?thesis by (simp add: ex_parts_def numeral_3_eq_3)
qed

lemma ex_last_insert:
  "psm_insert recency_lru 7 7 3 \<lparr>sm_stream_id = ex_sid, sm_sequence = 0, sm_content = ContentData (PartInit ex_init)\<rparr>
     ex_before_last = (IComplete ex_pp, ex_map)"
proof -
  let ?msg = "\<lparr>sm_stream_id = ex_sid, sm_sequence = 0, sm_content = ContentData (PartInit ex_init)\<rparr>"
  have "butlast ex_arrivals @ [(7, 7, ?msg)] = ex_arrivals"
    by (simp add: ex_arrivals_def ex_parts_def)
  then have "psm_feed recency_lru 3 (butlast ex_arrivals @ [(7, 7, ?msg)]) ex_map
      = (replicate 3 IPending @ [IComplete ex_pp], ex_map)"
    by (simp only: ex_feed)
  then show ?thesis
    unfolding psm_feed_snoc
    by (simp add: ex_before_last_def [symmetric] split_beta Let_def prod_eq_iff)
qed

section \<open>Properties\<close>

text \<open>
  (C15) Resource bounds of the reassembly map, after every sequence of its public operations:
  at most four streams per peer, at most \<open>psm_max_total_streams\<close> streams, at most 128 buffered
  messages per stream, at most 16 MiB of data per stream, and no stream of a past height.
\<close>

theorem psm_run_bounded:
  fixes cs :: "('p::linorder, 'sig) psm_command list"
  shows "let m = foldl (psm_step lru) (part_streams_map_new lru now h n) cs in
     peer_streams_count (psm_streams m) p \<le> MAX_STREAMS_PER_PEER
     \<and> length (psm_streams m) \<le> psm_max_total_streams m
     \<and> list_all (\<lambda>e. ss_message_count (snd e) \<le> MAX_MESSAGES_PER_STREAM
                    \<and> length (ss_buffer (snd e)) = ss_message_count (snd e)) (psm_streams m)
     \<and> list_all (\<lambda>e. \<exists>h'. stream_id_height (snd (fst e)) = Some h' \<and> psm_current_height m \<le> h')
         (psm_streams m)
     \<and> psm_data_size m \<le> psm_max_total_streams m * (16 * 1024 * 1024)"
proof -
  let ?m = "foldl (psm_step lru) (part_streams_map_new lru now h n) cs"
  have inv: "psm_inv ?m" by (rule psm_inv_run)
  have "ss_message_count (snd e) \<le> MAX_MESSAGES_PER_STREAM \<and> length (ss_buffer (snd e)) = ss_message_count (snd e)"
    and "\<exists>h'. stream_id_height (snd (fst e)) = Some h' \<and> psm_current_height ?m \<le> h'"
    if "e \<in> set (psm_streams ?m)" for e
    using inv that by (auto simp: psm_inv_def entry_inv_def stream_inv_def split: option.splits)
  moreover have "MAX_MESSAGES_PER_STREAM * CHUNK_SIZE = 16 * 1024 * 1024"
    by (simp add: MAX_MESSAGES_PER_STREAM_def CHUNK_SIZE_def)
  ultimately show ?thesis
    using inv psm_data_size_le [OF inv] unfolding Let_def list_all_iff
    by (simp add: psm_inv_def)
qed

text \<open>
  (C8) Reassembly: the messages of a prepared proposal stream, delivered by one peer in any
  order within one sweep interval to a map with room for the stream, are answered
  \<open>Pending\<close> until the last one, whose answer is \<open>Complete\<close>; the map is then as before, and
  the assembled block is the proposer's block with the signature it was streamed with.
\<close>

theorem proposal_stream_roundtrip:
  assumes inv: "psm_inv m"
    and prep: "prepare_stream ssz keccak256 sign sid b = Inr (msgs, sg)"
    and sid: "new_stream_id (cb_height b) (cb_round b) nonce = Some sid"
    and ssz: "unssz (ssz (cb_payload b)) = Inr (cb_payload b)"
    and size: "length msgs \<le> MAX_MESSAGES_PER_STREAM"
    and cur: "psm_current_height m \<le> cb_height b"
    and fresh: "bt_get (psm_streams m) (peer, sid) = None" "\<not> lru_peek lru (psm_closed_keys m) (peer, sid)"
    and room: "length (psm_streams m) < psm_max_total_streams m"
      "peer_streams_count (psm_streams m) peer < MAX_STREAMS_PER_PEER"
    and perm: "mset (arrived evs) = mset msgs" and sweep: "list_all (in_sweep m) evs"
  shows "\<exists>pp. psm_feed lru peer evs m = (replicate (length msgs - 1) IPending @ [IComplete pp], m)
           \<and> assemble_block_from_parts unssz pp
             = Inr (b\<lparr>cb_validity := Valid, cb_signature := Some sg\<rparr>)"
proof -
  obtain parts where mk: "make_proposal_parts ssz keccak256 sign b = Inr (parts, sg)"
    and msgs: "msgs = number_messages sid 0 parts"
    using prep by (auto simp: prepare_stream_def split: sum.splits)
  obtain pp where pp: "proposal_parts_new parts = Inr pp"
    and f: "pp_height pp = cb_height b" "pp_round pp = cb_round b" "pp_proposer pp = cb_proposer b"
      "pi_pol_round (pp_init pp) = cb_valid_round b" "pp_fin pp = sg"
      "pp_data pp = chunks CHUNK_SIZE (ssz (cb_payload b))"
    using mk by (rule make_proposal_parts_new)
  have "openable lru (peer, sid) (cb_height b) m"
    using sid fresh room cur
    by (auto simp: openable_def admitted_def new_stream_id_def stream_id_height_def stream_limits
        from_to_be_bytes split: option.splits)
  moreover have "list_all (\<lambda>d. length d \<le> CHUNK_SIZE) (pp_data pp)"
    using chunks_length_le by (auto simp: f list_all_iff)
  ultimately have "psm_feed lru peer evs m = (replicate (length parts) IPending @ [IComplete pp], m)"
    using size perm sweep by (intro psm_feed_complete [OF inv _ pp f(1)]) (auto simp: msgs)
  moreover have "assemble_block_from_parts unssz pp
      = Inr (b\<lparr>cb_validity := Valid, cb_signature := Some sg\<rparr>)"
    using ssz by (simp add: assemble_block_from_parts_def f concat_chunks CHUNK_SIZE_def)
  ultimately show ?thesis by (auto simp: msgs)
qed

theorem proposal_stream_roundtrip_witness:
  "\<exists>pp. psm_feed recency_lru 3 ex_arrivals ex_map = (replicate 3 IPending @ [IComplete pp], ex_map)
     \<and> assemble_block_from_parts (\<lambda>_. Inr ex_payload :: unit + exec_payload) pp
       = Inr (ex_block\<lparr>cb_validity := Valid, cb_signature := Some 9\<rparr>)"
proof -
  have "\<exists>pp. psm_feed recency_lru 3 ex_arrivals ex_map
        = (replicate (length (number_messages ex_sid 0 ex_parts) - 1) IPending @ [IComplete pp], ex_map)
      \<and> assemble_block_from_parts (\<lambda>_. Inr ex_payload :: unit + exec_payload) pp
        = Inr (ex_block\<lparr>cb_validity := Valid, cb_signature := Some 9\<rparr>)"
    by (rule proposal_stream_roundtrip [OF ex_map_inv ex_prepare, where nonce = 1])
      (simp_all add: ex_block_def ex_sid_def new_stream_id_def recency_lru_def bt_get_def stream_limits
        max_total_streams_def peer_streams_count_def in_sweep_def ex_arrivals_def list_all_iff
        ex_map_def part_streams_map_new_def ex_parts_def arrived_def)
  then show ?thesis by (simp add: ex_parts_def numeral_3_eq_3)
qed

text \<open>
  (C19) A stream that completes yields a proposal of the height its stream identifier names,
  which is not a past height, with at most 125 data chunks of at most 128 KiB, and its slot
  in the map is free again.
\<close>

theorem completed_proposal_sound:
  assumes inv: "psm_inv m" and ins: "psm_insert lru now now' peer msg m = (IComplete pp, m')"
  shows "stream_id_height (sm_stream_id msg) = Some (pp_height pp)
    \<and> psm_current_height m \<le> pp_height pp
    \<and> length (pp_data pp) \<le> 125 \<and> pp_data_size pp \<le> 125 * CHUNK_SIZE
    \<and> bt_get (psm_streams m') (peer, sm_stream_id msg) = None"
proof -
  obtain h m2 where h: "stream_id_height (sm_stream_id msg) = Some h" "psm_current_height m \<le> h"
    and m2: "psm_inv m2" "admitted (peer, sm_stream_id msg) h m2"
    and ins2: "insert_into_stream lru now' (peer, sm_stream_id msg) h msg m2 = (IComplete pp, m')"
    using inv ins by (rule psm_insert_reaches_stream)
  note c = insert_into_stream_complete [OF m2 ins2]
  have len: "length (pp_data pp) \<le> 125" using c(2) by (simp add: stream_limits)
  have "pp_data_size pp \<le> length (pp_data pp) * CHUNK_SIZE"
    unfolding pp_data_size_def using c(3) by (intro sum_list_map_le) (auto simp: list_all_iff)
  also have "\<dots> \<le> 125 * CHUNK_SIZE" using len by simp
  finally show ?thesis using h c len by simp
qed

theorem completed_proposal_sound_witness:
  "stream_id_height ex_sid = Some (pp_height ex_pp)
    \<and> psm_current_height ex_before_last \<le> pp_height ex_pp
    \<and> length (pp_data ex_pp) \<le> 125 \<and> pp_data_size ex_pp \<le> 125 * CHUNK_SIZE
    \<and> bt_get (psm_streams ex_map) (3, ex_sid) = None"
proof -
  have "psm_inv ex_before_last" unfolding ex_before_last_def by (intro psm_inv_feed ex_map_inv)
  from completed_proposal_sound [OF this ex_last_insert] show ?thesis by simp
qed

text \<open>
  The global eviction removes exactly one stream: the oldest stream of a peer that has
  the most streams.
\<close>

theorem evict_oldest_stream_victim:
  assumes "psm_streams m \<noteq> []"
  shows "\<exists>key s. evict_oldest_stream lru m = evict lru key m \<and> (key, s) \<in> set (psm_streams m)
    \<and> (\<forall>q. peer_streams_count (psm_streams m) q \<le> peer_streams_count (psm_streams m) (fst key))
    \<and> (\<forall>key' s'. (key', s') \<in> set (psm_streams m) \<and> fst key' = fst key
         \<longrightarrow> ss_created_at s \<le> ss_created_at s')"
  using assms by (rule evict_oldest_streamE [of m lru]) blast

theorem evict_oldest_stream_victim_witness:
  "\<exists>key s. evict_oldest_stream recency_lru (ex_map\<lparr>psm_streams := [((3, ex_sid), stream_state_new 4)]\<rparr>)
       = evict recency_lru key (ex_map\<lparr>psm_streams := [((3, ex_sid), stream_state_new 4)]\<rparr>)
     \<and> (key, s) = ((3, ex_sid), stream_state_new 4)"
  using evict_oldest_stream_victim
    [of "ex_map\<lparr>psm_streams := [((3, ex_sid), stream_state_new 4)]\<rparr>" recency_lru]
  by auto

text \<open>
  Changing the validator set ends, and leaves no more streams than the cap of the new
  set; streams are only removed.
\<close>

theorem set_num_validators_bound:
  "length (psm_streams (set_num_validators lru n m)) \<le> max_total_streams n
   \<and> set (psm_streams (set_num_validators lru n m)) \<subseteq> set (psm_streams m)"
proof -
  let ?m = "m\<lparr>psm_max_total_streams := max_total_streams n\<rparr>"
  obtain P where "psm_streams (shrink_streams lru ?m) = filter P (psm_streams m)"
    "length (psm_streams (shrink_streams lru ?m)) \<le> max_total_streams n"
    using shrink_streams_spec [of lru ?m] by auto
  then show ?thesis by (auto simp: set_num_validators_def)
qed

text \<open>
  A peer whose \<open>Init\<close> part contradicts the height of its stream identifier loses the
  stream for good: later messages of the same stream are dropped and change nothing.
\<close>

theorem height_mismatch_closes_stream:
  assumes lru: "lru_laws lru"
    and ins: "psm_insert lru now now' peer msg m = (IInvalid (StreamIdHeightMismatch sh ih), m')"
    and same: "sm_stream_id msg' = sm_stream_id msg"
    and sweep: "later - psm_last_eviction m' < MAX_STREAM_AGE"
  shows "psm_insert lru later later' peer msg' m' = (IPending, m')"
proof -
  let ?key = "(peer, sm_stream_id msg)"
  obtain h where len: "length (sm_stream_id msg) = STREAM_ID_LEN"
    and h: "stream_id_height (sm_stream_id msg) = Some h" and cur: "psm_current_height m \<le> h"
    using ins by (auto simp: psm_insert_def Let_def split: if_splits option.splits)
  let ?m1 = "evict_old_streams lru now m"
  let ?m2 = "if bt_get (psm_streams ?m1) ?key = None \<and> psm_max_total_streams ?m1 \<le> length (psm_streams ?m1)
             then evict_oldest_stream lru ?m1 else ?m1"
  have m2: "psm_current_height ?m2 = psm_current_height m" by simp
  have ins2: "insert_into_stream lru now' ?key h msg ?m2 = (IInvalid (StreamIdHeightMismatch sh ih), m')"
    using ins len h cur by (auto simp: psm_insert_def Let_def split: if_splits)
  obtain m3 where m3: "m' = evict lru ?key m3" and "psm_current_height m3 = psm_current_height ?m2"
    using ins2 by (auto simp: insert_into_stream_def finish_parts_def Let_def
        split: prod.splits stream_insert_result.splits option.splits if_splits sum.splits)
  with m2 cur have "\<not> h < psm_current_height m'" by simp
  moreover have "lru_peek lru (psm_closed_keys m') ?key"
    using lru by (simp add: m3 lru_laws_def)
  ultimately show ?thesis
    using len h same sweep by (simp add: psm_insert_def evict_old_streams_def)
qed

theorem height_mismatch_closes_stream_witness:
  "let bad = \<lparr>sm_stream_id = ex_sid, sm_sequence = 0,
              sm_content = ContentData (PartInit (ex_init\<lparr>pi_height := 6\<rparr>))\<rparr>;
       good = \<lparr>sm_stream_id = ex_sid, sm_sequence = 0, sm_content = ContentData (PartInit ex_init)\<rparr>;
       m = snd (psm_insert recency_lru 7 7 3 bad ex_map)
   in psm_insert recency_lru 8 8 3 good m = (IPending, m)"
proof -
  let ?bad = "\<lparr>sm_stream_id = ex_sid, sm_sequence = 0,
      sm_content = ContentData (PartInit (ex_init\<lparr>pi_height := 6\<rparr>))\<rparr> :: nat part_message"
  have bad: "psm_insert recency_lru 7 7 3 ?bad ex_map = (IInvalid (StreamIdHeightMismatch 5 6),
      evict recency_lru (3, ex_sid) (ex_map\<lparr>psm_streams :=
        [((3, ex_sid), snd (stream_insert ?bad (stream_state_new 7)))]\<rparr>))"
    by (simp add: psm_insert_def ex_sid_height ex_map_def part_streams_map_new_def evict_old_streams_def
        stream_limits recency_lru_def bt_get_def peer_streams_count_def max_total_streams_def
        insert_into_stream_def stream_insert_def oversized_chunk_def stream_state_new_def stream_accept_def
        msg_init_def is_fin_def heap_push_def ex_init_def Let_def)
  then show ?thesis
    unfolding Let_def
    by (intro height_mismatch_closes_stream [OF recency_lru_laws, of 7 7 3 ?bad ex_map 5 6])
      (simp_all add: bad, simp add: ex_map_def part_streams_map_new_def stream_limits)
qed


end
