(* ===== verification/Gas_Fee.thy ===== *)
theory Gas_Fee
  imports Arc_Prelude
begin

text \<open>
  Fees and gas limits of the execution layer: the smoothed gas used, the next base fee and
  its byte encoding (\<open>execution-config/src/gas_fee.rs\<close>), the values read from the
  ProtocolConfig contract (\<open>protocol_config.rs\<close>) and the bounds of the chain
  specification (\<open>chainspec.rs\<close>). The arithmetic is that of the source, on 64-bit and
  128-bit words.
\<close>

section \<open>Smoothed gas used\<close>

definition ALPHA_MAX :: u128 where
  "ALPHA_MAX = 100"

definition determine_ema_parent_gas_used :: "u64 \<Rightarrow> u64 \<Rightarrow> u64 \<Rightarrow> u64 option" where
  "determine_ema_parent_gas_used smoothed_parent_gas_used raw_block_gas_used alpha =
     (let a = (ucast alpha :: u128) in
      if ALPHA_MAX < a then None
      else
        let raw = ucast raw_block_gas_used;
            smoothed = ucast smoothed_parent_gas_used;
            complement = ALPHA_MAX - a
        in case checked_mul complement smoothed of
             None \<Rightarrow> None
           | Some left \<Rightarrow>
               (case checked_mul a raw of
                  None \<Rightarrow> None
                | Some right \<Rightarrow>
                    (case checked_add left right of
                       None \<Rightarrow> None
                     | Some together \<Rightarrow> try_from (together div ALPHA_MAX))))"

section \<open>The base fee in the extra data\<close>

definition encode_base_fee_to_bytes :: "u64 \<Rightarrow> bytes" where
  "encode_base_fee_to_bytes base_fee = to_be_bytes 8 base_fee"

definition decode_base_fee_from_bytes :: "bytes \<Rightarrow> u64 option" where
  "decode_base_fee_from_bytes extra_data =
     (if length extra_data \<noteq> 8 then None else Some (from_be_bytes extra_data))"

section \<open>The next base fee\<close>

definition ARC_BASE_FEE_FIXED_POINT_SCALE :: u128 where
  "ARC_BASE_FEE_FIXED_POINT_SCALE = 10000"

definition gas_target_of :: "u64 \<Rightarrow> u64 \<Rightarrow> u64" where
  "gas_target_of gas_limit inverse_elasticity_multiplier =
     try_from_or_max ((ucast gas_limit :: u128) * ucast inverse_elasticity_multiplier
       div ARC_BASE_FEE_FIXED_POINT_SCALE)"

definition arc_calc_next_block_base_fee :: "u64 \<Rightarrow> u64 \<Rightarrow> u64 \<Rightarrow> u64 \<Rightarrow> u64 \<Rightarrow> u64" where
  "arc_calc_next_block_base_fee gas_used gas_limit base_fee k_rate inverse_elasticity_multiplier =
     (let gas_target = gas_target_of gas_limit inverse_elasticity_multiplier in
      if gas_target = 0 \<or> k_rate = 0 then base_fee
      else
        let denominator = (ucast gas_target :: u128) * ARC_BASE_FEE_FIXED_POINT_SCALE div ucast k_rate in
        if denominator = 0 then base_fee
        else if gas_used = gas_target then base_fee
        else if gas_target < gas_used then
          let increase = (ucast base_fee :: u128) * ucast (gas_used - gas_target) div denominator
          in saturating_add base_fee (max 1 (try_from_or_max increase))
        else
          let decrease = (ucast base_fee :: u128) * ucast (gas_target - gas_used) div denominator
          in saturating_sub base_fee (try_from_or_max decrease))"

section \<open>ProtocolConfig\<close>

record fee_params =
  fp_alpha :: u64
  fp_k_rate :: u64
  fp_inverse_elasticity_multiplier :: u64
  fp_min_base_fee :: u256
  fp_max_base_fee :: u256
  fp_block_gas_limit :: u256

record block_gas_limit_config =
  gl_min :: u64
  gl_max :: u64
  gl_default :: u64

text \<open>The assertions of the constructors are \<open>None\<close>.\<close>

definition block_gas_limit_config_new :: "u64 \<Rightarrow> u64 \<Rightarrow> u64 \<Rightarrow> block_gas_limit_config option" where
  "block_gas_limit_config_new mn mx d =
     (if mn \<le> d \<and> d \<le> mx then Some \<lparr>gl_min = mn, gl_max = mx, gl_default = d\<rparr> else None)"

definition expected_gas_limit :: "fee_params option \<Rightarrow> block_gas_limit_config \<Rightarrow> u64" where
  "expected_gas_limit fee_params config =
     (case Option.bind fee_params (\<lambda>fp. try_from (fp_block_gas_limit fp)) of
        Some gl \<Rightarrow> if gl_min config \<le> gl \<and> gl \<le> gl_max config then gl else gl_default config
      | None \<Rightarrow> gl_default config)"

definition determine_bounded_base_fee :: "fee_params \<Rightarrow> u64 \<Rightarrow> u64" where
  "determine_bounded_base_fee fp base_fee =
     (let configured_max = try_from_or_max (fp_max_base_fee fp);
          configured_min = try_from_or_max (fp_min_base_fee fp)
      in if configured_max = 0 \<or> configured_max < configured_min then base_fee
         else word_clamp base_fee configured_min configured_max)"

section \<open>Bounds of the chain specification\<close>

record bounded_param =
  bp_min :: u64
  bp_default :: u64
  bp_max :: u64

definition bounded_param_new :: "u64 \<Rightarrow> u64 \<Rightarrow> u64 \<Rightarrow> bounded_param option" where
  "bounded_param_new mn d mx =
     (if mn \<le> d \<and> d \<le> mx then Some \<lparr>bp_min = mn, bp_default = d, bp_max = mx\<rparr> else None)"

definition resolve :: "bounded_param \<Rightarrow> u64 \<Rightarrow> u64" where
  "resolve p on_chain = (if bp_min p \<le> on_chain \<and> on_chain \<le> bp_max p then on_chain else bp_default p)"

record base_fee_calc_params =
  calc_alpha :: u64
  calc_k_rate :: u64
  calc_inverse_elasticity_multiplier :: u64

record base_fee_config =
  bf_alpha :: bounded_param
  bf_k_rate :: bounded_param
  bf_inverse_elasticity_multiplier :: bounded_param
  bf_absolute_min_base_fee :: u64
  bf_absolute_max_base_fee :: u64

definition base_fee_config_new ::
  "bounded_param \<Rightarrow> bounded_param \<Rightarrow> bounded_param \<Rightarrow> u64 \<Rightarrow> u64 \<Rightarrow> base_fee_config option" where
  "base_fee_config_new a k i mn mx =
     (if mn \<le> mx
      then Some \<lparr>bf_alpha = a, bf_k_rate = k, bf_inverse_elasticity_multiplier = i,
                 bf_absolute_min_base_fee = mn, bf_absolute_max_base_fee = mx\<rparr>
      else None)"

definition resolve_calc_params :: "base_fee_config \<Rightarrow> fee_params option \<Rightarrow> base_fee_calc_params" where
  "resolve_calc_params c fee_params =
     (case fee_params of
        None \<Rightarrow> \<lparr>calc_alpha = bp_default (bf_alpha c), calc_k_rate = bp_default (bf_k_rate c),
                 calc_inverse_elasticity_multiplier = bp_default (bf_inverse_elasticity_multiplier c)\<rparr>
      | Some fp \<Rightarrow>
          \<lparr>calc_alpha = resolve (bf_alpha c) (fp_alpha fp),
           calc_k_rate = resolve (bf_k_rate c) (fp_k_rate fp),
           calc_inverse_elasticity_multiplier =
             resolve (bf_inverse_elasticity_multiplier c) (fp_inverse_elasticity_multiplier fp)\<rparr>)"

definition clamp_absolute :: "base_fee_config \<Rightarrow> u64 \<Rightarrow> u64" where
  "clamp_absolute c base_fee =
     word_clamp base_fee (bf_absolute_min_base_fee c) (bf_absolute_max_base_fee c)"

definition MAINNET_CHAIN_ID :: u64 where
  "MAINNET_CHAIN_ID = 5042"

definition DEVNET_CHAIN_ID :: u64 where
  "DEVNET_CHAIN_ID = 5042001"

definition TESTNET_CHAIN_ID :: u64 where
  "TESTNET_CHAIN_ID = 5042002"

definition LOCALDEV_CHAIN_ID :: u64 where
  "LOCALDEV_CHAIN_ID = 1337"

lemmas chain_ids = MAINNET_CHAIN_ID_def DEVNET_CHAIN_ID_def TESTNET_CHAIN_ID_def LOCALDEV_CHAIN_ID_def

definition block_gas_limit_config_of :: "u64 \<Rightarrow> u64 \<Rightarrow> block_gas_limit_config option" where
  "block_gas_limit_config_of chain_id block_height =
     (let (mn, mx) =
        (if chain_id = MAINNET_CHAIN_ID then (10000000, 200000000)
         else if chain_id = TESTNET_CHAIN_ID then (10000000, 200000000)
         else (1000000, 1000000000))
      in block_gas_limit_config_new mn mx 30000000)"

definition BASE_FEE_CONFIG_MAINNET :: base_fee_config where
  "BASE_FEE_CONFIG_MAINNET =
     \<lparr>bf_alpha = \<lparr>bp_min = 1, bp_default = 20, bp_max = 100\<rparr>,
      bf_k_rate = \<lparr>bp_min = 1, bp_default = 200, bp_max = 1000\<rparr>,
      bf_inverse_elasticity_multiplier = \<lparr>bp_min = 1, bp_default = 5000, bp_max = 9000\<rparr>,
      bf_absolute_min_base_fee = 1, bf_absolute_max_base_fee = 20000000000000\<rparr>"

definition BASE_FEE_CONFIG_TESTNET :: base_fee_config where
  "BASE_FEE_CONFIG_TESTNET =
     \<lparr>bf_alpha = \<lparr>bp_min = 1, bp_default = 20, bp_max = 100\<rparr>,
      bf_k_rate = \<lparr>bp_min = 1, bp_default = 200, bp_max = 1000\<rparr>,
      bf_inverse_elasticity_multiplier = \<lparr>bp_min = 1, bp_default = 5000, bp_max = 9000\<rparr>,
      bf_absolute_min_base_fee = 1, bf_absolute_max_base_fee = 20000000000000\<rparr>"

definition BASE_FEE_CONFIG_DEFAULT :: base_fee_config where
  "BASE_FEE_CONFIG_DEFAULT =
     \<lparr>bf_alpha = \<lparr>bp_min = 1, bp_default = 20, bp_max = 100\<rparr>,
      bf_k_rate = \<lparr>bp_min = 1, bp_default = 200, bp_max = 10000\<rparr>,
      bf_inverse_elasticity_multiplier = \<lparr>bp_min = 1, bp_default = 5000, bp_max = 10000\<rparr>,
      bf_absolute_min_base_fee = 1, bf_absolute_max_base_fee = - 1 - 1\<rparr>"

definition base_fee_config_of :: "u64 \<Rightarrow> u64 \<Rightarrow> base_fee_config" where
  "base_fee_config_of chain_id block_height =
     (if chain_id = MAINNET_CHAIN_ID then BASE_FEE_CONFIG_MAINNET
      else if chain_id = TESTNET_CHAIN_ID then BASE_FEE_CONFIG_TESTNET
      else BASE_FEE_CONFIG_DEFAULT)"

definition denylist_address :: "address \<Rightarrow> u64 \<Rightarrow> address option" where
  "denylist_address denylist_address_localdev chain_id =
     (if chain_id = LOCALDEV_CHAIN_ID then Some denylist_address_localdev
      else if chain_id = DEVNET_CHAIN_ID then Some 0x36061d38f2d939249A947f1254097e0FFC9e2993
      else if chain_id = TESTNET_CHAIN_ID then Some 0x360b451bb0490637F52fa1794961455615777757
      else if chain_id = MAINNET_CHAIN_ID then Some 0x3600000000000000000000000000000000000004
      else None)"

section \<open>The arithmetic never overflows\<close>

lemma unat_u64_u128 [simp]: "unat (ucast (x :: u64) :: u128) = unat x"
proof (rule unat_ucast_fits)
  have "unat x < 2 ^ LENGTH(64)" by (rule unat_lt2p)
  then show "unat x < 2 ^ LENGTH(128)" by (rule less_le_trans) simp
qed

lemma mul_u64_fits: "unat (x :: u64) * unat (y :: u64) < 2 ^ 128"
proof -
  have "unat x * unat y < 2 ^ 64 * 2 ^ 64"
    using unat_lt2p [of x] unat_lt2p [of y] by (intro mult_strict_mono) simp_all
  then show ?thesis by simp
qed

lemma unat_mul_u64: "unat ((ucast x :: u128) * ucast (y :: u64)) = unat (x :: u64) * unat y"
  using mul_u64_fits [of x y] by (subst unat_mul_fits) simp_all

lemma ema_product_fits: "c \<le> 100 \<Longrightarrow> unat (c :: u128) * unat (x :: u64) < 2 ^ 127"
proof -
  assume "c \<le> 100"
  then have "unat c \<le> 100" by (simp add: word_le_nat_alt)
  then have "unat c * unat x \<le> 100 * 2 ^ 64"
    using unat_lt2p [of x] by (intro mult_mono) simp_all
  also have "\<dots> < (2::nat) ^ 127" by simp
  finally show ?thesis .
qed

lemma convex_div_bounds:
  fixes a n s r :: nat
  assumes "a \<le> n" and "0 < n"
  shows "min s r \<le> ((n - a) * s + a * r) div n" and "((n - a) * s + a * r) div n \<le> max s r"
proof -
  have "n * min s r = (n - a) * min s r + a * min s r"
    using assms(1) by (metis add_mult_distrib le_add_diff_inverse2)
  also have "\<dots> \<le> (n - a) * s + a * r" by (intro add_mono mult_le_mono) simp_all
  finally show "min s r \<le> ((n - a) * s + a * r) div n"
    using assms(2) by (simp add: less_eq_div_iff_mult_less_eq mult.commute)
  have "(n - a) * s + a * r \<le> (n - a) * max s r + a * max s r"
    by (intro add_mono mult_le_mono) simp_all
  also have "\<dots> = n * max s r"
    using assms(1) by (metis add_mult_distrib le_add_diff_inverse2)
  finally show "((n - a) * s + a * r) div n \<le> max s r"
    using assms(2) by (metis div_le_mono nonzero_mult_div_cancel_left not_less_zero)
qed

lemma ema_value:
  assumes "alpha \<le> 100"
  shows "\<exists>e. determine_ema_parent_gas_used s r alpha = Some e
    \<and> unat e = ((100 - unat alpha) * unat s + unat alpha * unat r) div 100"
proof -
  let ?a = "ucast alpha :: u128"
  have a: "unat ?a = unat alpha" and al: "unat alpha \<le> 100"
    using assms by (simp_all add: word_le_nat_alt)
  have a100: "?a \<le> 100" by (simp add: word_le_nat_alt a al)
  have c: "unat (100 - ?a) = 100 - unat alpha" by (subst unat_minus_ge [OF a100]) (simp add: a)
  have c100: "100 - ?a \<le> 100" by (simp add: word_le_nat_alt c)
  have f1: "unat (100 - ?a) * unat s < 2 ^ 127" using c100 by (rule ema_product_fits)
  have f2: "unat ?a * unat r < 2 ^ 127" using a100 by (rule ema_product_fits)
  let ?l = "(100 - ?a) * ucast s" and ?r = "?a * ucast r"
  have ul: "unat ?l = (100 - unat alpha) * unat s"
    using f1 by (subst unat_mul_fits) (simp_all add: c)
  have ur: "unat ?r = unat alpha * unat r"
    using f2 by (subst unat_mul_fits) (simp_all add: a)
  have sum: "unat (?l + ?r) = (100 - unat alpha) * unat s + unat alpha * unat r"
    using f1 f2 by (subst unat_add_fits) (simp_all add: ul ur a c)
  have le: "((100 - unat alpha) * unat s + unat alpha * unat r) div 100 \<le> max (unat s) (unat r)"
    using al by (rule convex_div_bounds) simp
  have lt: "((100 - unat alpha) * unat s + unat alpha * unat r) div 100 < 2 ^ 64"
    using le_less_trans [OF le, of "2 ^ 64"] unat_lt2p [of s] unat_lt2p [of r] by simp
  have div: "unat ((?l + ?r) div 100) = ((100 - unat alpha) * unat s + unat alpha * unat r) div 100"
    by (simp add: unat_div sum)
  let ?e = "ucast ((?l + ?r) div 100) :: u64"
  have "unat ?e = ((100 - unat alpha) * unat s + unat alpha * unat r) div 100"
    using lt by (subst unat_ucast_fits) (simp_all add: div)
  moreover have "try_from ((?l + ?r) div 100) = Some ?e"
    by (simp add: try_from_iff calculation div)
  moreover have "checked_mul (100 - ?a) (ucast s) = Some ?l" "checked_mul ?a (ucast r) = Some ?r"
    using f1 f2 by (simp_all add: checked_mul_Some)
  moreover have "checked_add ?l ?r = Some (?l + ?r)"
    by (simp add: checked_add_iff sum ul ur)
  ultimately show ?thesis
    using a100 by (auto simp: determine_ema_parent_gas_used_def ALPHA_MAX_def Let_def)
qed

lemma ema_between:
  assumes "alpha \<le> 100" and "determine_ema_parent_gas_used s r alpha = Some e"
  shows "min s r \<le> e \<and> e \<le> max s r"
proof -
  have al: "unat alpha \<le> 100" using assms(1) by (simp add: word_le_nat_alt)
  have ue: "unat e = ((100 - unat alpha) * unat s + unat alpha * unat r) div 100"
    using ema_value [OF assms(1), of s r] assms(2) by auto
  have "min (unat s) (unat r) \<le> unat e" "unat e \<le> max (unat s) (unat r)"
    unfolding ue using al by (intro convex_div_bounds; simp)+
  then show ?thesis by (auto simp: word_le_nat_alt min_def max_def split: if_splits)
qed

lemma decode_encode_base_fee [simp]: "decode_base_fee_from_bytes (encode_base_fee_to_bytes f) = Some f"
  by (simp add: decode_base_fee_from_bytes_def encode_base_fee_to_bytes_def from_to_be_bytes)

lemma encode_decode_base_fee: "decode_base_fee_from_bytes bs = Some f \<Longrightarrow> encode_base_fee_to_bytes f = bs"
  by (auto simp: decode_base_fee_from_bytes_def encode_base_fee_to_bytes_def to_from_be_bytes
      split: if_splits)

text \<open>The base fee rule on natural numbers, with the two clamps to 64 bits written out.\<close>

definition base_fee_spec :: "nat \<Rightarrow> nat \<Rightarrow> nat \<Rightarrow> nat \<Rightarrow> nat \<Rightarrow> nat" where
  "base_fee_spec used limit fee k m =
     (let target = min (limit * m div 10000) (2 ^ 64 - 1);
          d = target * 10000 div k
      in if target = 0 \<or> k = 0 \<or> d = 0 \<or> used = target then fee
         else if target < used then min (fee + max 1 (fee * (used - target) div d)) (2 ^ 64 - 1)
         else fee - fee * (target - used) div d)"

lemma unat_gas_target:
  "unat (gas_target_of limit m) = min (unat limit * unat m div 10000) (2 ^ 64 - 1)"
  by (simp add: gas_target_of_def unat_try_from_or_max ARC_BASE_FEE_FIXED_POINT_SCALE_def
      unat_div unat_mul_u64)

lemma unat_base_fee_denominator:
  "unat ((ucast (t :: u64) :: u128) * ARC_BASE_FEE_FIXED_POINT_SCALE div ucast (k :: u64))
   = unat t * 10000 div unat k"
proof -
  have "unat t * 10000 \<le> 2 ^ 64 * 10000" using unat_lt2p [of t] by simp
  then have "unat ((ucast t :: u128) * 10000) = unat t * 10000"
    by (subst unat_mul_fits) simp_all
  then show ?thesis by (simp add: ARC_BASE_FEE_FIXED_POINT_SCALE_def unat_div)
qed

lemma unat_base_fee_delta:
  "unat ((ucast (f :: u64) :: u128) * ucast (x :: u64) div d) = unat f * unat x div unat d"
  by (simp add: unat_div unat_mul_u64)

lemma unat_max_one: "unat (max 1 (x :: u64)) = max 1 (unat x)"
  by (simp add: max_def word_le_nat_alt)

lemma arc_base_fee_refines:
  "unat (arc_calc_next_block_base_fee used limit fee k m)
   = base_fee_spec (unat used) (unat limit) (unat fee) (unat k) (unat m)"
proof -
  define t where "t = gas_target_of limit m"
  define d where "d = (ucast t :: u128) * ARC_BASE_FEE_FIXED_POINT_SCALE div ucast k"
  have spec: "base_fee_spec (unat used) (unat limit) (unat fee) (unat k) (unat m) =
    (if unat t = 0 \<or> unat k = 0 \<or> unat d = 0 \<or> unat used = unat t then unat fee
     else if unat t < unat used
     then min (unat fee + max 1 (unat fee * (unat used - unat t) div unat d)) (2 ^ 64 - 1)
     else unat fee - unat fee * (unat t - unat used) div unat d)"
    unfolding base_fee_spec_def t_def d_def unat_base_fee_denominator unat_gas_target Let_def ..
  have code: "arc_calc_next_block_base_fee used limit fee k m =
    (if t = 0 \<or> k = 0 \<or> d = 0 \<or> used = t then fee
     else if t < used
     then saturating_add fee (max 1 (try_from_or_max ((ucast fee :: u128) * ucast (used - t) div d)))
     else saturating_sub fee (try_from_or_max ((ucast fee :: u128) * ucast (t - used) div d)))"
    unfolding arc_calc_next_block_base_fee_def t_def [symmetric] d_def [symmetric] Let_def by simp
  have fee: "unat fee \<le> 2 ^ 64 - 1" using unat_lt2p [of fee] by simp
  have eqs: "(t = 0 \<or> k = 0 \<or> d = 0 \<or> used = t)
      \<longleftrightarrow> (unat t = 0 \<or> unat k = 0 \<or> unat d = 0 \<or> unat used = unat t)"
    "t < used \<longleftrightarrow> unat t < unat used"
    by (simp_all only: unat_eq_0 word_unat_eq_iff [of used t] word_less_nat_alt)
  have up: "unat (saturating_add fee (max 1 (try_from_or_max ((ucast fee :: u128) * ucast (used - t) div d))))
      = min (unat fee + max 1 (unat fee * (unat used - unat t) div unat d)) (2 ^ 64 - 1)"
    if "unat t < unat used"
  proof -
    have "unat (used - t) = unat used - unat t"
      using that by (intro unat_minus_ge) (simp add: word_le_nat_alt)
    then show ?thesis
      unfolding unat_saturating_add unat_max_one unat_try_from_or_max unat_base_fee_delta
      by (cases "unat fee = 0") (auto simp: min_def max_def)
  qed
  have down: "unat (saturating_sub fee (try_from_or_max ((ucast fee :: u128) * ucast (t - used) div d)))
      = unat fee - unat fee * (unat t - unat used) div unat d"
    if "\<not> unat t < unat used"
  proof -
    have "unat (t - used) = unat t - unat used"
      using that by (intro unat_minus_ge) (simp add: word_le_nat_alt)
    then show ?thesis
      unfolding unat_saturating_sub unat_try_from_or_max unat_base_fee_delta
      using fee by (simp add: min_def)
  qed
  show ?thesis
    unfolding spec code eqs by (simp add: up down)
qed

lemma denominator_ge_target:
  fixes t k :: nat
  assumes "0 < k" and "k \<le> 10000"
  shows "t \<le> t * 10000 div k"
  using assms by (simp add: less_eq_div_iff_mult_less_eq)

text \<open>Consequences of the rule for one step of the fee.\<close>

lemma base_fee_spec_down:
  assumes "used \<le> min (limit * m div 10000) (2 ^ 64 - 1)" and "0 < k" and "k \<le> 10000" and "0 < used" and "0 < fee"
  shows "0 < base_fee_spec used limit fee k m \<and> base_fee_spec used limit fee k m \<le> fee"
proof -
  define t where "t = min (limit * m div 10000) (2 ^ 64 - 1)"
  define d where "d = t * 10000 div k"
  have td: "t \<le> d" unfolding d_def using assms by (intro denominator_ge_target)
  have used: "used \<le> t" using assms by (simp add: t_def)
  then have t: "0 < t" using assms by linarith
  have "fee * (t - used) < fee * t" using assms t by simp
  also have "\<dots> \<le> fee * d" using td by simp
  finally have "fee * (t - used) div d < fee"
    using td t by (simp add: div_less_iff_less_mult)
  with assms used td show ?thesis
    unfolding base_fee_spec_def t_def [symmetric] d_def [symmetric] Let_def by auto
qed

lemma u64_one_le_max_minus_one: "(1 :: u64) \<le> - 2"
  by code_simp

lemma resolve_bounds: "bp_min p \<le> bp_default p \<and> bp_default p \<le> bp_max p
    \<Longrightarrow> bp_min p \<le> resolve p x \<and> resolve p x \<le> bp_max p"
  by (simp add: resolve_def)

lemma base_fee_configs_sane:
  "bf_absolute_min_base_fee (base_fee_config_of c h) = 1"
  "bf_absolute_min_base_fee (base_fee_config_of c h) \<le> bf_absolute_max_base_fee (base_fee_config_of c h)"
  by (auto simp: base_fee_config_of_def BASE_FEE_CONFIG_MAINNET_def BASE_FEE_CONFIG_TESTNET_def
      BASE_FEE_CONFIG_DEFAULT_def u64_one_le_max_minus_one)

lemma resolve_calc_params_bounds:
  "calc_alpha (resolve_calc_params (base_fee_config_of c h) fp) \<le> 100"
  "0 < calc_k_rate (resolve_calc_params (base_fee_config_of c h) fp)"
  "calc_k_rate (resolve_calc_params (base_fee_config_of c h) fp) \<le> 10000"
  by (cases fp; auto simp: base_fee_config_of_def BASE_FEE_CONFIG_MAINNET_def BASE_FEE_CONFIG_TESTNET_def
      BASE_FEE_CONFIG_DEFAULT_def resolve_calc_params_def resolve_def word_less_nat_alt word_le_nat_alt)+

section \<open>Properties\<close>

text \<open>
  The smoothed gas used is the floor of the weighted mean of the previous smoothed value
  and the raw value for every weight up to 100, lies between the two, and no intermediate
  product overflows; a weight above 100 is refused.
\<close>

theorem ema_weighted_mean:
  "(case determine_ema_parent_gas_used s r alpha of
      Some e \<Rightarrow> alpha \<le> 100
        \<and> unat e = ((100 - unat alpha) * unat s + unat alpha * unat r) div 100
        \<and> min s r \<le> e \<and> e \<le> max s r
    | None \<Rightarrow> 100 < alpha)"
proof (cases "alpha \<le> 100")
  case True
  obtain e where e: "determine_ema_parent_gas_used s r alpha = Some e"
    and ue: "unat e = ((100 - unat alpha) * unat s + unat alpha * unat r) div 100"
    using ema_value [OF True] by blast
  with True ema_between [OF True e] show ?thesis unfolding e by simp
next
  case False
  then have "ALPHA_MAX < ucast alpha"
    by (simp add: ALPHA_MAX_def word_less_nat_alt not_le word_le_nat_alt)
  with False show ?thesis by (simp add: determine_ema_parent_gas_used_def Let_def not_le)
qed

text \<open>
  (C24) The 128-bit computation of the next base fee agrees with the fee rule on unbounded
  natural numbers, for all inputs.
\<close>

theorem base_fee_word_equivalence:
  "unat (arc_calc_next_block_base_fee used limit fee k m)
   = base_fee_spec (unat used) (unat limit) (unat fee) (unat k) (unat m)"
  by (rule arc_base_fee_refines)

text \<open>
  With a change rate of at most 100 percent, a block that uses some gas but no more than the target
  never raises a positive base fee and never lowers it to zero.
\<close>

theorem base_fee_stays_positive:
  assumes "0 < k" and "k \<le> 10000" and "0 < used" and "used \<le> gas_target_of limit m" and "0 < fee"
  shows "0 < arc_calc_next_block_base_fee used limit fee k m
    \<and> arc_calc_next_block_base_fee used limit fee k m \<le> fee"
proof -
  have "0 < base_fee_spec (unat used) (unat limit) (unat fee) (unat k) (unat m)
      \<and> base_fee_spec (unat used) (unat limit) (unat fee) (unat k) (unat m) \<le> unat fee"
    using assms by (intro base_fee_spec_down)
      (simp_all add: word_less_nat_alt word_le_nat_alt unat_gas_target)
  then show ?thesis by (simp add: word_less_nat_alt word_le_nat_alt arc_base_fee_refines)
qed

theorem base_fee_stays_positive_witness:
  "0 < arc_calc_next_block_base_fee 5000000 30000000 1000 200 5000
   \<and> arc_calc_next_block_base_fee 5000000 30000000 1000 200 5000 \<le> 1000"
  by (rule base_fee_stays_positive) (simp_all add: word_le_nat_alt unat_gas_target)

text \<open>
  (C25) The block gas limit derived from ProtocolConfig lies within the bounds of the chain
  specification on every chain, whatever the contract returns.
\<close>

theorem expected_gas_limit_in_bounds:
  "case block_gas_limit_config_of chain_id h of
     Some cfg \<Rightarrow> gl_min cfg \<le> expected_gas_limit fp cfg \<and> expected_gas_limit fp cfg \<le> gl_max cfg
   | None \<Rightarrow> False"
  by (auto simp: block_gas_limit_config_of_def block_gas_limit_config_new_def expected_gas_limit_def
      Let_def word_le_nat_alt split: option.splits if_splits)

end
