(* ===== verification/Hardforks.thy ===== *)
theory Hardforks
  imports Gas_Fee
begin

text \<open>
  Hardfork schedules, \<open>execution-config/src/hardforks.rs\<close>: the Arc forks, the schedules of
  the four networks, and the flags that the execution layer derives from a schedule at a
  block number and a timestamp. The schedule container of the execution library is a record
  of functions; \<open>chain_hardforks_laws\<close> states what is relied on.
\<close>

section \<open>Forks and schedules\<close>

datatype arc_hardfork = Zero3 | Zero4 | Zero5 | Zero6 | Zero7 | Zero8

datatype ethereum_hardfork =
    Frontier | Homestead | Tangerine | SpuriousDragon | Byzantium | Constantinople | Petersburg
  | Istanbul | MuirGlacier | Berlin | London | ArrowGlacier | GrayGlacier | Paris | Shanghai
  | Cancun | Prague | Osaka

datatype hardfork = Ethereum ethereum_hardfork | Arc arc_hardfork

text \<open>The three conditions the sources build; the last one is the merge by total difficulty.\<close>

datatype fork_condition = AtBlock u64 | AtTimestamp u64 | TTD u64 "u64 option" u256

record 'f chain_hardforks_ops =
  chf_new :: "(hardfork \<times> fork_condition) list \<Rightarrow> 'f"
  chf_insert :: "hardfork \<Rightarrow> fork_condition \<Rightarrow> 'f \<Rightarrow> 'f"
  chf_fork :: "'f \<Rightarrow> hardfork \<Rightarrow> fork_condition option"
  chf_active_at_block :: "'f \<Rightarrow> hardfork \<Rightarrow> u64 \<Rightarrow> bool"
  chf_active_at_timestamp :: "'f \<Rightarrow> hardfork \<Rightarrow> u64 \<Rightarrow> bool"

text \<open>
  A new schedule holds the listed conditions, an insertion replaces the condition of its
  fork, and an Arc fork is active at a block (timestamp) when its condition is a block
  (timestamp) condition that has been reached.
\<close>

definition chain_hardforks_laws :: "'f chain_hardforks_ops \<Rightarrow> bool" where
  "chain_hardforks_laws ops \<longleftrightarrow>
     (\<forall>xs h. distinct (map fst xs) \<longrightarrow> chf_fork ops (chf_new ops xs) h = map_of xs h)
     \<and> (\<forall>f h c j. chf_fork ops (chf_insert ops h c f) j = (if j = h then Some c else chf_fork ops f j))
     \<and> (\<forall>f a n. chf_active_at_block ops f (Arc a) n \<longleftrightarrow>
          (case chf_fork ops f (Arc a) of Some (AtBlock b) \<Rightarrow> b \<le> n | Some (TTD _ (Some b) _) \<Rightarrow> b \<le> n | _ \<Rightarrow> False))
     \<and> (\<forall>f a t. chf_active_at_timestamp ops f (Arc a) t \<longleftrightarrow>
          (case chf_fork ops f (Arc a) of Some (AtTimestamp s) \<Rightarrow> s \<le> t | _ \<Rightarrow> False))"

record arc_genesis_info =
  zero_3_block :: "u64 option"
  zero_4_block :: "u64 option"
  zero_5_block :: "u64 option"
  zero_6_block :: "u64 option"
  zero_7_time :: "u64 option"
  zero_8_time :: "u64 option"

definition get_hardfork_conditions :: "arc_genesis_info \<Rightarrow> (arc_hardfork \<times> fork_condition) list" where
  "get_hardfork_conditions g =
     List.map_filter (\<lambda>(fork_block, hf). map_option (\<lambda>b. (hf, AtBlock b)) fork_block)
       [(zero_3_block g, Zero3), (zero_4_block g, Zero4), (zero_5_block g, Zero5), (zero_6_block g, Zero6)]
     @ (case zero_7_time g of Some t \<Rightarrow> [(Zero7, AtTimestamp t)] | None \<Rightarrow> [])
     @ (case zero_8_time g of Some t \<Rightarrow> [(Zero8, AtTimestamp t)] | None \<Rightarrow> [])"

section \<open>Flags\<close>

record arc_hardfork_flags =
  zero3 :: bool
  zero4 :: bool
  zero5 :: bool
  zero6 :: bool
  zero7 :: bool
  zero8 :: bool

definition no_hardforks :: arc_hardfork_flags where
  "no_hardforks = \<lparr>zero3 = False, zero4 = False, zero5 = False, zero6 = False, zero7 = False, zero8 = False\<rparr>"

definition ALL_HARDFORKS :: "arc_hardfork list" where
  "ALL_HARDFORKS = [Zero3, Zero4, Zero5, Zero6, Zero7, Zero8]"

fun flags_is_active :: "arc_hardfork_flags \<Rightarrow> arc_hardfork \<Rightarrow> bool" where
  "flags_is_active fl Zero3 = zero3 fl"
| "flags_is_active fl Zero4 = zero4 fl"
| "flags_is_active fl Zero5 = zero5 fl"
| "flags_is_active fl Zero6 = zero6 fl"
| "flags_is_active fl Zero7 = zero7 fl"
| "flags_is_active fl Zero8 = zero8 fl"

fun flags_set :: "arc_hardfork \<Rightarrow> bool \<Rightarrow> arc_hardfork_flags \<Rightarrow> arc_hardfork_flags" where
  "flags_set Zero3 v fl = fl\<lparr>zero3 := v\<rparr>"
| "flags_set Zero4 v fl = fl\<lparr>zero4 := v\<rparr>"
| "flags_set Zero5 v fl = fl\<lparr>zero5 := v\<rparr>"
| "flags_set Zero6 v fl = fl\<lparr>zero6 := v\<rparr>"
| "flags_set Zero7 v fl = fl\<lparr>zero7 := v\<rparr>"
| "flags_set Zero8 v fl = fl\<lparr>zero8 := v\<rparr>"

definition from_chain_hardforks ::
  "'f chain_hardforks_ops \<Rightarrow> 'f \<Rightarrow> u64 \<Rightarrow> u64 \<Rightarrow> arc_hardfork_flags" where
  "from_chain_hardforks ops hardforks block timestamp =
     foldl (\<lambda>fl hf. if chf_active_at_block ops hardforks (Arc hf) block
                       \<or> chf_active_at_timestamp ops hardforks (Arc hf) timestamp
                    then flags_set hf True fl else fl)
       no_hardforks ALL_HARDFORKS"

definition is_arc_fork_active ::
  "'f chain_hardforks_ops \<Rightarrow> 'f \<Rightarrow> arc_hardfork \<Rightarrow> u64 \<Rightarrow> u64 \<Rightarrow> bool" where
  "is_arc_fork_active ops hardforks fork block_number block_timestamp \<longleftrightarrow>
     chf_active_at_block ops hardforks (Arc fork) block_number
     \<or> chf_active_at_timestamp ops hardforks (Arc fork) block_timestamp"

section \<open>The schedules of the networks\<close>

definition BASE_FORKS :: "(hardfork \<times> fork_condition) list" where
  "BASE_FORKS =
     [(Ethereum Frontier, AtBlock 0), (Ethereum Homestead, AtBlock 0), (Ethereum Tangerine, AtBlock 0),
      (Ethereum SpuriousDragon, AtBlock 0), (Ethereum Byzantium, AtBlock 0),
      (Ethereum Constantinople, AtBlock 0), (Ethereum Petersburg, AtBlock 0),
      (Ethereum Istanbul, AtBlock 0), (Ethereum MuirGlacier, AtBlock 0), (Ethereum Berlin, AtBlock 0),
      (Ethereum London, AtBlock 0), (Ethereum ArrowGlacier, AtBlock 0), (Ethereum GrayGlacier, AtBlock 0),
      (Ethereum Paris, TTD 0 None 0), (Ethereum Shanghai, AtTimestamp 0),
      (Ethereum Cancun, AtTimestamp 0), (Ethereum Prague, AtTimestamp 0)]"

definition insert_all ::
  "'f chain_hardforks_ops \<Rightarrow> (hardfork \<times> fork_condition) list \<Rightarrow> 'f \<Rightarrow> 'f" where
  "insert_all ops xs f = foldl (\<lambda>f (h, c). chf_insert ops h c f) f xs"

definition ARC_ZERO3_HARDFORK_BLOCK_ACTIVATION_DEVNET :: u64 where
  "ARC_ZERO3_HARDFORK_BLOCK_ACTIVATION_DEVNET = 7437594"
definition ARC_ZERO3_HARDFORK_BLOCK_ACTIVATION_TESTNET :: u64 where
  "ARC_ZERO3_HARDFORK_BLOCK_ACTIVATION_TESTNET = 11172019"
definition ARC_ZERO4_HARDFORK_BLOCK_ACTIVATION_DEVNET :: u64 where
  "ARC_ZERO4_HARDFORK_BLOCK_ACTIVATION_DEVNET = 19491165"
definition ARC_ZERO4_HARDFORK_BLOCK_ACTIVATION_TESTNET :: u64 where
  "ARC_ZERO4_HARDFORK_BLOCK_ACTIVATION_TESTNET = 26148086"
definition ARC_ZERO5_HARDFORK_BLOCK_ACTIVATION_DEVNET :: u64 where
  "ARC_ZERO5_HARDFORK_BLOCK_ACTIVATION_DEVNET = 32371192"
definition ARC_ZERO5_HARDFORK_TIMESTAMP_ACTIVATION_TESTNET :: u64 where
  "ARC_ZERO5_HARDFORK_TIMESTAMP_ACTIVATION_TESTNET = 1779894517"
definition ARC_ZERO6_HARDFORK_BLOCK_ACTIVATION_DEVNET :: u64 where
  "ARC_ZERO6_HARDFORK_BLOCK_ACTIVATION_DEVNET = 40033853"
definition ARC_ZERO6_HARDFORK_TIMESTAMP_ACTIVATION_TESTNET :: u64 where
  "ARC_ZERO6_HARDFORK_TIMESTAMP_ACTIVATION_TESTNET = 1779894517"
definition ARC_OSAKA_HARDFORK_TIMESTAMP_ACTIVATION_DEVNET :: u64 where
  "ARC_OSAKA_HARDFORK_TIMESTAMP_ACTIVATION_DEVNET = 1775483400"
definition ARC_OSAKA_HARDFORK_TIMESTAMP_ACTIVATION_TESTNET :: u64 where
  "ARC_OSAKA_HARDFORK_TIMESTAMP_ACTIVATION_TESTNET = 1779890400"
definition ARC_ZERO7_HARDFORK_TIMESTAMP_ACTIVATION_DEVNET :: u64 where
  "ARC_ZERO7_HARDFORK_TIMESTAMP_ACTIVATION_DEVNET = 1780495200"
definition ARC_ZERO7_HARDFORK_TIMESTAMP_ACTIVATION_TESTNET :: u64 where
  "ARC_ZERO7_HARDFORK_TIMESTAMP_ACTIVATION_TESTNET = 1781791200"
definition ARC_ZERO7_HARDFORK_TIMESTAMP_ACTIVATION_MAINNET :: u64 where
  "ARC_ZERO7_HARDFORK_TIMESTAMP_ACTIVATION_MAINNET = 1789052400"
definition ARC_ZERO8_HARDFORK_TIMESTAMP_ACTIVATION_DEVNET :: u64 where
  "ARC_ZERO8_HARDFORK_TIMESTAMP_ACTIVATION_DEVNET = 1787756400"
definition ARC_ZERO8_HARDFORK_TIMESTAMP_ACTIVATION_TESTNET :: u64 where
  "ARC_ZERO8_HARDFORK_TIMESTAMP_ACTIVATION_TESTNET = 1788447600"
definition ARC_ZERO8_HARDFORK_TIMESTAMP_ACTIVATION_MAINNET :: u64 where
  "ARC_ZERO8_HARDFORK_TIMESTAMP_ACTIVATION_MAINNET = 1789052400"

definition ARC_LOCALDEV_HARDFORKS :: "'f chain_hardforks_ops \<Rightarrow> 'f" where
  "ARC_LOCALDEV_HARDFORKS ops =
     insert_all ops
       [(Arc Zero3, AtBlock 0), (Arc Zero4, AtBlock 0), (Ethereum Osaka, AtTimestamp 0),
        (Arc Zero5, AtBlock 0), (Arc Zero6, AtBlock 0), (Arc Zero7, AtTimestamp 0),
        (Arc Zero8, AtTimestamp 0)] (chf_new ops BASE_FORKS)"

definition ARC_MAINNET_HARDFORKS :: "'f chain_hardforks_ops \<Rightarrow> 'f" where
  "ARC_MAINNET_HARDFORKS ops =
     insert_all ops
       [(Arc Zero3, AtBlock 0), (Arc Zero4, AtBlock 0), (Ethereum Osaka, AtTimestamp 0),
        (Arc Zero5, AtBlock 0), (Arc Zero6, AtBlock 0),
        (Arc Zero7, AtTimestamp ARC_ZERO7_HARDFORK_TIMESTAMP_ACTIVATION_MAINNET),
        (Arc Zero8, AtTimestamp ARC_ZERO8_HARDFORK_TIMESTAMP_ACTIVATION_MAINNET)] (chf_new ops BASE_FORKS)"

definition ARC_DEVNET_HARDFORKS :: "'f chain_hardforks_ops \<Rightarrow> 'f" where
  "ARC_DEVNET_HARDFORKS ops =
     insert_all ops
       [(Arc Zero3, AtBlock ARC_ZERO3_HARDFORK_BLOCK_ACTIVATION_DEVNET),
        (Arc Zero4, AtBlock ARC_ZERO4_HARDFORK_BLOCK_ACTIVATION_DEVNET),
        (Ethereum Osaka, AtTimestamp ARC_OSAKA_HARDFORK_TIMESTAMP_ACTIVATION_DEVNET),
        (Arc Zero5, AtBlock ARC_ZERO5_HARDFORK_BLOCK_ACTIVATION_DEVNET),
        (Arc Zero6, AtBlock ARC_ZERO6_HARDFORK_BLOCK_ACTIVATION_DEVNET),
        (Arc Zero7, AtTimestamp ARC_ZERO7_HARDFORK_TIMESTAMP_ACTIVATION_DEVNET),
        (Arc Zero8, AtTimestamp ARC_ZERO8_HARDFORK_TIMESTAMP_ACTIVATION_DEVNET)] (chf_new ops BASE_FORKS)"

definition ARC_TESTNET_HARDFORKS :: "'f chain_hardforks_ops \<Rightarrow> 'f" where
  "ARC_TESTNET_HARDFORKS ops =
     insert_all ops
       [(Arc Zero3, AtBlock ARC_ZERO3_HARDFORK_BLOCK_ACTIVATION_TESTNET),
        (Arc Zero4, AtBlock ARC_ZERO4_HARDFORK_BLOCK_ACTIVATION_TESTNET),
        (Ethereum Osaka, AtTimestamp ARC_OSAKA_HARDFORK_TIMESTAMP_ACTIVATION_TESTNET),
        (Arc Zero5, AtTimestamp ARC_ZERO5_HARDFORK_TIMESTAMP_ACTIVATION_TESTNET),
        (Arc Zero6, AtTimestamp ARC_ZERO6_HARDFORK_TIMESTAMP_ACTIVATION_TESTNET),
        (Arc Zero7, AtTimestamp ARC_ZERO7_HARDFORK_TIMESTAMP_ACTIVATION_TESTNET),
        (Arc Zero8, AtTimestamp ARC_ZERO8_HARDFORK_TIMESTAMP_ACTIVATION_TESTNET)] (chf_new ops BASE_FORKS)"

lemmas activation_points = ARC_ZERO3_HARDFORK_BLOCK_ACTIVATION_DEVNET_def
  ARC_ZERO3_HARDFORK_BLOCK_ACTIVATION_TESTNET_def ARC_ZERO4_HARDFORK_BLOCK_ACTIVATION_DEVNET_def
  ARC_ZERO4_HARDFORK_BLOCK_ACTIVATION_TESTNET_def ARC_ZERO5_HARDFORK_BLOCK_ACTIVATION_DEVNET_def
  ARC_ZERO5_HARDFORK_TIMESTAMP_ACTIVATION_TESTNET_def ARC_ZERO6_HARDFORK_BLOCK_ACTIVATION_DEVNET_def
  ARC_ZERO6_HARDFORK_TIMESTAMP_ACTIVATION_TESTNET_def ARC_ZERO7_HARDFORK_TIMESTAMP_ACTIVATION_DEVNET_def
  ARC_ZERO7_HARDFORK_TIMESTAMP_ACTIVATION_TESTNET_def ARC_ZERO7_HARDFORK_TIMESTAMP_ACTIVATION_MAINNET_def
  ARC_ZERO8_HARDFORK_TIMESTAMP_ACTIVATION_DEVNET_def ARC_ZERO8_HARDFORK_TIMESTAMP_ACTIVATION_TESTNET_def
  ARC_ZERO8_HARDFORK_TIMESTAMP_ACTIVATION_MAINNET_def

section \<open>What the flags say\<close>

lemma flags_is_active_set: "flags_is_active (flags_set h v fl) j = (if j = h then v else flags_is_active fl j)"
  by (cases h; cases j) simp_all

lemma flags_fold:
  "flags_is_active (foldl (\<lambda>fl hf. if P hf then flags_set hf True fl else fl) fl hs) j
   \<longleftrightarrow> (j \<in> set hs \<and> P j) \<or> flags_is_active fl j"
  by (induction hs arbitrary: fl) (auto simp: flags_is_active_set)

lemma in_ALL_HARDFORKS [simp]: "j \<in> set ALL_HARDFORKS"
  by (cases j) (simp_all add: ALL_HARDFORKS_def)

lemma flags_eq_is_active:
  "flags_is_active (from_chain_hardforks ops f block timestamp) j
   \<longleftrightarrow> is_arc_fork_active ops f j block timestamp"
  by (cases j; simp only: from_chain_hardforks_def flags_fold is_arc_fork_active_def in_ALL_HARDFORKS)
    (simp_all add: no_hardforks_def)

definition condition_met :: "fork_condition \<Rightarrow> u64 \<Rightarrow> u64 \<Rightarrow> bool" where
  "condition_met c block timestamp =
     (case c of AtBlock b \<Rightarrow> b \<le> block | AtTimestamp t \<Rightarrow> t \<le> timestamp
      | TTD _ (Some b) _ \<Rightarrow> b \<le> block | TTD _ None _ \<Rightarrow> False)"

lemma is_arc_fork_active_iff:
  assumes "chain_hardforks_laws ops"
  shows "is_arc_fork_active ops f a block timestamp \<longleftrightarrow>
    (case chf_fork ops f (Arc a) of None \<Rightarrow> False | Some c \<Rightarrow> condition_met c block timestamp)"
  using assms
  by (auto simp: is_arc_fork_active_def chain_hardforks_laws_def condition_met_def
      split: option.splits fork_condition.splits)

lemma chf_fork_insert_all:
  assumes "chain_hardforks_laws ops"
  shows "chf_fork ops (insert_all ops xs f) j = (case map_of (rev xs) j of Some c \<Rightarrow> Some c | None \<Rightarrow> chf_fork ops f j)"
proof (induction xs rule: rev_induct)
  case (snoc x xs)
  then show ?case
    using assms by (cases x) (simp add: insert_all_def chain_hardforks_laws_def)
qed (simp add: insert_all_def)

lemma base_forks_no_arc:
  assumes "chain_hardforks_laws ops"
  shows "chf_fork ops (chf_new ops BASE_FORKS) (Arc a) = None"
proof -
  have "distinct (map fst BASE_FORKS)" by (simp add: BASE_FORKS_def)
  then have "chf_fork ops (chf_new ops BASE_FORKS) (Arc a) = map_of BASE_FORKS (Arc a)"
    using assms by (simp add: chain_hardforks_laws_def)
  also have "\<dots> = None" by (simp add: BASE_FORKS_def)
  finally show ?thesis .
qed

text \<open>A schedule as a list of pairs, the newest first.\<close>

definition alist_hardforks :: "(hardfork \<times> fork_condition) list chain_hardforks_ops" where
  "alist_hardforks =
     \<lparr>chf_new = (\<lambda>xs. xs), chf_insert = (\<lambda>h c f. (h, c) # f), chf_fork = map_of,
      chf_active_at_block = (\<lambda>f h n. case map_of f h of Some (AtBlock b) \<Rightarrow> b \<le> n
         | Some (TTD _ (Some b) _) \<Rightarrow> b \<le> n | _ \<Rightarrow> False),
      chf_active_at_timestamp = (\<lambda>f h t. case map_of f h of Some (AtTimestamp s) \<Rightarrow> s \<le> t | _ \<Rightarrow> False)\<rparr>"

lemma alist_hardforks_laws: "chain_hardforks_laws alist_hardforks"
  by (simp add: chain_hardforks_laws_def alist_hardforks_def)

section \<open>Properties\<close>



text \<open>
  The mainnet schedule: the forks up to Zero6 are active from genesis, and Zero7 and
  Zero8 activate together at their timestamp, whatever the block number.
\<close>

theorem mainnet_schedule:
  assumes "chain_hardforks_laws ops"
  shows "from_chain_hardforks ops (ARC_MAINNET_HARDFORKS ops) block timestamp =
    \<lparr>zero3 = True, zero4 = True, zero5 = True, zero6 = True,
     zero7 = (1789052400 \<le> timestamp), zero8 = (1789052400 \<le> timestamp)\<rparr>"
proof -
  let ?fl = "from_chain_hardforks ops (ARC_MAINNET_HARDFORKS ops) block timestamp"
  have act: "flags_is_active ?fl j \<longleftrightarrow>
      (if j = Zero7 \<or> j = Zero8 then 1789052400 \<le> timestamp else True)" for j
    using assms unfolding flags_eq_is_active
    by (cases j) (simp_all add: is_arc_fork_active_iff ARC_MAINNET_HARDFORKS_def
        chf_fork_insert_all condition_met_def activation_points)
  show ?thesis
    using act [of Zero3] act [of Zero4] act [of Zero5] act [of Zero6] act [of Zero7] act [of Zero8]
    by (intro arc_hardfork_flags.equality) simp_all
qed

theorem mainnet_schedule_witness:
  "zero8 (from_chain_hardforks alist_hardforks (ARC_MAINNET_HARDFORKS alist_hardforks) 7 1789052400)"
  using mainnet_schedule [OF alist_hardforks_laws, of 7 1789052400] by simp

text \<open>
  The testnet schedule mixes both kinds of activation: Zero3 and Zero4 by block number,
  the later forks by timestamp, and from Zero5 on each fork implies the one before it.
\<close>

theorem testnet_schedule:
  assumes "chain_hardforks_laws ops"
  shows "from_chain_hardforks ops (ARC_TESTNET_HARDFORKS ops) block timestamp =
    \<lparr>zero3 = (11172019 \<le> block), zero4 = (26148086 \<le> block),
     zero5 = (1779894517 \<le> timestamp), zero6 = (1779894517 \<le> timestamp),
     zero7 = (1781791200 \<le> timestamp), zero8 = (1788447600 \<le> timestamp)\<rparr>"
proof -
  let ?fl = "from_chain_hardforks ops (ARC_TESTNET_HARDFORKS ops) block timestamp"
  have act: "flags_is_active ?fl j \<longleftrightarrow>
      (case j of Zero3 \<Rightarrow> 11172019 \<le> block | Zero4 \<Rightarrow> 26148086 \<le> block
       | Zero5 \<Rightarrow> 1779894517 \<le> timestamp | Zero6 \<Rightarrow> 1779894517 \<le> timestamp
       | Zero7 \<Rightarrow> 1781791200 \<le> timestamp | Zero8 \<Rightarrow> 1788447600 \<le> timestamp)" for j
    using assms unfolding flags_eq_is_active
    by (cases j) (simp_all add: is_arc_fork_active_iff ARC_TESTNET_HARDFORKS_def
        chf_fork_insert_all condition_met_def activation_points)
  show ?thesis
    using act [of Zero3] act [of Zero4] act [of Zero5] act [of Zero6] act [of Zero7] act [of Zero8]
    by (intro arc_hardfork_flags.equality) simp_all
qed

theorem testnet_schedule_witness:
  "from_chain_hardforks alist_hardforks (ARC_TESTNET_HARDFORKS alist_hardforks) 12000000 1780000000 =
    \<lparr>zero3 = True, zero4 = False, zero5 = True, zero6 = True, zero7 = False, zero8 = False\<rparr>"
  using testnet_schedule [OF alist_hardforks_laws, of 12000000 1780000000] by simp

end
