(* ===== verification/Precompile_Core.thy ===== *)
theory Precompile_Core
  imports Hardforks
begin

text \<open>
  The helpers of the stateful precompiles, \<open>precompiles/src/helpers.rs\<close>: gas accounting,
  storage reads and writes, balance changes, call guards and events. The journal, the gas
  counter and the gas constants of the virtual machine are the record \<open>evm_api\<close>; what
  the precompiles rely on is the predicate \<open>journal_laws\<close> and \<open>gas_laws\<close>.
\<close>

section \<open>The virtual machine\<close>

type_synonym storage_key = u256

record account_info =
  ai_balance :: u256
  ai_nonce :: u64
  ai_code_hash :: u256

record account_load =
  al_info :: account_info
  al_is_empty :: bool
  al_is_cold :: bool
  al_is_selfdestructed :: bool

record slot =
  slot_original_value :: u256
  slot_present_value :: u256

record log_data =
  ld_topics :: "u256 list"
  ld_data :: bytes

datatype load_error = ColdLoadSkipped | LoadFailed

datatype transfer_error = OutOfFunds | OverflowPayment | CreateCollision

record ('s, 'g) evm_api =
  api_load_account :: "address \<Rightarrow> 's \<Rightarrow> (unit + account_load) \<times> 's"
  api_load_account_mut :: "address \<Rightarrow> 's \<Rightarrow> (unit + unit) \<times> 's"
  api_sload :: "address \<Rightarrow> storage_key \<Rightarrow> bool \<Rightarrow> 's \<Rightarrow> (load_error + slot) \<times> 's"
  api_sstore :: "address \<Rightarrow> storage_key \<Rightarrow> u256 \<Rightarrow> 's \<Rightarrow> (unit + unit) \<times> 's"
  api_transfer :: "address \<Rightarrow> address \<Rightarrow> u256 \<Rightarrow> 's \<Rightarrow> (unit + transfer_error option) \<times> 's"
  api_balance_incr :: "address \<Rightarrow> u256 \<Rightarrow> 's \<Rightarrow> (unit + unit) \<times> 's"
  api_decr_balance :: "address \<Rightarrow> u256 \<Rightarrow> 's \<Rightarrow> bool \<times> 's"
  api_log :: "address \<Rightarrow> log_data \<Rightarrow> 's \<Rightarrow> 's"
  gas_new :: "u64 \<Rightarrow> 'g"
  gas_record :: "u64 \<Rightarrow> 'g \<Rightarrow> bool \<times> 'g"
  gas_remaining :: "'g \<Rightarrow> u64"
  gas_used :: "'g \<Rightarrow> u64"
  gas_spend_all :: "'g \<Rightarrow> 'g"
  WARM_STORAGE_READ_COST :: u64
  COLD_SLOAD_COST :: u64
  COLD_ACCOUNT_ACCESS_COST :: u64
  SSTORE_SET :: u64
  WARM_SSTORE_RESET :: u64
  CALL_STIPEND :: u64
  KECCAK_EMPTY :: u256
  SYSTEM_ADDRESS :: address
  api_abi_string :: "string \<Rightarrow> bytes"

section \<open>Constants and outcomes\<close>

definition NATIVE_FIAT_TOKEN_ADDRESS :: address where
  "NATIVE_FIAT_TOKEN_ADDRESS = 0x3600000000000000000000000000000000000000"

definition PRECOMPILE_SSTORE_GAS_COST :: u64 where
  "PRECOMPILE_SSTORE_GAS_COST = 2900"

definition PRECOMPILE_SLOAD_GAS_COST :: u64 where
  "PRECOMPILE_SLOAD_GAS_COST = 2100"

definition PRECOMPILE_EMPTY_ACCOUNT_GAS_COST :: u64 where
  "PRECOMPILE_EMPTY_ACCOUNT_GAS_COST = 25000"

definition LOG_BASE_COST :: u64 where
  "LOG_BASE_COST = 375"

definition LOG_TOPIC_COST :: u64 where
  "LOG_TOPIC_COST = 375"

definition LOG_DATA_COST :: u64 where
  "LOG_DATA_COST = 8"

definition PRECOMPILE_EARLY_REVERT_GAS_PENALTY :: u64 where
  "PRECOMPILE_EARLY_REVERT_GAS_PENALTY = 200"

definition REVERT_SELECTOR :: bytes where
  "REVERT_SELECTOR = [0x08, 0xc3, 0x79, 0xa0]"

definition revert_message_to_bytes :: "('s, 'g) evm_api \<Rightarrow> string \<Rightarrow> bytes" where
  "revert_message_to_bytes api msg = REVERT_SELECTOR @ api_abi_string api msg"

text \<open>
  A precompile output with its status: success or revert with the gas used, the bytes and
  the reservoir, or a halt for lack of gas.
\<close>

datatype precompile_output =
    OutSuccess u64 bytes u64
  | OutRevert u64 bytes u64
  | OutHaltOutOfGas u64

datatype precompile_error_or_revert =
    PRevert precompile_output
  | PError precompile_output
  | PFatal string

definition halt_oog :: "u64 \<Rightarrow> precompile_error_or_revert" where
  "halt_oog reservoir = PError (OutHaltOutOfGas reservoir)"

definition new_reverted ::
  "('s, 'g) evm_api \<Rightarrow> 'g \<Rightarrow> u64 \<Rightarrow> string \<Rightarrow> precompile_error_or_revert" where
  "new_reverted api gas_counter reservoir msg =
     PRevert (OutRevert (gas_used api gas_counter) (revert_message_to_bytes api msg) reservoir)"

definition new_reverted_with_penalty ::
  "('s, 'g) evm_api \<Rightarrow> 'g \<Rightarrow> u64 \<Rightarrow> u64 \<Rightarrow> string \<Rightarrow> precompile_error_or_revert" where
  "new_reverted_with_penalty api gas_counter reservoir gas_penalty msg =
     (let (ok, gas_with_penalty) = gas_record api gas_penalty gas_counter
      in if \<not> ok then halt_oog reservoir
         else PRevert (OutRevert (gas_used api gas_with_penalty) (revert_message_to_bytes api msg) reservoir))"

definition new_reverted_with_early_penalty ::
  "('s, 'g) evm_api \<Rightarrow> 'g \<Rightarrow> u64 \<Rightarrow> string \<Rightarrow> precompile_error_or_revert" where
  "new_reverted_with_early_penalty api gas_counter reservoir msg =
     new_reverted_with_penalty api gas_counter reservoir PRECOMPILE_EARLY_REVERT_GAS_PENALTY msg"

text \<open>The final conversion: only a fatal error leaves the call as an error.\<close>

fun into_result :: "precompile_error_or_revert \<Rightarrow> string + precompile_output" where
  "into_result (PRevert output) = Inr output"
| "into_result (PError output) = Inr output"
| "into_result (PFatal msg) = Inl msg"

section \<open>Helpers\<close>

text \<open>
  A helper acts on the gas counter and the journal, both kept on an error, and yields a
  value or an error outcome.
\<close>

type_synonym ('s, 'g, 'a) pstep = "'g \<times> 's \<Rightarrow> (precompile_error_or_revert + 'a) \<times> ('g \<times> 's)"

definition account_load_cost :: "('s, 'g) evm_api \<Rightarrow> bool \<Rightarrow> u64" where
  "account_load_cost api is_cold =
     (if is_cold then COLD_ACCOUNT_ACCESS_COST api else WARM_STORAGE_READ_COST api)"

text \<open>The message of an I/O failure; the rendering of the underlying error that follows it is left out.\<close>

definition storage_io_error :: "string \<Rightarrow> precompile_error_or_revert" where
  "storage_io_error operation = PFatal (''Storage '' @ operation @ '' failed'')"

definition record_cost_or_out_of_gas ::
  "('s, 'g) evm_api \<Rightarrow> u64 \<Rightarrow> u64 \<Rightarrow> ('s, 'g, unit) pstep" where
  "record_cost_or_out_of_gas api reservoir cost =
     (\<lambda>(g, s). let (ok, g') = gas_record api cost g
               in if \<not> ok then (Inl (halt_oog reservoir), (g', s)) else (Inr (), (g', s)))"

definition record_empty_account_creation_cost ::
  "('s, 'g) evm_api \<Rightarrow> account_load \<Rightarrow> u256 \<Rightarrow> u64 \<Rightarrow> ('s, 'g, unit) pstep" where
  "record_empty_account_creation_cost api account amount reservoir st =
     (if amount \<noteq> 0 \<and> al_is_empty account
      then record_cost_or_out_of_gas api reservoir PRECOMPILE_EMPTY_ACCOUNT_GAS_COST st
      else (Inr (), st))"

definition check_gas_remaining :: "('s, 'g) evm_api \<Rightarrow> u64 \<Rightarrow> u64 \<Rightarrow> ('s, 'g, unit) pstep" where
  "check_gas_remaining api reservoir cost st =
     (if gas_remaining api (fst st) < cost then (Inl (halt_oog reservoir), st) else (Inr (), st))"

text \<open>Calls into the journal; an I/O failure is fatal.\<close>

definition journal :: "string \<Rightarrow> ('s \<Rightarrow> ('e + 'a) \<times> 's) \<Rightarrow> ('s, 'g, 'a) pstep" where
  "journal operation f =
     (\<lambda>(g, s). case f s of (Inl _, s') \<Rightarrow> (Inl (storage_io_error operation), (g, s'))
                         | (Inr a, s') \<Rightarrow> (Inr a, (g, s')))"

definition read_storage ::
  "('s, 'g) evm_api \<Rightarrow> address \<Rightarrow> storage_key \<Rightarrow> u64 \<Rightarrow> ('s, 'g, bytes) pstep" where
  "read_storage api address storage_key reservoir st =
     and_then (journal ''read'' (api_load_account_mut api address) st) (\<lambda>_ (g, s).
       case api_sload api address storage_key True s of
         (Inr slot_load, s') \<Rightarrow>
           and_then (record_cost_or_out_of_gas api reservoir (WARM_STORAGE_READ_COST api) (g, s'))
             (\<lambda>_ st. (Inr (to_be_bytes 32 (slot_present_value slot_load)), st))
       | (Inl ColdLoadSkipped, s') \<Rightarrow>
           and_then (record_cost_or_out_of_gas api reservoir (COLD_SLOAD_COST api) (g, s'))
             (\<lambda>_ st. and_then (journal ''read'' (api_sload api address storage_key False) st)
               (\<lambda>slot_load st. (Inr (to_be_bytes 32 (slot_present_value slot_load)), st)))
       | (Inl LoadFailed, s') \<Rightarrow> (Inl (storage_io_error ''read''), (g, s')))"

definition sstore_base_cost :: "('s, 'g) evm_api \<Rightarrow> u256 \<Rightarrow> u256 \<Rightarrow> u256 \<Rightarrow> u64" where
  "sstore_base_cost api original present new =
     (if new = present then WARM_STORAGE_READ_COST api
      else if original = present then (if original = 0 then SSTORE_SET api else WARM_SSTORE_RESET api)
      else WARM_STORAGE_READ_COST api)"

definition write_storage ::
  "('s, 'g) evm_api \<Rightarrow> address \<Rightarrow> storage_key \<Rightarrow> bytes \<Rightarrow> u64 \<Rightarrow> ('s, 'g, unit) pstep" where
  "write_storage api address storage_key input reservoir st =
     (if gas_remaining api (fst st) \<le> CALL_STIPEND api then (Inl (halt_oog reservoir), st)
      else
        let value = from_be_bytes input in
        and_then (journal ''write'' (api_load_account_mut api address) st) (\<lambda>_ (g, s).
        and_then
          (case api_sload api address storage_key True s of
             (Inr slot_load, s') \<Rightarrow> (Inr slot_load, (g, s'))
           | (Inl ColdLoadSkipped, s') \<Rightarrow>
               and_then (record_cost_or_out_of_gas api reservoir (COLD_SLOAD_COST api) (g, s'))
                 (\<lambda>_ st. journal ''write'' (api_sload api address storage_key False) st)
           | (Inl LoadFailed, s') \<Rightarrow> (Inl (storage_io_error ''write''), (g, s')))
          (\<lambda>slot st.
        and_then (record_cost_or_out_of_gas api reservoir
                    (sstore_base_cost api (slot_original_value slot) (slot_present_value slot) value) st)
          (\<lambda>_ st.
        journal ''write'' (api_sstore api address storage_key value) st))))"

definition check_can_decr_account ::
  "('s, 'g) evm_api \<Rightarrow> account_info \<Rightarrow> u256 \<Rightarrow> u64 \<Rightarrow> arc_hardfork_flags \<Rightarrow> ('s, 'g, unit) pstep" where
  "check_can_decr_account api info amount reservoir hardfork_flags st =
     (case checked_sub (ai_balance info) amount of
        None \<Rightarrow> (Inl (new_reverted api (fst st) reservoir ''Insufficient funds''), st)
      | Some from_account_balance \<Rightarrow>
          if flags_is_active hardfork_flags Zero8 then (Inr (), st)
          else if from_account_balance = 0 \<and> ai_nonce info = 0
                  \<and> (ai_code_hash info = KECCAK_EMPTY api \<or> ai_code_hash info = 0)
          then and_then (record_cost_or_out_of_gas api reservoir PRECOMPILE_SSTORE_GAS_COST st)
                 (\<lambda>_ st. (Inl (new_reverted api (fst st) reservoir ''Cannot clear balance of empty account''), st))
          else (Inr (), st))"

fun transfer_error_message :: "transfer_error \<Rightarrow> string" where
  "transfer_error_message OutOfFunds = ''Insufficient funds''"
| "transfer_error_message OverflowPayment = ''Arithmetic overflow''"
| "transfer_error_message CreateCollision = ''Execution reverted''"

definition transfer ::
  "('s, 'g) evm_api \<Rightarrow> address \<Rightarrow> address \<Rightarrow> u256 \<Rightarrow> u64 \<Rightarrow> arc_hardfork_flags \<Rightarrow> ('s, 'g, unit) pstep" where
  "transfer api from to amount reservoir hardfork_flags st =
     and_then (journal ''load'' (api_load_account api from) st) (\<lambda>loaded_from st.
     and_then (record_cost_or_out_of_gas api reservoir (account_load_cost api (al_is_cold loaded_from)) st) (\<lambda>_ st.
     and_then (check_can_decr_account api (al_info loaded_from) amount reservoir hardfork_flags st) (\<lambda>_ st.
     and_then (record_cost_or_out_of_gas api reservoir PRECOMPILE_SSTORE_GAS_COST st) (\<lambda>_ st.
     and_then (journal ''load'' (api_load_account api to) st) (\<lambda>to_load st.
     and_then (record_cost_or_out_of_gas api reservoir (account_load_cost api (al_is_cold to_load)) st) (\<lambda>_ st.
     and_then (record_cost_or_out_of_gas api reservoir PRECOMPILE_SSTORE_GAS_COST st) (\<lambda>_ st.
     if al_is_selfdestructed to_load
     then (Inl (new_reverted api (fst st) reservoir ''Cannot increase the balance of selfdestructed account''), st)
     else
     and_then (record_empty_account_creation_cost api to_load amount reservoir st) (\<lambda>_ st.
     and_then (journal ''transfer'' (api_transfer api from to amount) st) (\<lambda>transfer_result st.
     case transfer_result of
       None \<Rightarrow> (Inr (), st)
     | Some error \<Rightarrow> (Inl (new_reverted api (fst st) reservoir (transfer_error_message error)), st))))))))))"

definition balance_incr ::
  "('s, 'g) evm_api \<Rightarrow> address \<Rightarrow> u256 \<Rightarrow> u64 \<Rightarrow> ('s, 'g, unit) pstep" where
  "balance_incr api to amount reservoir st =
     and_then (journal ''load'' (api_load_account api to) st) (\<lambda>account st.
     and_then (record_cost_or_out_of_gas api reservoir (account_load_cost api (al_is_cold account)) st) (\<lambda>_ st.
     if al_is_selfdestructed account
     then (Inl (new_reverted api (fst st) reservoir ''Cannot increase the balance of selfdestructed account''), st)
     else case checked_add (ai_balance (al_info account)) amount of
       None \<Rightarrow> (Inl (new_reverted api (fst st) reservoir ''Arithmetic overflow''), st)
     | Some _ \<Rightarrow>
         and_then (record_cost_or_out_of_gas api reservoir PRECOMPILE_SSTORE_GAS_COST st) (\<lambda>_ st.
         and_then (record_empty_account_creation_cost api account amount reservoir st) (\<lambda>_ st.
         journal ''write'' (api_balance_incr api to amount) st))))"

definition balance_decr ::
  "('s, 'g) evm_api \<Rightarrow> address \<Rightarrow> u256 \<Rightarrow> u64 \<Rightarrow> arc_hardfork_flags \<Rightarrow> ('s, 'g, unit) pstep" where
  "balance_decr api from amount reservoir hardfork_flags st =
     and_then (journal ''load'' (api_load_account api from) st) (\<lambda>loaded_from st.
     and_then (record_cost_or_out_of_gas api reservoir (account_load_cost api (al_is_cold loaded_from)) st) (\<lambda>_ st.
     and_then (check_can_decr_account api (al_info loaded_from) amount reservoir hardfork_flags st) (\<lambda>_ st.
     and_then (record_cost_or_out_of_gas api reservoir PRECOMPILE_SSTORE_GAS_COST st) (\<lambda>_ st.
     and_then (journal ''load'' (api_load_account_mut api from) st) (\<lambda>_ (g, s).
     let (ok, s') = api_decr_balance api from amount s
     in if \<not> ok then (Inl (new_reverted api g reservoir ''Insufficient funds''), (g, s'))
        else (Inr (), (g, s')))))))"

record precompile_input =
  pin_data :: bytes
  pin_gas :: u64
  pin_reservoir :: u64
  pin_caller :: address
  pin_is_static :: bool
  pin_target_address :: address
  pin_bytecode_address :: address

definition check_staticcall :: "('s, 'g) evm_api \<Rightarrow> precompile_input \<Rightarrow> ('s, 'g, unit) pstep" where
  "check_staticcall api input st =
     (if pin_is_static input
      then let g = gas_spend_all api (fst st)
           in (Inl (new_reverted api g (pin_reservoir input) ''State change during static call''), (g, snd st))
      else (Inr (), st))"

definition check_delegatecall ::
  "('s, 'g) evm_api \<Rightarrow> address \<Rightarrow> precompile_input \<Rightarrow> arc_hardfork_flags \<Rightarrow> ('s, 'g, unit) pstep" where
  "check_delegatecall api precompile_address input hardfork_flags st =
     (if pin_target_address input \<noteq> precompile_address \<or> pin_bytecode_address input \<noteq> precompile_address
      then (Inl (if flags_is_active hardfork_flags Zero8
                 then new_reverted_with_penalty api (fst st) (pin_reservoir input)
                        PRECOMPILE_EARLY_REVERT_GAS_PENALTY ''Delegate call not allowed''
                 else new_reverted api (fst st) (pin_reservoir input) ''Delegate call not allowed''), st)
      else (Inr (), st))"

definition emit_event ::
  "('s, 'g) evm_api \<Rightarrow> address \<Rightarrow> log_data \<Rightarrow> u64 \<Rightarrow> ('s, 'g, unit) pstep" where
  "emit_event api address data reservoir st =
     (let topic_gas = saturating_mul LOG_TOPIC_COST (of_nat (length (ld_topics data)));
          data_gas = saturating_mul LOG_DATA_COST (of_nat (length (ld_data data)));
          log_gas = saturating_add (saturating_add LOG_BASE_COST topic_gas) data_gas
      in and_then (record_cost_or_out_of_gas api reservoir log_gas st)
           (\<lambda>_ (g, s). (Inr (), (g, api_log api address data s))))"

text \<open>
  The dispatch that the \<open>precompile!\<close> macro generates: too short an input and an unknown
  selector revert with the penalty, otherwise the arm of the selector runs on the rest.
\<close>

definition precompile_dispatch ::
  "('s, 'g) evm_api \<Rightarrow> (bytes \<times> (bytes \<Rightarrow> ('s, 'g, precompile_output) pstep)) list
     \<Rightarrow> precompile_input \<Rightarrow> 's \<Rightarrow> (string + precompile_output) \<times> 's" where
  "precompile_dispatch api arms input s =
     (let g = gas_new api (pin_gas input);
          penalty = (\<lambda>msg. into_result (new_reverted_with_penalty api g (pin_reservoir input)
                       PRECOMPILE_EARLY_REVERT_GAS_PENALTY msg))
      in if length (pin_data input) < 4 then (penalty ''Input too short'', s)
         else case map_of arms (take 4 (pin_data input)) of
                None \<Rightarrow> (penalty ''Invalid selector'', s)
              | Some body \<Rightarrow>
                  (case body (drop 4 (pin_data input)) (g, s) of
                     (Inr output, (_, s')) \<Rightarrow> (Inr output, s')
                   | (Inl e, (_, s')) \<Rightarrow> (into_result e, s')))"

section \<open>What the precompiles rely on\<close>

text \<open>
  \<open>bal\<close> and \<open>stor\<close> read the balances and the storage of a journal state. Loads leave both
  as they are and report them; a successful store, transfer or balance change updates
  exactly its own entries; logging changes neither.
\<close>

definition same_view ::
  "('s \<Rightarrow> address \<Rightarrow> u256) \<Rightarrow> ('s \<Rightarrow> address \<Rightarrow> storage_key \<Rightarrow> u256) \<Rightarrow> 's \<Rightarrow> 's \<Rightarrow> bool" where
  "same_view bal stor s s' \<longleftrightarrow> bal s' = bal s \<and> stor s' = stor s"

definition load_laws ::
  "('s, 'g) evm_api \<Rightarrow> ('s \<Rightarrow> address \<Rightarrow> u256) \<Rightarrow> ('s \<Rightarrow> address \<Rightarrow> storage_key \<Rightarrow> u256) \<Rightarrow> bool" where
  "load_laws api bal stor \<longleftrightarrow>
     (\<forall>a s r s'. api_load_account api a s = (r, s') \<longrightarrow>
        same_view bal stor s s' \<and> (\<forall>l. r = Inr l \<longrightarrow> ai_balance (al_info l) = bal s a))
     \<and> (\<forall>a s r s'. api_load_account_mut api a s = (r, s') \<longrightarrow> same_view bal stor s s')
     \<and> (\<forall>a k b s r s'. api_sload api a k b s = (r, s') \<longrightarrow>
          same_view bal stor s s' \<and> (\<forall>x. r = Inr x \<longrightarrow> slot_present_value x = stor s a k))
     \<and> (\<forall>a d s. same_view bal stor s (api_log api a d s))"

definition update_laws ::
  "('s, 'g) evm_api \<Rightarrow> ('s \<Rightarrow> address \<Rightarrow> u256) \<Rightarrow> ('s \<Rightarrow> address \<Rightarrow> storage_key \<Rightarrow> u256) \<Rightarrow> bool" where
  "update_laws api bal stor \<longleftrightarrow>
     (\<forall>a k v s u s'. api_sstore api a k v s = (Inr u, s') \<longrightarrow>
        bal s' = bal s \<and> stor s' = (stor s)(a := (stor s a)(k := v)))
     \<and> (\<forall>from to v s s'. api_transfer api from to v s = (Inr None, s') \<longrightarrow>
          stor s' = stor s \<and> v \<le> bal s from
          \<and> (if from = to then bal s' = bal s
             else unat (bal s to) + unat v < 2 ^ 256
                  \<and> bal s' = (bal s)(from := bal s from - v, to := bal s to + v)))
     \<and> (\<forall>a v s u s'. api_balance_incr api a v s = (Inr u, s') \<longrightarrow>
          stor s' = stor s
          \<and> (unat (bal s a) + unat v < 2 ^ 256 \<longrightarrow> bal s' = (bal s)(a := bal s a + v)))
     \<and> (\<forall>a v s s'. api_decr_balance api a v s = (True, s') \<longrightarrow>
          stor s' = stor s \<and> v \<le> bal s a \<and> bal s' = (bal s)(a := bal s a - v))"

definition journal_laws ::
  "('s, 'g) evm_api \<Rightarrow> ('s \<Rightarrow> address \<Rightarrow> u256) \<Rightarrow> ('s \<Rightarrow> address \<Rightarrow> storage_key \<Rightarrow> u256) \<Rightarrow> bool" where
  "journal_laws api bal stor \<longleftrightarrow> load_laws api bal stor \<and> update_laws api bal stor"

section \<open>What the helpers do when they succeed\<close>

lemma same_view_refl [simp]: "same_view bal stor s s"
  by (simp add: same_view_def)

lemma same_view_trans: "same_view bal stor s t \<Longrightarrow> same_view bal stor t u \<Longrightarrow> same_view bal stor s u"
  by (simp add: same_view_def)

lemma journal_Inr:
  "journal operation f st = (Inr a, st') \<longleftrightarrow> fst st' = fst st \<and> f (snd st) = (Inr a, snd st')"
  by (cases st; cases st'; cases "f (snd st)"; cases "fst (f (snd st))") (auto simp: journal_def)

lemma record_cost_state:
  "record_cost_or_out_of_gas api reservoir cost st = (r, st') \<Longrightarrow> snd st' = snd st"
  by (cases st) (auto simp: record_cost_or_out_of_gas_def split: prod.splits if_splits)

lemma record_empty_account_state:
  "record_empty_account_creation_cost api account amount reservoir st = (r, st') \<Longrightarrow> snd st' = snd st"
  by (auto simp: record_empty_account_creation_cost_def record_cost_state split: if_splits)

lemma check_can_decr_state:
  "check_can_decr_account api info amount reservoir fl st = (r, st') \<Longrightarrow> snd st' = snd st"
  by (auto simp: check_can_decr_account_def record_cost_state and_then_def
      split: option.splits if_splits prod.splits sum.splits)

lemma check_can_decr_Inr:
  "check_can_decr_account api info amount reservoir fl st = (Inr u, st') \<Longrightarrow> amount \<le> ai_balance info"
  by (auto simp: check_can_decr_account_def checked_sub_def and_then_def
      split: option.splits if_splits prod.splits sum.splits)

lemma check_gas_remaining_state:
  "check_gas_remaining api reservoir cost st = (r, st') \<Longrightarrow> st' = st"
  by (auto simp: check_gas_remaining_def split: if_splits)

lemma check_staticcall_Inr:
  "check_staticcall api input st = (Inr u, st') \<longleftrightarrow> \<not> pin_is_static input \<and> st' = st"
  by (auto simp: check_staticcall_def Let_def)

lemma check_delegatecall_Inr:
  "check_delegatecall api a input fl st = (Inr u, st') \<longleftrightarrow>
     pin_target_address input = a \<and> pin_bytecode_address input = a \<and> st' = st"
  by (auto simp: check_delegatecall_def)

lemma load_account_mut_view:
  "load_laws api bal stor \<Longrightarrow> journal operation (api_load_account_mut api a) st = (Inr u, st')
     \<Longrightarrow> same_view bal stor (snd st) (snd st')"
  by (auto simp: load_laws_def journal_Inr)

lemma load_account_view:
  "load_laws api bal stor \<Longrightarrow> journal operation (api_load_account api a) st = (Inr l, st')
     \<Longrightarrow> same_view bal stor (snd st) (snd st') \<and> ai_balance (al_info l) = bal (snd st) a"
  by (auto simp: load_laws_def journal_Inr)

lemma sload_view:
  "load_laws api bal stor \<Longrightarrow> api_sload api a k b s = (r, s')
     \<Longrightarrow> same_view bal stor s s' \<and> (\<forall>x. r = Inr x \<longrightarrow> slot_present_value x = stor s a k)"
  by (auto simp: load_laws_def)

lemma journal_sload_view:
  "load_laws api bal stor \<Longrightarrow> journal operation (api_sload api a k b) st = (Inr x, st')
     \<Longrightarrow> same_view bal stor (snd st) (snd st') \<and> slot_present_value x = stor (snd st) a k"
  by (auto simp: journal_Inr dest: sload_view)

lemma read_storage_Inr:
  assumes laws: "load_laws api bal stor" and rd: "read_storage api a k reservoir st = (Inr bs, st')"
  shows "same_view bal stor (snd st) (snd st') \<and> bs = to_be_bytes 32 (stor (snd st) a k)"
proof -
  obtain st1 where load: "journal ''read'' (api_load_account_mut api a) st = (Inr (), st1)"
    and rest: "(case st1 of (g, s) \<Rightarrow>
       case api_sload api a k True s of
         (Inr slot_load, s') \<Rightarrow>
           and_then (record_cost_or_out_of_gas api reservoir (WARM_STORAGE_READ_COST api) (g, s'))
             (\<lambda>_ st. (Inr (to_be_bytes 32 (slot_present_value slot_load)), st))
       | (Inl ColdLoadSkipped, s') \<Rightarrow>
           and_then (record_cost_or_out_of_gas api reservoir (COLD_SLOAD_COST api) (g, s'))
             (\<lambda>_ st. and_then (journal ''read'' (api_sload api a k False) st)
               (\<lambda>slot_load st. (Inr (to_be_bytes 32 (slot_present_value slot_load)), st)))
       | (Inl LoadFailed, s') \<Rightarrow> (Inl (storage_io_error ''read''), (g, s'))) = (Inr bs, st')"
    using rd unfolding read_storage_def by (auto elim!: and_then_eq_InrE)
  obtain g s where st1: "st1 = (g, s)" by (cases st1)
  obtain r s1 where sl: "api_sload api a k True s = (r, s1)" by (cases "api_sload api a k True s")
  have v0: "same_view bal stor (snd st) s" using load_account_mut_view [OF laws load] by (simp add: st1)
  have v1: "same_view bal stor s s1" and pv: "\<And>x. r = Inr x \<Longrightarrow> slot_present_value x = stor s a k"
    using sload_view [OF laws sl] by auto
  have stor: "stor s = stor (snd st)" "stor s1 = stor s" using v0 v1 by (simp_all add: same_view_def)
  show ?thesis
  proof (cases r)
    case (Inr x)
    with rest sl st1 obtain st2 where
      "record_cost_or_out_of_gas api reservoir (WARM_STORAGE_READ_COST api) (g, s1) = (Inr (), st2)"
      "bs = to_be_bytes 32 (slot_present_value x)" "st' = st2"
      by (auto elim!: and_then_eq_InrE)
    with record_cost_state pv [OF Inr] stor same_view_trans [OF v0 v1] show ?thesis by fastforce
  next
    case (Inl e)
    with rest sl st1 obtain st2 x where
      rc: "record_cost_or_out_of_gas api reservoir (COLD_SLOAD_COST api) (g, s1) = (Inr (), st2)"
      and sl2: "journal ''read'' (api_sload api a k False) st2 = (Inr x, st')"
      and bs: "bs = to_be_bytes 32 (slot_present_value x)"
      by (auto elim!: and_then_eq_InrE split: load_error.splits)
    have "snd st2 = s1" using record_cost_state [OF rc] by simp
    with journal_sload_view [OF laws sl2] stor bs same_view_trans [OF v0 same_view_trans [OF v1]]
    show ?thesis by simp
  qed
qed

lemma load_slot_Inr:
  assumes laws: "load_laws api bal stor"
    and ld: "(case api_sload api a k True s of
             (Inr slot_load, s') \<Rightarrow> (Inr slot_load, (g, s'))
           | (Inl ColdLoadSkipped, s') \<Rightarrow>
               and_then (record_cost_or_out_of_gas api reservoir (COLD_SLOAD_COST api) (g, s'))
                 (\<lambda>_ st. journal ''write'' (api_sload api a k False) st)
           | (Inl LoadFailed, s') \<Rightarrow> (Inl (storage_io_error ''write''), (g, s'))) = (Inr x, st')"
  shows "same_view bal stor s (snd st')"
proof -
  obtain r s1 where sl: "api_sload api a k True s = (r, s1)" by (cases "api_sload api a k True s")
  have v1: "same_view bal stor s s1" using sload_view [OF laws sl] by simp
  show ?thesis
  proof (cases r)
    case (Inr y)
    with ld sl v1 show ?thesis by auto
  next
    case (Inl e)
    with ld sl obtain st2 where
      rc: "record_cost_or_out_of_gas api reservoir (COLD_SLOAD_COST api) (g, s1) = (Inr (), st2)"
      and sl2: "journal ''write'' (api_sload api a k False) st2 = (Inr x, st')"
      by (auto elim!: and_then_eq_InrE split: load_error.splits)
    have "snd st2 = s1" using record_cost_state [OF rc] by simp
    with journal_sload_view [OF laws sl2] same_view_trans [OF v1] show ?thesis by simp
  qed
qed

lemma write_storage_Inr:
  assumes laws: "journal_laws api bal stor" and wr: "write_storage api a k input reservoir st = (Inr u, st')"
  shows "bal (snd st') = bal (snd st)
    \<and> stor (snd st') = (stor (snd st))(a := (stor (snd st) a)(k := from_be_bytes input))"
proof -
  have ll: "load_laws api bal stor" and ul: "update_laws api bal stor"
    using laws by (simp_all add: journal_laws_def)
  obtain g1 s1 x st2 st3 where
    load: "journal ''write'' (api_load_account_mut api a) st = (Inr (), (g1, s1))"
    and slot: "(case api_sload api a k True s1 of
             (Inr slot_load, s') \<Rightarrow> (Inr slot_load, (g1, s'))
           | (Inl ColdLoadSkipped, s') \<Rightarrow>
               and_then (record_cost_or_out_of_gas api reservoir (COLD_SLOAD_COST api) (g1, s'))
                 (\<lambda>_ st. journal ''write'' (api_sload api a k False) st)
           | (Inl LoadFailed, s') \<Rightarrow> (Inl (storage_io_error ''write''), (g1, s'))) = (Inr x, st2)"
    and cost: "record_cost_or_out_of_gas api reservoir
        (sstore_base_cost api (slot_original_value x) (slot_present_value x) (from_be_bytes input)) st2 = (Inr (), st3)"
    and store: "journal ''write'' (api_sstore api a k (from_be_bytes input)) st3 = (Inr u, st')"
    using wr unfolding write_storage_def Let_def
    by (auto elim!: and_then_eq_InrE split: if_splits)
  have "same_view bal stor (snd st) s1" using load_account_mut_view [OF ll load] by simp
  moreover have "same_view bal stor s1 (snd st2)" using ll slot by (rule load_slot_Inr)
  moreover have "snd st3 = snd st2" using cost by (rule record_cost_state)
  moreover have "bal (snd st') = bal (snd st3)
      \<and> stor (snd st') = (stor (snd st3))(a := (stor (snd st3) a)(k := from_be_bytes input))"
    using store ul by (auto simp: journal_Inr update_laws_def)
  ultimately show ?thesis by (simp add: same_view_def)
qed

lemma balance_incr_Inr:
  assumes laws: "journal_laws api bal stor" and inc: "balance_incr api to amount reservoir st = (Inr u, st')"
  shows "stor (snd st') = stor (snd st) \<and> unat (bal (snd st) to) + unat amount < 2 ^ 256
    \<and> bal (snd st') = (bal (snd st))(to := bal (snd st) to + amount)"
proof -
  have ll: "load_laws api bal stor" and ul: "update_laws api bal stor"
    using laws by (simp_all add: journal_laws_def)
  obtain l st1 st2 b st3 st4 where
    load: "journal ''load'' (api_load_account api to) st = (Inr l, st1)"
    and c1: "record_cost_or_out_of_gas api reservoir (account_load_cost api (al_is_cold l)) st1 = (Inr (), st2)"
    and add: "checked_add (ai_balance (al_info l)) amount = Some b"
    and c2: "record_cost_or_out_of_gas api reservoir PRECOMPILE_SSTORE_GAS_COST st2 = (Inr (), st3)"
    and c3: "record_empty_account_creation_cost api l amount reservoir st3 = (Inr (), st4)"
    and incr: "journal ''write'' (api_balance_incr api to amount) st4 = (Inr u, st')"
    using inc unfolding balance_incr_def
    by (auto elim!: and_then_eq_InrE split: if_splits option.splits)
  have v: "same_view bal stor (snd st) (snd st1)" and b: "ai_balance (al_info l) = bal (snd st) to"
    using load_account_view [OF ll load] by auto
  have st4: "snd st4 = snd st1"
    using record_cost_state [OF c1] record_cost_state [OF c2] record_empty_account_state [OF c3] by simp
  have fits: "unat (bal (snd st) to) + unat amount < 2 ^ 256"
  proof -
    have "unat b = unat (bal (snd st) to) + unat amount" using add b by (simp add: checked_add_iff)
    then show ?thesis using unat_lt2p [of b] by simp
  qed
  have "stor (snd st') = stor (snd st4) \<and> bal (snd st') = (bal (snd st4))(to := bal (snd st4) to + amount)"
    using incr ul fits v st4 by (auto simp: journal_Inr update_laws_def same_view_def)
  with fits v st4 show ?thesis by (simp add: same_view_def)
qed

lemma balance_decr_Inr:
  assumes laws: "journal_laws api bal stor"
    and dec: "balance_decr api from amount reservoir fl st = (Inr u, st')"
  shows "stor (snd st') = stor (snd st) \<and> amount \<le> bal (snd st) from
    \<and> bal (snd st') = (bal (snd st))(from := bal (snd st) from - amount)"
proof -
  have ll: "load_laws api bal stor" and ul: "update_laws api bal stor"
    using laws by (simp_all add: journal_laws_def)
  obtain l st1 st2 st3 st4 g5 s5 s6 where
    load: "journal ''load'' (api_load_account api from) st = (Inr l, st1)"
    and c1: "record_cost_or_out_of_gas api reservoir (account_load_cost api (al_is_cold l)) st1 = (Inr (), st2)"
    and c2: "check_can_decr_account api (al_info l) amount reservoir fl st2 = (Inr (), st3)"
    and c3: "record_cost_or_out_of_gas api reservoir PRECOMPILE_SSTORE_GAS_COST st3 = (Inr (), st4)"
    and lm: "journal ''load'' (api_load_account_mut api from) st4 = (Inr (), (g5, s5))"
    and decr: "api_decr_balance api from amount s5 = (True, s6)" and st': "st' = (g5, s6)"
    using dec unfolding balance_decr_def Let_def
    by (auto elim!: and_then_eq_InrE split: if_splits prod.splits)
  have v1: "same_view bal stor (snd st) (snd st1)"
    using load_account_view [OF ll load] by simp
  have "snd st4 = snd st1"
    using record_cost_state [OF c1] check_can_decr_state [OF c2] record_cost_state [OF c3] by simp
  then have v2: "same_view bal stor (snd st1) s5"
    using load_account_mut_view [OF ll lm] by simp
  have "stor s6 = stor s5 \<and> amount \<le> bal s5 from \<and> bal s6 = (bal s5)(from := bal s5 from - amount)"
    using ul decr by (simp add: update_laws_def)
  with same_view_trans [OF v1 v2] show ?thesis by (simp add: same_view_def st')
qed

lemma transfer_Inr:
  assumes laws: "journal_laws api bal stor"
    and tr: "transfer api from to amount reservoir fl st = (Inr u, st')"
  shows "stor (snd st') = stor (snd st) \<and> amount \<le> bal (snd st) from
    \<and> (if from = to then bal (snd st') = bal (snd st)
       else unat (bal (snd st) to) + unat amount < 2 ^ 256
            \<and> bal (snd st') = (bal (snd st))(from := bal (snd st) from - amount, to := bal (snd st) to + amount))"
proof -
  have ll: "load_laws api bal stor" and ul: "update_laws api bal stor"
    using laws by (simp_all add: journal_laws_def)
  obtain l st1 st2 st3 st4 l' st5 st6 st7 st8 where
    load: "journal ''load'' (api_load_account api from) st = (Inr l, st1)"
    and c1: "record_cost_or_out_of_gas api reservoir (account_load_cost api (al_is_cold l)) st1 = (Inr (), st2)"
    and c2: "check_can_decr_account api (al_info l) amount reservoir fl st2 = (Inr (), st3)"
    and c3: "record_cost_or_out_of_gas api reservoir PRECOMPILE_SSTORE_GAS_COST st3 = (Inr (), st4)"
    and load': "journal ''load'' (api_load_account api to) st4 = (Inr l', st5)"
    and c4: "record_cost_or_out_of_gas api reservoir (account_load_cost api (al_is_cold l')) st5 = (Inr (), st6)"
    and c5: "record_cost_or_out_of_gas api reservoir PRECOMPILE_SSTORE_GAS_COST st6 = (Inr (), st7)"
    and c6: "record_empty_account_creation_cost api l' amount reservoir st7 = (Inr (), st8)"
    and move: "journal ''transfer'' (api_transfer api from to amount) st8 = (Inr None, st')"
    using tr unfolding transfer_def
    by (auto elim!: and_then_eq_InrE split: if_splits option.splits)
  have v1: "same_view bal stor (snd st) (snd st1)" using load_account_view [OF ll load] by simp
  have "snd st4 = snd st1"
    using record_cost_state [OF c1] check_can_decr_state [OF c2] record_cost_state [OF c3] by simp
  then have v2: "same_view bal stor (snd st1) (snd st5)" using load_account_view [OF ll load'] by simp
  have "snd st8 = snd st5"
    using record_cost_state [OF c4] record_cost_state [OF c5] record_empty_account_state [OF c6] by simp
  with same_view_trans [OF v1 v2] have v: "same_view bal stor (snd st) (snd st8)" by simp
  have "stor (snd st') = stor (snd st8) \<and> amount \<le> bal (snd st8) from
    \<and> (if from = to then bal (snd st') = bal (snd st8)
       else unat (bal (snd st8) to) + unat amount < 2 ^ 256
            \<and> bal (snd st') = (bal (snd st8))(from := bal (snd st8) from - amount, to := bal (snd st8) to + amount))"
    using move ul unfolding journal_Inr update_laws_def by blast
  moreover have eqs: "bal (snd st8) = bal (snd st)" "stor (snd st8) = stor (snd st)"
    using v by (simp_all add: same_view_def)
  ultimately show ?thesis unfolding eqs by blast
qed

lemma emit_event_Inr:
  assumes "load_laws api bal stor" and "emit_event api a d reservoir st = (Inr u, st')"
  shows "same_view bal stor (snd st) (snd st')"
proof -
  obtain cost g s where "record_cost_or_out_of_gas api reservoir cost st = (Inr (), (g, s))"
    and st': "st' = (g, api_log api a d s)"
    using assms(2) unfolding emit_event_def Let_def by (auto elim!: and_then_eq_InrE)
  then have "s = snd st" using record_cost_state by fastforce
  with assms(1) show ?thesis by (simp add: st' load_laws_def)
qed

section \<open>What holds after every step, failed or not\<close>

text \<open>
  A step result is guarded by \<open>J\<close> when the journal it leaves satisfies \<open>J\<close> and an error it
  carries is not a success in disguise. Guards compose over \<open>?\<close>, so that a whole arm is
  guarded by the closure of \<open>J\<close> under the journal calls it makes.
\<close>

named_theorems guards

fun is_success :: "precompile_output \<Rightarrow> bool" where
  "is_success (OutSuccess _ _ _) \<longleftrightarrow> True"
| "is_success _ \<longleftrightarrow> False"

definition guarded ::
  "('s \<Rightarrow> bool) \<Rightarrow> (precompile_error_or_revert + 'a) \<times> ('g \<times> 's) \<Rightarrow> bool" where
  "guarded J x \<longleftrightarrow> J (snd (snd x))
     \<and> (\<forall>e out. fst x = Inl e \<longrightarrow> into_result e = Inr out \<longrightarrow> \<not> is_success out)"

definition load_closed :: "('s, 'g) evm_api \<Rightarrow> ('s \<Rightarrow> bool) \<Rightarrow> bool" where
  "load_closed api J \<longleftrightarrow>
     (\<forall>a s. J s \<longrightarrow> J (snd (api_load_account api a s)))
     \<and> (\<forall>a s. J s \<longrightarrow> J (snd (api_load_account_mut api a s)))
     \<and> (\<forall>a k b s. J s \<longrightarrow> J (snd (api_sload api a k b s)))
     \<and> (\<forall>a d s. J s \<longrightarrow> J (api_log api a d s))"

definition update_closed :: "('s, 'g) evm_api \<Rightarrow> ('s \<Rightarrow> bool) \<Rightarrow> bool" where
  "update_closed api J \<longleftrightarrow> load_closed api J
     \<and> (\<forall>a k v s. J s \<longrightarrow> J (snd (api_sstore api a k v s)))
     \<and> (\<forall>a b v s. J s \<longrightarrow> J (snd (api_transfer api a b v s)))
     \<and> (\<forall>a v s. J s \<longrightarrow> J (snd (api_balance_incr api a v s)))
     \<and> (\<forall>a v s. J s \<longrightarrow> J (snd (api_decr_balance api a v s)))"

lemma update_closed_load [simp]: "update_closed api J \<Longrightarrow> load_closed api J"
  by (simp add: update_closed_def)

lemma update_closed_True [simp]: "update_closed api (\<lambda>_. True)"
  by (simp add: update_closed_def load_closed_def)

lemma load_closed_same_view:
  assumes "load_laws api bal stor"
  shows "load_closed api (same_view bal stor s0)"
proof -
  have "same_view bal stor s (snd (api_load_account api a s))"
    "same_view bal stor s (snd (api_load_account_mut api a s))"
    "same_view bal stor s (snd (api_sload api a k b s))"
    "same_view bal stor s (api_log api a d s)" for a k b d s
    using assms unfolding load_laws_def by (metis prod.collapse)+
  then show ?thesis unfolding load_closed_def by (blast intro: same_view_trans)
qed

lemma guarded_Inr [guards]: "J (snd st) \<Longrightarrow> guarded J (Inr a, st)"
  by (simp add: guarded_def)

lemma guarded_Inl [guards]:
  "J (snd st) \<Longrightarrow> (\<And>out. into_result e = Inr out \<Longrightarrow> \<not> is_success out) \<Longrightarrow> guarded J (Inl e, st)"
  by (simp add: guarded_def)

lemma guarded_and_then [guards]:
  assumes "guarded J x" and "\<And>a st. J (snd st) \<Longrightarrow> guarded J (k a st)"
  shows "guarded J (and_then x k)"
  using assms by (auto simp: guarded_def and_then_def split: prod.splits sum.splits)

lemma failures [simp]:
  "into_result (halt_oog reservoir) = Inr out \<Longrightarrow> \<not> is_success out"
  "into_result (new_reverted api g reservoir msg) = Inr out \<Longrightarrow> \<not> is_success out"
  "into_result (new_reverted_with_penalty api g reservoir p msg) = Inr out \<Longrightarrow> \<not> is_success out"
  "into_result (new_reverted_with_early_penalty api g reservoir msg) = Inr out \<Longrightarrow> \<not> is_success out"
  "into_result (storage_io_error operation) = Inr out \<Longrightarrow> \<not> is_success out"
  by (auto simp: halt_oog_def new_reverted_def new_reverted_with_penalty_def storage_io_error_def
      new_reverted_with_early_penalty_def split: prod.splits if_splits)

lemma guarded_record_cost [guards]:
  "J (snd st) \<Longrightarrow> guarded J (record_cost_or_out_of_gas api reservoir cost st)"
  by (cases st) (auto intro!: guards simp: record_cost_or_out_of_gas_def split: prod.splits)

lemma guarded_record_empty [guards]:
  "J (snd st) \<Longrightarrow> guarded J (record_empty_account_creation_cost api account amount reservoir st)"
  by (auto intro!: guards simp: record_empty_account_creation_cost_def)

lemma guarded_check_gas [guards]:
  "J (snd st) \<Longrightarrow> guarded J (check_gas_remaining api reservoir cost st)"
  by (auto intro!: guards simp: check_gas_remaining_def)

lemma guarded_check_staticcall [guards]:
  "J (snd st) \<Longrightarrow> guarded J (check_staticcall api input st)"
  by (auto intro!: guards simp: check_staticcall_def Let_def)

lemma guarded_check_delegatecall [guards]:
  "J (snd st) \<Longrightarrow> guarded J (check_delegatecall api a input fl st)"
  by (auto intro!: guards simp: check_delegatecall_def)

lemma guarded_check_can_decr [guards]:
  "J (snd st) \<Longrightarrow> guarded J (check_can_decr_account api info amount reservoir fl st)"
  by (auto intro!: guards simp: check_can_decr_account_def split: option.splits)

lemma guarded_journal:
  assumes "J (snd (f (snd st)))"
  shows "guarded J (journal operation f st)"
  using assms by (cases st) (auto intro!: guards simp: journal_def split: prod.splits sum.splits)

lemma guarded_loads [guards]:
  assumes "load_closed api J" and "J (snd st)"
  shows "guarded J (journal operation (api_load_account api a) st)"
    and "guarded J (journal operation (api_load_account_mut api a) st)"
    and "guarded J (journal operation (api_sload api a k b) st)"
  using assms by (auto intro!: guarded_journal simp: load_closed_def)

lemma guarded_read_storage [guards]:
  assumes "load_closed api J" and "J (snd st)"
  shows "guarded J (read_storage api a k reservoir st)"
  unfolding read_storage_def
proof (rule guarded_and_then)
  fix u and st' :: "'b \<times> 'a"
  assume j: "J (snd st')"
  obtain g s where st': "st' = (g, s)" by (cases st')
  obtain r s1 where sl: "api_sload api a k True s = (r, s1)" by (cases "api_sload api a k True s")
  then have "J s1" using assms(1) j st' unfolding load_closed_def by (metis snd_conv)
  then show "guarded J (case st' of (g, s) \<Rightarrow>
       case api_sload api a k True s of
         (Inr slot_load, s') \<Rightarrow>
           and_then (record_cost_or_out_of_gas api reservoir (WARM_STORAGE_READ_COST api) (g, s'))
             (\<lambda>_ st. (Inr (to_be_bytes 32 (slot_present_value slot_load)), st))
       | (Inl ColdLoadSkipped, s') \<Rightarrow>
           and_then (record_cost_or_out_of_gas api reservoir (COLD_SLOAD_COST api) (g, s'))
             (\<lambda>_ st. and_then (journal ''read'' (api_sload api a k False) st)
               (\<lambda>slot_load st. (Inr (to_be_bytes 32 (slot_present_value slot_load)), st)))
       | (Inl LoadFailed, s') \<Rightarrow> (Inl (storage_io_error ''read''), (g, s')))"
    using assms(1) sl by (auto intro!: guards simp: st' split: sum.splits load_error.splits)
qed (use assms in \<open>rule guarded_loads\<close>)

lemma guarded_write_storage [guards]:
  assumes "update_closed api J" and "J (snd st)"
  shows "guarded J (write_storage api a k input reservoir st)"
proof -
  have lc: "load_closed api J" using assms(1) by simp
  have slot: "guarded J (case api_sload api a k True s of
             (Inr slot_load, s') \<Rightarrow> (Inr slot_load, (g, s'))
           | (Inl ColdLoadSkipped, s') \<Rightarrow>
               and_then (record_cost_or_out_of_gas api reservoir (COLD_SLOAD_COST api) (g, s'))
                 (\<lambda>_ st. journal ''write'' (api_sload api a k False) st)
           | (Inl LoadFailed, s') \<Rightarrow> (Inl (storage_io_error ''write''), (g, s')))"
    if "J s" for s and g :: 'b
  proof -
    obtain r s1 where sl: "api_sload api a k True s = (r, s1)" by (cases "api_sload api a k True s")
    then have "J s1" using lc that unfolding load_closed_def by (metis snd_conv)
    then show ?thesis using lc sl by (auto intro!: guards split: sum.splits load_error.splits)
  qed
  have store: "guarded J (journal ''write'' (api_sstore api a k v) st)" if "J (snd st)"
    for v and st :: "'b \<times> 'a"
    using assms(1) that by (auto intro!: guarded_journal simp: update_closed_def)
  show ?thesis
    using assms(2) lc unfolding write_storage_def Let_def
    by (auto intro!: guards slot store)
qed

lemma guarded_transfer [guards]:
  assumes "update_closed api J" and "J (snd st)"
  shows "guarded J (transfer api from to amount reservoir fl st)"
proof -
  have "load_closed api J" using assms(1) by simp
  moreover have "guarded J (journal operation (api_transfer api from to amount) st)" if "J (snd st)"
    for operation and st :: "'b \<times> 'a"
    using assms(1) that by (auto intro!: guarded_journal simp: update_closed_def)
  ultimately show ?thesis
    using assms(2) unfolding transfer_def by (auto intro!: guards split: option.splits)
qed

lemma guarded_balance_incr [guards]:
  assumes "update_closed api J" and "J (snd st)"
  shows "guarded J (balance_incr api to amount reservoir st)"
proof -
  have "load_closed api J" using assms(1) by simp
  moreover have "guarded J (journal operation (api_balance_incr api to amount) st)" if "J (snd st)"
    for operation and st :: "'b \<times> 'a"
    using assms(1) that by (auto intro!: guarded_journal simp: update_closed_def)
  ultimately show ?thesis
    using assms(2) unfolding balance_incr_def by (auto intro!: guards split: option.splits)
qed

lemma guarded_balance_decr [guards]:
  assumes "update_closed api J" and "J (snd st)"
  shows "guarded J (balance_decr api from amount reservoir fl st)"
proof -
  have "load_closed api J" using assms(1) by simp
  moreover have "J s'" if "api_decr_balance api from amount s = (r, s')" "J s" for r s s'
    using assms(1) that unfolding update_closed_def by (metis snd_conv)
  ultimately show ?thesis
    using assms(2) unfolding balance_decr_def Let_def
    by (auto intro!: guards split: prod.splits)
qed

lemma guarded_emit_event [guards]:
  assumes "load_closed api J" and "J (snd st)"
  shows "guarded J (emit_event api a d reservoir st)"
  using assms unfolding emit_event_def Let_def
  by (auto intro!: guards simp: load_closed_def)

text \<open>A dispatched call leaves a guarded journal, and succeeds only through one of its arms.\<close>

lemma dispatch_guarded:
  assumes "\<forall>(sel, body) \<in> set arms. \<forall>input st. J (snd st) \<longrightarrow> guarded J (body input st)"
    and "J s"
  shows "J (snd (precompile_dispatch api arms pin s))"
proof (cases "map_of arms (take 4 (pin_data pin))")
  case (Some body)
  let ?r = "body (drop 4 (pin_data pin)) (gas_new api (pin_gas pin), s)"
  have "guarded J ?r"
    using assms map_of_SomeD [OF Some] by fastforce
  then show ?thesis
    using Some assms(2)
    by (cases ?r; cases "fst ?r") (auto simp: precompile_dispatch_def guarded_def Let_def)
qed (use assms in \<open>simp add: precompile_dispatch_def Let_def\<close>)

lemma dispatch_success:
  assumes g: "\<forall>(sel, body) \<in> set arms. \<forall>input st. guarded (\<lambda>_. True) (body input st)"
    and run: "precompile_dispatch api arms pin s = (Inr (OutSuccess gas out reservoir), s')"
  shows "\<exists>sel body st'. (sel, body) \<in> set arms \<and> sel = take 4 (pin_data pin)
    \<and> body (drop 4 (pin_data pin)) (gas_new api (pin_gas pin), s) = (Inr (OutSuccess gas out reservoir), st')
    \<and> snd st' = s'"
proof -
  have nf: "into_result (new_reverted_with_penalty api g r p msg) \<noteq> Inr (OutSuccess gas out reservoir)"
    for g r p msg
    using failures(3) by (metis is_success.simps(1))
  then obtain body where body: "map_of arms (take 4 (pin_data pin)) = Some body"
    using run by (auto simp: precompile_dispatch_def Let_def split: if_splits option.splits)
  let ?r = "body (drop 4 (pin_data pin)) (gas_new api (pin_gas pin), s)"
  have mem: "(take 4 (pin_data pin), body) \<in> set arms" using body by (rule map_of_SomeD)
  obtain x st' where r: "?r = (x, st')" by (cases ?r)
  have "guarded (\<lambda>_. True) ?r" using g mem by fastforce
  with run body r nf have "x = Inr (OutSuccess gas out reservoir) \<and> snd st' = s'"
    by (cases x; cases st')
      (auto simp: precompile_dispatch_def Let_def guarded_def split: if_splits)
  with mem r show ?thesis by blast
qed

end
