(* ===== verification/Native_Coin.thy ===== *)
theory Native_Coin
  imports Precompile_Core
begin

text \<open>
  The native coin precompiles: minting, burning and transferring the native coin
  (\<open>precompiles/src/native_coin_authority.rs\<close>) and its blocklist
  (\<open>native_coin_control.rs\<close>, with the slot of \<open>execution-config/src/native_coin_control.rs\<close>).
  The ABI codec, the event encodings and Keccak-256 are the record \<open>coin_abi\<close>.
\<close>

record coin_abi =
  abi_bool :: "bool \<Rightarrow> bytes"
  abi_u256 :: "u256 \<Rightarrow> bytes"
  abi_keccak256 :: "bytes \<Rightarrow> u256"
  sel_mint :: bytes
  sel_burn :: bytes
  sel_transfer :: bytes
  sel_totalSupply :: bytes
  sel_blocklist :: bytes
  sel_isBlocklisted :: bytes
  sel_unBlocklist :: bytes
  dec_mint :: "bytes \<Rightarrow> (address \<times> u256) option"
  dec_burn :: "bytes \<Rightarrow> (address \<times> u256) option"
  dec_transfer :: "bytes \<Rightarrow> (address \<times> address \<times> u256) option"
  dec_totalSupply :: "bytes \<Rightarrow> unit option"
  dec_blocklist :: "bytes \<Rightarrow> address option"
  dec_isBlocklisted :: "bytes \<Rightarrow> address option"
  dec_unBlocklist :: "bytes \<Rightarrow> address option"
  enc_Transfer :: "address \<Rightarrow> address \<Rightarrow> u256 \<Rightarrow> log_data"
  enc_Blocklisted :: "address \<Rightarrow> log_data"
  enc_UnBlocklisted :: "address \<Rightarrow> log_data"

section \<open>The blocklist slot\<close>

definition BLOCKLIST_MAPPING_SLOT :: u256 where
  "BLOCKLIST_MAPPING_SLOT = 2"

definition compute_is_blocklisted_storage_slot :: "(bytes \<Rightarrow> u256) \<Rightarrow> address \<Rightarrow> storage_key" where
  "compute_is_blocklisted_storage_slot keccak256 key =
     keccak256 ((replicate 12 0 @ to_be_bytes 20 key) @ to_be_bytes 32 BLOCKLIST_MAPPING_SLOT)"

definition is_blocklisted_status :: "u256 \<Rightarrow> bool" where
  "is_blocklisted_status status \<longleftrightarrow> status \<noteq> 0"

section \<open>NativeCoinAuthority\<close>

definition NATIVE_COIN_AUTHORITY_ADDRESS :: address where
  "NATIVE_COIN_AUTHORITY_ADDRESS = 0x1800000000000000000000000000000000000000"

definition NATIVE_COIN_CONTROL_ADDRESS :: address where
  "NATIVE_COIN_CONTROL_ADDRESS = 0x1800000000000000000000000000000000000001"

definition ALLOWED_CALLER_ADDRESS :: address where
  "ALLOWED_CALLER_ADDRESS = NATIVE_FIAT_TOKEN_ADDRESS"

definition TOTAL_SUPPLY_STORAGE_KEY :: storage_key where
  "TOTAL_SUPPLY_STORAGE_KEY = 2"

definition TOTAL_SUPPLY_GAS_COST :: u64 where
  "TOTAL_SUPPLY_GAS_COST = PRECOMPILE_SLOAD_GAS_COST"

definition UNBLOCKLISTED_STATUS :: u256 where
  "UNBLOCKLISTED_STATUS = 0"

definition BLOCKLISTED_STATUS :: u256 where
  "BLOCKLISTED_STATUS = 1"

definition is_blocklisted ::
  "('s, 'g) evm_api \<Rightarrow> coin_abi \<Rightarrow> address \<Rightarrow> u64 \<Rightarrow> ('s, 'g, bool) pstep" where
  "is_blocklisted api abi address reservoir st =
     and_then (read_storage api NATIVE_COIN_CONTROL_ADDRESS
                 (compute_is_blocklisted_storage_slot (abi_keccak256 abi) address) reservoir st)
       (\<lambda>storage_output st. (Inr (from_be_bytes storage_output \<noteq> UNBLOCKLISTED_STATUS), st))"

text \<open>The decoding step shared by the arms, and an early revert with the penalty.\<close>

definition decode_args ::
  "('s, 'g) evm_api \<Rightarrow> u64 \<Rightarrow> 'a option \<Rightarrow> ('s, 'g, 'a) pstep" where
  "decode_args api reservoir args st =
     (case args of
        None \<Rightarrow> (Inl (new_reverted_with_penalty api (fst st) reservoir
                   PRECOMPILE_EARLY_REVERT_GAS_PENALTY ''Execution reverted''), st)
      | Some a \<Rightarrow> (Inr a, st))"

definition early_revert_if ::
  "('s, 'g) evm_api \<Rightarrow> u64 \<Rightarrow> bool \<Rightarrow> string \<Rightarrow> ('s, 'g, unit) pstep" where
  "early_revert_if api reservoir b msg st =
     (if b then (Inl (new_reverted_with_early_penalty api (fst st) reservoir msg), st) else (Inr (), st))"

definition success :: "('s, 'g) evm_api \<Rightarrow> u64 \<Rightarrow> bytes \<Rightarrow> ('s, 'g, precompile_output) pstep" where
  "success api reservoir output st = (Inr (OutSuccess (gas_used api (fst st)) output reservoir), st)"

definition mint ::
  "('s, 'g) evm_api \<Rightarrow> coin_abi \<Rightarrow> precompile_input \<Rightarrow> arc_hardfork_flags \<Rightarrow> bytes
     \<Rightarrow> ('s, 'g, precompile_output) pstep" where
  "mint api abi pin fl input st =
     (let reservoir = pin_reservoir pin in
     and_then (check_staticcall api pin st) (\<lambda>_ st.
     and_then (decode_args api reservoir (dec_mint abi input) st) (\<lambda>(to, amount) st.
     and_then (early_revert_if api reservoir (pin_caller pin \<noteq> ALLOWED_CALLER_ADDRESS)
                 ''Not enabled native coin minter'' st) (\<lambda>_ st.
     and_then (check_delegatecall api NATIVE_COIN_AUTHORITY_ADDRESS pin fl st) (\<lambda>_ st.
     and_then (early_revert_if api reservoir (to = 0) ''Zero address not allowed'' st) (\<lambda>_ st.
     and_then (is_blocklisted api abi to reservoir st) (\<lambda>blocked st.
     and_then (early_revert_if api reservoir blocked ''Blocked address'' st) (\<lambda>_ st.
     and_then (early_revert_if api reservoir (amount = 0) ''Zero amount invalid'' st) (\<lambda>_ st.
     and_then (read_storage api NATIVE_COIN_AUTHORITY_ADDRESS TOTAL_SUPPLY_STORAGE_KEY reservoir st)
       (\<lambda>total_supply_output st.
     case checked_add (from_be_bytes total_supply_output) amount of
       None \<Rightarrow> (Inl (new_reverted_with_early_penalty api (fst st) reservoir ''Arithmetic overflow''), st)
     | Some new_total_supply \<Rightarrow>
         and_then (write_storage api NATIVE_COIN_AUTHORITY_ADDRESS TOTAL_SUPPLY_STORAGE_KEY
                     (to_be_bytes 32 new_total_supply) reservoir st) (\<lambda>_ st.
         and_then (balance_incr api to amount reservoir st) (\<lambda>_ st.
         and_then (emit_event api (SYSTEM_ADDRESS api) (enc_Transfer abi 0 to amount) reservoir st) (\<lambda>_ st.
         success api reservoir (abi_bool abi True) st)))))))))))))"

definition burn ::
  "('s, 'g) evm_api \<Rightarrow> coin_abi \<Rightarrow> precompile_input \<Rightarrow> arc_hardfork_flags \<Rightarrow> bytes
     \<Rightarrow> ('s, 'g, precompile_output) pstep" where
  "burn api abi pin fl input st =
     (let reservoir = pin_reservoir pin in
     and_then (check_staticcall api pin st) (\<lambda>_ st.
     and_then (decode_args api reservoir (dec_burn abi input) st) (\<lambda>(from, amount) st.
     and_then (early_revert_if api reservoir (pin_caller pin \<noteq> ALLOWED_CALLER_ADDRESS)
                 ''Not enabled native coin burner'' st) (\<lambda>_ st.
     and_then (check_delegatecall api NATIVE_COIN_AUTHORITY_ADDRESS pin fl st) (\<lambda>_ st.
     and_then (early_revert_if api reservoir (from = 0) ''Zero address not allowed'' st) (\<lambda>_ st.
     and_then (is_blocklisted api abi from reservoir st) (\<lambda>blocked st.
     and_then (early_revert_if api reservoir blocked ''Blocked address'' st) (\<lambda>_ st.
     and_then (early_revert_if api reservoir (amount = 0) ''Zero amount invalid'' st) (\<lambda>_ st.
     and_then (balance_decr api from amount reservoir fl st) (\<lambda>_ st.
     and_then (read_storage api NATIVE_COIN_AUTHORITY_ADDRESS TOTAL_SUPPLY_STORAGE_KEY reservoir st)
       (\<lambda>total_supply_output st.
     and_then (write_storage api NATIVE_COIN_AUTHORITY_ADDRESS TOTAL_SUPPLY_STORAGE_KEY
                 (to_be_bytes 32 (saturating_sub (from_be_bytes total_supply_output :: u256) amount))
                 reservoir st) (\<lambda>_ st.
     and_then (emit_event api (SYSTEM_ADDRESS api) (enc_Transfer abi from 0 amount) reservoir st) (\<lambda>_ st.
     success api reservoir (abi_bool abi True) st)))))))))))))"

text \<open>The effect of a transfer: a zero amount moves nothing, a transfer to oneself logs nothing.\<close>

definition transfer_nonzero ::
  "('s, 'g) evm_api \<Rightarrow> coin_abi \<Rightarrow> address \<Rightarrow> address \<Rightarrow> u256 \<Rightarrow> u64 \<Rightarrow> arc_hardfork_flags
     \<Rightarrow> ('s, 'g, unit) pstep" where
  "transfer_nonzero api abi from to amount reservoir fl st =
     (if amount \<noteq> 0
      then and_then (transfer api from to amount reservoir fl st) (\<lambda>_ st.
             if from \<noteq> to
             then emit_event api (SYSTEM_ADDRESS api) (enc_Transfer abi from to amount) reservoir st
             else (Inr (), st))
      else (Inr (), st))"

definition transfer_call ::
  "('s, 'g) evm_api \<Rightarrow> coin_abi \<Rightarrow> precompile_input \<Rightarrow> arc_hardfork_flags \<Rightarrow> bytes
     \<Rightarrow> ('s, 'g, precompile_output) pstep" where
  "transfer_call api abi pin fl input st =
     (let reservoir = pin_reservoir pin in
     and_then (check_staticcall api pin st) (\<lambda>_ st.
     and_then (decode_args api reservoir (dec_transfer abi input) st) (\<lambda>(from, to, amount) st.
     and_then (early_revert_if api reservoir (pin_caller pin \<noteq> ALLOWED_CALLER_ADDRESS)
                 ''Not enabled for native coin transfers'' st) (\<lambda>_ st.
     and_then (check_delegatecall api NATIVE_COIN_AUTHORITY_ADDRESS pin fl st) (\<lambda>_ st.
     and_then (early_revert_if api reservoir (from = 0 \<or> to = 0) ''Zero address not allowed'' st) (\<lambda>_ st.
     and_then (is_blocklisted api abi from reservoir st) (\<lambda>blocked st.
     and_then (early_revert_if api reservoir blocked ''Blocked address'' st) (\<lambda>_ st.
     and_then (is_blocklisted api abi to reservoir st) (\<lambda>blocked st.
     and_then (early_revert_if api reservoir blocked ''Blocked address'' st) (\<lambda>_ st.
     and_then (transfer_nonzero api abi from to amount reservoir fl st) (\<lambda>_ st.
     success api reservoir (abi_bool abi True) st)))))))))))"

definition total_supply_call ::
  "('s, 'g) evm_api \<Rightarrow> coin_abi \<Rightarrow> precompile_input \<Rightarrow> arc_hardfork_flags \<Rightarrow> bytes
     \<Rightarrow> ('s, 'g, precompile_output) pstep" where
  "total_supply_call api abi pin fl input st =
     (let reservoir = pin_reservoir pin in
     and_then (decode_args api reservoir (dec_totalSupply abi input) st) (\<lambda>_ st.
     and_then (check_gas_remaining api reservoir TOTAL_SUPPLY_GAS_COST st) (\<lambda>_ st.
     and_then (read_storage api NATIVE_COIN_AUTHORITY_ADDRESS TOTAL_SUPPLY_STORAGE_KEY reservoir st)
       (\<lambda>total_supply_output st.
     success api reservoir (abi_u256 abi (from_be_bytes total_supply_output)) st))))"

definition run_native_coin_authority ::
  "('s, 'g) evm_api \<Rightarrow> coin_abi \<Rightarrow> precompile_input \<Rightarrow> arc_hardfork_flags \<Rightarrow> 's
     \<Rightarrow> (string + precompile_output) \<times> 's" where
  "run_native_coin_authority api abi pin fl s =
     precompile_dispatch api
       [(sel_mint abi, mint api abi pin fl), (sel_burn abi, burn api abi pin fl),
        (sel_transfer abi, transfer_call api abi pin fl),
        (sel_totalSupply abi, total_supply_call api abi pin fl)] pin s"

section \<open>NativeCoinControl\<close>

definition BLOCKLISTED_EVENT_GAS_COST :: u64 where
  "BLOCKLISTED_EVENT_GAS_COST = LOG_BASE_COST + 2 * LOG_TOPIC_COST"

definition BLOCKLIST_GAS_COST :: u64 where
  "BLOCKLIST_GAS_COST =
     PRECOMPILE_SLOAD_GAS_COST + PRECOMPILE_SSTORE_GAS_COST + BLOCKLISTED_EVENT_GAS_COST"

definition UNBLOCKLISTED_EVENT_GAS_COST :: u64 where
  "UNBLOCKLISTED_EVENT_GAS_COST = LOG_BASE_COST + 2 * LOG_TOPIC_COST"

definition UNBLOCKLIST_GAS_COST :: u64 where
  "UNBLOCKLIST_GAS_COST =
     PRECOMPILE_SLOAD_GAS_COST + PRECOMPILE_SSTORE_GAS_COST + UNBLOCKLISTED_EVENT_GAS_COST"

definition IS_BLOCKLISTED_GAS_COST :: u64 where
  "IS_BLOCKLISTED_GAS_COST = PRECOMPILE_SLOAD_GAS_COST"

definition blocklist_call ::
  "('s, 'g) evm_api \<Rightarrow> coin_abi \<Rightarrow> precompile_input \<Rightarrow> arc_hardfork_flags \<Rightarrow> bytes
     \<Rightarrow> ('s, 'g, precompile_output) pstep" where
  "blocklist_call api abi pin fl input st =
     (let reservoir = pin_reservoir pin in
     and_then (check_staticcall api pin st) (\<lambda>_ st.
     and_then (decode_args api reservoir (dec_blocklist abi input) st) (\<lambda>account st.
     and_then (early_revert_if api reservoir (pin_caller pin \<noteq> ALLOWED_CALLER_ADDRESS)
                 ''Not enabled for blocklisting'' st) (\<lambda>_ st.
     and_then (if flags_is_active fl Zero8
               then check_delegatecall api NATIVE_COIN_CONTROL_ADDRESS pin fl st else (Inr (), st)) (\<lambda>_ st.
     and_then (check_gas_remaining api reservoir (BLOCKLIST_GAS_COST - PRECOMPILE_SLOAD_GAS_COST) st) (\<lambda>_ st.
     and_then (if \<not> flags_is_active fl Zero8
               then check_delegatecall api NATIVE_COIN_CONTROL_ADDRESS pin fl st else (Inr (), st)) (\<lambda>_ st.
     and_then (write_storage api NATIVE_COIN_CONTROL_ADDRESS
                 (compute_is_blocklisted_storage_slot (abi_keccak256 abi) account)
                 (to_be_bytes 32 BLOCKLISTED_STATUS) reservoir st) (\<lambda>_ st.
     and_then (emit_event api NATIVE_COIN_CONTROL_ADDRESS (enc_Blocklisted abi account) reservoir st) (\<lambda>_ st.
     success api reservoir (abi_bool abi True) st)))))))))"

definition is_blocklisted_call ::
  "('s, 'g) evm_api \<Rightarrow> coin_abi \<Rightarrow> precompile_input \<Rightarrow> arc_hardfork_flags \<Rightarrow> bytes
     \<Rightarrow> ('s, 'g, precompile_output) pstep" where
  "is_blocklisted_call api abi pin fl input st =
     (let reservoir = pin_reservoir pin in
     and_then (decode_args api reservoir (dec_isBlocklisted abi input) st) (\<lambda>account st.
     and_then (check_gas_remaining api reservoir IS_BLOCKLISTED_GAS_COST st) (\<lambda>_ st.
     and_then (read_storage api NATIVE_COIN_CONTROL_ADDRESS
                 (compute_is_blocklisted_storage_slot (abi_keccak256 abi) account) reservoir st)
       (\<lambda>storage_output st.
     success api reservoir
       (abi_bool abi (from_be_bytes storage_output \<noteq> UNBLOCKLISTED_STATUS)) st))))"

definition un_blocklist_call ::
  "('s, 'g) evm_api \<Rightarrow> coin_abi \<Rightarrow> precompile_input \<Rightarrow> arc_hardfork_flags \<Rightarrow> bytes
     \<Rightarrow> ('s, 'g, precompile_output) pstep" where
  "un_blocklist_call api abi pin fl input st =
     (let reservoir = pin_reservoir pin in
     and_then (check_staticcall api pin st) (\<lambda>_ st.
     and_then (decode_args api reservoir (dec_unBlocklist abi input) st) (\<lambda>account st.
     and_then (early_revert_if api reservoir (pin_caller pin \<noteq> ALLOWED_CALLER_ADDRESS)
                 ''Not enabled for unblocklisting'' st) (\<lambda>_ st.
     and_then (if flags_is_active fl Zero8
               then check_delegatecall api NATIVE_COIN_CONTROL_ADDRESS pin fl st else (Inr (), st)) (\<lambda>_ st.
     and_then (check_gas_remaining api reservoir (UNBLOCKLIST_GAS_COST - PRECOMPILE_SLOAD_GAS_COST) st) (\<lambda>_ st.
     and_then (if \<not> flags_is_active fl Zero8
               then check_delegatecall api NATIVE_COIN_CONTROL_ADDRESS pin fl st else (Inr (), st)) (\<lambda>_ st.
     and_then (write_storage api NATIVE_COIN_CONTROL_ADDRESS
                 (compute_is_blocklisted_storage_slot (abi_keccak256 abi) account)
                 (to_be_bytes 32 UNBLOCKLISTED_STATUS) reservoir st) (\<lambda>_ st.
     and_then (emit_event api NATIVE_COIN_CONTROL_ADDRESS (enc_UnBlocklisted abi account) reservoir st) (\<lambda>_ st.
     success api reservoir (abi_bool abi True) st)))))))))"

definition run_native_coin_control ::
  "('s, 'g) evm_api \<Rightarrow> coin_abi \<Rightarrow> precompile_input \<Rightarrow> arc_hardfork_flags \<Rightarrow> 's
     \<Rightarrow> (string + precompile_output) \<times> 's" where
  "run_native_coin_control api abi pin fl s =
     precompile_dispatch api
       [(sel_blocklist abi, blocklist_call api abi pin fl),
        (sel_isBlocklisted abi, is_blocklisted_call api abi pin fl),
        (sel_unBlocklist abi, un_blocklist_call api abi pin fl)] pin s"

section \<open>What a successful call has done\<close>

lemma decode_args_Inr: "decode_args api reservoir x st = (Inr a, st') \<longleftrightarrow> x = Some a \<and> st' = st"
  by (auto simp: decode_args_def split: option.splits)

lemma early_revert_if_Inr: "early_revert_if api reservoir b msg st = (Inr u, st') \<longleftrightarrow> \<not> b \<and> st' = st"
  by (auto simp: early_revert_if_def)

lemma success_Inr: "success api reservoir out st = (Inr r, st') \<longleftrightarrow>
    r = OutSuccess (gas_used api (fst st)) out reservoir \<and> st' = st"
  by (auto simp: success_def)

lemma u256_roundtrip [simp]: "from_be_bytes (to_be_bytes 32 (v :: u256)) = v"
  by (rule from_to_be_bytes) simp

definition total_supply :: "('s \<Rightarrow> address \<Rightarrow> storage_key \<Rightarrow> u256) \<Rightarrow> 's \<Rightarrow> u256" where
  "total_supply stor s = stor s NATIVE_COIN_AUTHORITY_ADDRESS TOTAL_SUPPLY_STORAGE_KEY"

definition blocked ::
  "coin_abi \<Rightarrow> ('s \<Rightarrow> address \<Rightarrow> storage_key \<Rightarrow> u256) \<Rightarrow> 's \<Rightarrow> address \<Rightarrow> bool" where
  "blocked abi stor s a \<longleftrightarrow> is_blocklisted_status
     (stor s NATIVE_COIN_CONTROL_ADDRESS (compute_is_blocklisted_storage_slot (abi_keccak256 abi) a))"

lemma is_blocklisted_Inr:
  assumes "load_laws api bal stor" and "is_blocklisted api abi a reservoir st = (Inr b, st')"
  shows "same_view bal stor (snd st) (snd st') \<and> b = blocked abi stor (snd st) a"
  using assms(2) read_storage_Inr [OF assms(1)] unfolding is_blocklisted_def
  by (fastforce elim!: and_then_eq_InrE
      simp: blocked_def is_blocklisted_status_def UNBLOCKLISTED_STATUS_def)

lemma mint_Inr:
  assumes laws: "journal_laws api bal stor"
    and run: "mint api abi pin fl input st = (Inr out, st')"
  shows "\<exists>to amount. dec_mint abi input = Some (to, amount) \<and> pin_caller pin = ALLOWED_CALLER_ADDRESS
    \<and> \<not> pin_is_static pin \<and> to \<noteq> 0 \<and> amount \<noteq> 0 \<and> \<not> blocked abi stor (snd st) to
    \<and> unat (total_supply stor (snd st')) = unat (total_supply stor (snd st)) + unat amount
    \<and> unat (bal (snd st) to) + unat amount < 2 ^ 256
    \<and> bal (snd st') = (bal (snd st))(to := bal (snd st) to + amount)"
proof -
  have ll: "load_laws api bal stor" using laws by (simp add: journal_laws_def)
  obtain to amount st1 bs st2 ns st3 st4 st5 where
    args: "dec_mint abi input = Some (to, amount)" "pin_caller pin = ALLOWED_CALLER_ADDRESS"
      "\<not> pin_is_static pin" "to \<noteq> 0" "amount \<noteq> 0"
    and bl: "is_blocklisted api abi to (pin_reservoir pin) st = (Inr False, st1)"
    and rd: "read_storage api NATIVE_COIN_AUTHORITY_ADDRESS TOTAL_SUPPLY_STORAGE_KEY (pin_reservoir pin) st1
             = (Inr bs, st2)"
    and add: "checked_add (from_be_bytes bs) amount = Some ns"
    and wr: "write_storage api NATIVE_COIN_AUTHORITY_ADDRESS TOTAL_SUPPLY_STORAGE_KEY
               (to_be_bytes 32 ns) (pin_reservoir pin) st2 = (Inr (), st3)"
    and inc: "balance_incr api to amount (pin_reservoir pin) st3 = (Inr (), st4)"
    and ev: "emit_event api (SYSTEM_ADDRESS api) (enc_Transfer abi 0 to amount) (pin_reservoir pin) st4
             = (Inr (), st5)"
    and st': "st' = st5"
    using run unfolding mint_def Let_def
    by (auto elim!: and_then_eq_InrE split: option.splits
        simp: check_staticcall_Inr decode_args_Inr early_revert_if_Inr check_delegatecall_Inr success_Inr)
  note b = is_blocklisted_Inr [OF ll bl] and r = read_storage_Inr [OF ll rd]
    and w = write_storage_Inr [OF laws wr] and i = balance_incr_Inr [OF laws inc]
    and e = emit_event_Inr [OF ll ev]
  have "from_be_bytes bs = total_supply stor (snd st)"
    using b r by (simp add: total_supply_def same_view_def)
  then have "unat ns = unat (total_supply stor (snd st)) + unat amount"
    using add by (simp add: checked_add_iff)
  moreover have "total_supply stor (snd st') = ns"
    using w i e st' by (simp add: total_supply_def same_view_def)
  ultimately show ?thesis
    using args b r w i e st' by (simp add: same_view_def)
qed

lemma burn_Inr:
  assumes laws: "journal_laws api bal stor"
    and run: "burn api abi pin fl input st = (Inr out, st')"
  shows "\<exists>from amount. dec_burn abi input = Some (from, amount) \<and> pin_caller pin = ALLOWED_CALLER_ADDRESS
    \<and> \<not> pin_is_static pin \<and> from \<noteq> 0 \<and> amount \<noteq> 0 \<and> \<not> blocked abi stor (snd st) from
    \<and> unat (total_supply stor (snd st')) = unat (total_supply stor (snd st)) - unat amount
    \<and> amount \<le> bal (snd st) from
    \<and> bal (snd st') = (bal (snd st))(from := bal (snd st) from - amount)"
proof -
  have ll: "load_laws api bal stor" using laws by (simp add: journal_laws_def)
  obtain "from" amount st1 st2 bs st3 st4 st5 where
    args: "dec_burn abi input = Some (from, amount)" "pin_caller pin = ALLOWED_CALLER_ADDRESS"
      "\<not> pin_is_static pin" "from \<noteq> 0" "amount \<noteq> 0"
    and bl: "is_blocklisted api abi from (pin_reservoir pin) st = (Inr False, st1)"
    and dec: "balance_decr api from amount (pin_reservoir pin) fl st1 = (Inr (), st2)"
    and rd: "read_storage api NATIVE_COIN_AUTHORITY_ADDRESS TOTAL_SUPPLY_STORAGE_KEY (pin_reservoir pin) st2
             = (Inr bs, st3)"
    and wr: "write_storage api NATIVE_COIN_AUTHORITY_ADDRESS TOTAL_SUPPLY_STORAGE_KEY
               (to_be_bytes 32 (saturating_sub (from_be_bytes bs :: u256) amount)) (pin_reservoir pin) st3
             = (Inr (), st4)"
    and ev: "emit_event api (SYSTEM_ADDRESS api) (enc_Transfer abi from 0 amount) (pin_reservoir pin) st4
             = (Inr (), st5)"
    and st': "st' = st5"
    using run unfolding burn_def Let_def
    by (auto elim!: and_then_eq_InrE split: option.splits
        simp: check_staticcall_Inr decode_args_Inr early_revert_if_Inr check_delegatecall_Inr success_Inr)
  note b = is_blocklisted_Inr [OF ll bl] and d = balance_decr_Inr [OF laws dec]
    and r = read_storage_Inr [OF ll rd] and w = write_storage_Inr [OF laws wr] and e = emit_event_Inr [OF ll ev]
  have "from_be_bytes bs = total_supply stor (snd st)"
    using b d r by (simp add: total_supply_def same_view_def)
  moreover have "total_supply stor (snd st') = saturating_sub (from_be_bytes bs) amount"
    using w e st' by (simp add: total_supply_def same_view_def)
  ultimately have "unat (total_supply stor (snd st')) = unat (total_supply stor (snd st)) - unat amount"
    by (simp add: unat_saturating_sub)
  then show ?thesis
    using args b d r w e st' by (simp add: same_view_def)
qed

lemma transfer_nonzero_Inr:
  assumes laws: "journal_laws api bal stor"
    and tr: "transfer_nonzero api abi from to amount reservoir fl st = (Inr u, st')"
  shows "stor (snd st') = stor (snd st)
    \<and> (if from = to \<or> amount = 0 then bal (snd st') = bal (snd st)
       else amount \<le> bal (snd st) from \<and> unat (bal (snd st) to) + unat amount < 2 ^ 256
            \<and> bal (snd st') = (bal (snd st))(from := bal (snd st) from - amount, to := bal (snd st) to + amount))"
proof (cases "amount = 0")
  case False
  have ll: "load_laws api bal stor" using laws by (simp add: journal_laws_def)
  from False tr obtain st4 where t: "transfer api from to amount reservoir fl st = (Inr (), st4)"
    and e: "(if from \<noteq> to
             then emit_event api (SYSTEM_ADDRESS api) (enc_Transfer abi from to amount) reservoir st4
             else (Inr (), st4)) = (Inr u, st')"
    unfolding transfer_nonzero_def by (simp split del: if_split) (erule and_then_eq_InrE, simp)
  have v: "same_view bal stor (snd st4) (snd st')"
  proof (cases "from = to")
    case False
    with e emit_event_Inr [OF ll, of _ _ _ st4] show ?thesis by simp
  qed (use e in simp)
  show ?thesis
  proof (cases "from = to")
    case True
    with v transfer_Inr [OF laws t] show ?thesis by (simp add: same_view_def)
  next
    case False
    with v transfer_Inr [OF laws t] \<open>amount \<noteq> 0\<close> show ?thesis by (simp add: same_view_def)
  qed
qed (use tr in \<open>simp add: transfer_nonzero_def\<close>)

lemma transfer_call_Inr:
  assumes laws: "journal_laws api bal stor"
    and run: "transfer_call api abi pin fl input st = (Inr out, st')"
  shows "\<exists>from to amount. dec_transfer abi input = Some (from, to, amount)
    \<and> pin_caller pin = ALLOWED_CALLER_ADDRESS \<and> \<not> pin_is_static pin \<and> from \<noteq> 0 \<and> to \<noteq> 0
    \<and> \<not> blocked abi stor (snd st) from \<and> \<not> blocked abi stor (snd st) to
    \<and> stor (snd st') = stor (snd st)
    \<and> (if from = to \<or> amount = 0 then bal (snd st') = bal (snd st)
       else amount \<le> bal (snd st) from \<and> unat (bal (snd st) to) + unat amount < 2 ^ 256
            \<and> bal (snd st') = (bal (snd st))(from := bal (snd st) from - amount, to := bal (snd st) to + amount))"
proof -
  have ll: "load_laws api bal stor" using laws by (simp add: journal_laws_def)
  obtain "from" to amount st1 st2 where
    args: "dec_transfer abi input = Some (from, to, amount)" "pin_caller pin = ALLOWED_CALLER_ADDRESS"
      "\<not> pin_is_static pin" "from \<noteq> 0" "to \<noteq> 0"
    and bl: "is_blocklisted api abi from (pin_reservoir pin) st = (Inr False, st1)"
    and bl': "is_blocklisted api abi to (pin_reservoir pin) st1 = (Inr False, st2)"
    and tr: "transfer_nonzero api abi from to amount (pin_reservoir pin) fl st2 = (Inr (), st')"
    using run unfolding transfer_call_def Let_def
    by (auto elim!: and_then_eq_InrE split: option.splits
        simp: check_staticcall_Inr decode_args_Inr early_revert_if_Inr check_delegatecall_Inr success_Inr)
  note b = is_blocklisted_Inr [OF ll bl] and b' = is_blocklisted_Inr [OF ll bl']
  have eqs: "bal (snd st2) = bal (snd st)" "stor (snd st2) = stor (snd st)"
    and eq1: "stor (snd st1) = stor (snd st)"
    using b b' by (simp_all add: same_view_def)
  have nb: "\<not> blocked abi stor (snd st) from" "\<not> blocked abi stor (snd st) to"
    using b b' unfolding blocked_def eq1 by auto
  show ?thesis using args nb transfer_nonzero_Inr [OF laws tr, unfolded eqs] by blast
qed

lemma blocklist_call_Inr:
  assumes laws: "journal_laws api bal stor"
    and run: "blocklist_call api abi pin fl input st = (Inr out, st')"
  shows "\<exists>account. dec_blocklist abi input = Some account \<and> pin_caller pin = ALLOWED_CALLER_ADDRESS
    \<and> \<not> pin_is_static pin \<and> bal (snd st') = bal (snd st)
    \<and> stor (snd st') = (stor (snd st))(NATIVE_COIN_CONTROL_ADDRESS := (stor (snd st) NATIVE_COIN_CONTROL_ADDRESS)
        (compute_is_blocklisted_storage_slot (abi_keccak256 abi) account := BLOCKLISTED_STATUS))"
proof -
  have ll: "load_laws api bal stor" using laws by (simp add: journal_laws_def)
  have dc: "(if b then check_delegatecall api a pin fl st else (Inr (), st)) = (Inr u, st') \<Longrightarrow> st' = st"
    for b a u and st st' :: "'b \<times> 'a"
    by (simp add: check_delegatecall_Inr split: if_splits)
  obtain account st1 where
    args: "dec_blocklist abi input = Some account" "pin_caller pin = ALLOWED_CALLER_ADDRESS" "\<not> pin_is_static pin"
    and wr: "write_storage api NATIVE_COIN_CONTROL_ADDRESS
        (compute_is_blocklisted_storage_slot (abi_keccak256 abi) account)
        (to_be_bytes 32 BLOCKLISTED_STATUS) (pin_reservoir pin) st = (Inr (), st1)"
    and ev: "emit_event api NATIVE_COIN_CONTROL_ADDRESS (enc_Blocklisted abi account) (pin_reservoir pin) st1
        = (Inr (), st')"
    using run unfolding blocklist_call_def Let_def
    by (elim and_then_eq_InrE)
      (force simp: check_staticcall_Inr decode_args_Inr early_revert_if_Inr success_Inr
        dest!: dc check_gas_remaining_state)
  with write_storage_Inr [OF laws wr] emit_event_Inr [OF ll ev] show ?thesis
    by (simp add: same_view_def)
qed

lemma un_blocklist_call_Inr:
  assumes laws: "journal_laws api bal stor"
    and run: "un_blocklist_call api abi pin fl input st = (Inr out, st')"
  shows "\<exists>account. dec_unBlocklist abi input = Some account \<and> pin_caller pin = ALLOWED_CALLER_ADDRESS
    \<and> \<not> pin_is_static pin \<and> bal (snd st') = bal (snd st)
    \<and> stor (snd st') = (stor (snd st))(NATIVE_COIN_CONTROL_ADDRESS := (stor (snd st) NATIVE_COIN_CONTROL_ADDRESS)
        (compute_is_blocklisted_storage_slot (abi_keccak256 abi) account := UNBLOCKLISTED_STATUS))"
proof -
  have ll: "load_laws api bal stor" using laws by (simp add: journal_laws_def)
  have dc: "(if b then check_delegatecall api a pin fl st else (Inr (), st)) = (Inr u, st') \<Longrightarrow> st' = st"
    for b a u and st st' :: "'b \<times> 'a"
    by (simp add: check_delegatecall_Inr split: if_splits)
  obtain account st1 where
    args: "dec_unBlocklist abi input = Some account" "pin_caller pin = ALLOWED_CALLER_ADDRESS" "\<not> pin_is_static pin"
    and wr: "write_storage api NATIVE_COIN_CONTROL_ADDRESS
        (compute_is_blocklisted_storage_slot (abi_keccak256 abi) account)
        (to_be_bytes 32 UNBLOCKLISTED_STATUS) (pin_reservoir pin) st = (Inr (), st1)"
    and ev: "emit_event api NATIVE_COIN_CONTROL_ADDRESS (enc_UnBlocklisted abi account) (pin_reservoir pin) st1
        = (Inr (), st')"
    using run unfolding un_blocklist_call_def Let_def
    by (elim and_then_eq_InrE)
      (force simp: check_staticcall_Inr decode_args_Inr early_revert_if_Inr success_Inr
        dest!: dc check_gas_remaining_state)
  with write_storage_Inr [OF laws wr] emit_event_Inr [OF ll ev] show ?thesis
    by (simp add: same_view_def)
qed

lemma total_supply_call_Inr:
  assumes "load_laws api bal stor" and "total_supply_call api abi pin fl input st = (Inr out, st')"
  shows "same_view bal stor (snd st) (snd st')
    \<and> (\<exists>gas. out = OutSuccess gas (abi_u256 abi (total_supply stor (snd st))) (pin_reservoir pin))"
proof -
  obtain bs where rd: "read_storage api NATIVE_COIN_AUTHORITY_ADDRESS TOTAL_SUPPLY_STORAGE_KEY
      (pin_reservoir pin) st = (Inr bs, st')"
    and out: "out = OutSuccess (gas_used api (fst st')) (abi_u256 abi (from_be_bytes bs)) (pin_reservoir pin)"
    using assms(2) unfolding total_supply_call_def Let_def
    by (elim and_then_eq_InrE)
      (force simp: decode_args_Inr success_Inr dest!: check_gas_remaining_state)
  with read_storage_Inr [OF assms(1) rd] show ?thesis by (simp add: total_supply_def)
qed

lemma is_blocklisted_call_Inr:
  assumes "load_laws api bal stor" and "is_blocklisted_call api abi pin fl input st = (Inr out, st')"
  shows "same_view bal stor (snd st) (snd st')
    \<and> (\<exists>gas account. dec_isBlocklisted abi input = Some account
        \<and> out = OutSuccess gas (abi_bool abi (blocked abi stor (snd st) account)) (pin_reservoir pin))"
proof -
  obtain bs account where acc: "dec_isBlocklisted abi input = Some account"
    and rd: "read_storage api NATIVE_COIN_CONTROL_ADDRESS
      (compute_is_blocklisted_storage_slot (abi_keccak256 abi) account) (pin_reservoir pin) st = (Inr bs, st')"
    and out: "out = OutSuccess (gas_used api (fst st'))
      (abi_bool abi (from_be_bytes bs \<noteq> UNBLOCKLISTED_STATUS)) (pin_reservoir pin)"
    using assms(2) unfolding is_blocklisted_call_def Let_def
    by (elim and_then_eq_InrE)
      (force simp: decode_args_Inr success_Inr dest!: check_gas_remaining_state)
  with read_storage_Inr [OF assms(1) rd] show ?thesis
    by (simp add: blocked_def is_blocklisted_status_def UNBLOCKLISTED_STATUS_def)
qed

section \<open>Guards of the arms\<close>

lemma guarded_decode_args [guards]: "J (snd st) \<Longrightarrow> guarded J (decode_args api reservoir x st)"
  by (auto intro!: guards simp: decode_args_def split: option.splits)

lemma guarded_early_revert_if [guards]: "J (snd st) \<Longrightarrow> guarded J (early_revert_if api reservoir b msg st)"
  by (auto intro!: guards simp: early_revert_if_def)

lemma guarded_success [guards]: "J (snd st) \<Longrightarrow> guarded J (success api reservoir out st)"
  by (auto intro!: guards simp: success_def)

lemma guarded_is_blocklisted [guards]:
  "load_closed api J \<Longrightarrow> J (snd st) \<Longrightarrow> guarded J (is_blocklisted api abi a reservoir st)"
  by (auto intro!: guards simp: is_blocklisted_def)

lemma guarded_transfer_nonzero [guards]:
  "update_closed api J \<Longrightarrow> J (snd st) \<Longrightarrow> guarded J (transfer_nonzero api abi from to amount reservoir fl st)"
  by (auto intro!: guards simp: transfer_nonzero_def)

lemma guarded_arms [guards]:
  assumes "update_closed api J" and "J (snd st)"
  shows "guarded J (mint api abi pin fl input st)"
    and "guarded J (burn api abi pin fl input st)"
    and "guarded J (transfer_call api abi pin fl input st)"
    and "guarded J (blocklist_call api abi pin fl input st)"
    and "guarded J (un_blocklist_call api abi pin fl input st)"
  using assms unfolding mint_def burn_def transfer_call_def blocklist_call_def un_blocklist_call_def Let_def
  by (auto intro!: guards split: option.splits)

lemma guarded_views [guards]:
  assumes "load_closed api J" and "J (snd st)"
  shows "guarded J (total_supply_call api abi pin fl input st)"
    and "guarded J (is_blocklisted_call api abi pin fl input st)"
  using assms unfolding total_supply_call_def is_blocklisted_call_def Let_def
  by (auto intro!: guards)

lemma guarded_unauthorised:
  assumes "load_closed api J" and "J (snd st)" and "pin_caller pin \<noteq> ALLOWED_CALLER_ADDRESS"
  shows "guarded J (mint api abi pin fl input st)"
    and "guarded J (burn api abi pin fl input st)"
    and "guarded J (transfer_call api abi pin fl input st)"
    and "guarded J (blocklist_call api abi pin fl input st)"
    and "guarded J (un_blocklist_call api abi pin fl input st)"
  using assms unfolding mint_def burn_def transfer_call_def blocklist_call_def un_blocklist_call_def Let_def
  by (auto intro!: guards simp: early_revert_if_def)

lemma authority_success:
  assumes "run_native_coin_authority api abi pin fl s = (Inr (OutSuccess gas out reservoir), s')"
  shows "\<exists>st'. snd st' = s' \<and>
    (mint api abi pin fl (drop 4 (pin_data pin)) (gas_new api (pin_gas pin), s)
       = (Inr (OutSuccess gas out reservoir), st')
     \<or> burn api abi pin fl (drop 4 (pin_data pin)) (gas_new api (pin_gas pin), s)
       = (Inr (OutSuccess gas out reservoir), st')
     \<or> transfer_call api abi pin fl (drop 4 (pin_data pin)) (gas_new api (pin_gas pin), s)
       = (Inr (OutSuccess gas out reservoir), st')
     \<or> total_supply_call api abi pin fl (drop 4 (pin_data pin)) (gas_new api (pin_gas pin), s)
       = (Inr (OutSuccess gas out reservoir), st'))"
proof -
  have g: "\<forall>(sel, body) \<in> set [(sel_mint abi, mint api abi pin fl), (sel_burn abi, burn api abi pin fl),
        (sel_transfer abi, transfer_call api abi pin fl),
        (sel_totalSupply abi, total_supply_call api abi pin fl)].
        \<forall>input st. guarded (\<lambda>_. True) (body input st)"
    by (auto intro!: guards)
  show ?thesis
    using dispatch_success [OF g assms [unfolded run_native_coin_authority_def]] by auto
qed

lemma control_success:
  assumes "run_native_coin_control api abi pin fl s = (Inr (OutSuccess gas out reservoir), s')"
  shows "\<exists>sel st'. sel = take 4 (pin_data pin) \<and> snd st' = s' \<and>
    (sel = sel_blocklist abi
       \<and> blocklist_call api abi pin fl (drop 4 (pin_data pin)) (gas_new api (pin_gas pin), s)
         = (Inr (OutSuccess gas out reservoir), st')
     \<or> sel = sel_isBlocklisted abi
       \<and> is_blocklisted_call api abi pin fl (drop 4 (pin_data pin)) (gas_new api (pin_gas pin), s)
         = (Inr (OutSuccess gas out reservoir), st')
     \<or> sel = sel_unBlocklist abi
       \<and> un_blocklist_call api abi pin fl (drop 4 (pin_data pin)) (gas_new api (pin_gas pin), s)
         = (Inr (OutSuccess gas out reservoir), st'))"
proof -
  have g: "\<forall>(sel, body) \<in> set [(sel_blocklist abi, blocklist_call api abi pin fl),
        (sel_isBlocklisted abi, is_blocklisted_call api abi pin fl),
        (sel_unBlocklist abi, un_blocklist_call api abi pin fl)].
        \<forall>input st. guarded (\<lambda>_. True) (body input st)"
    by (auto intro!: guards)
  show ?thesis
    using dispatch_success [OF g assms [unfolded run_native_coin_control_def]] by auto
qed

section \<open>An in-memory journal\<close>

text \<open>
  Balances and storage as functions, every account and slot warm: a journal that satisfies
  the laws, and a codec of one-byte arguments, on which the properties are evaluated.
\<close>

type_synonym mem_state = "(address \<Rightarrow> u256) \<times> (address \<Rightarrow> storage_key \<Rightarrow> u256)"

definition mem_api :: "(mem_state, u64 \<times> u64) evm_api" where
  "mem_api =
     \<lparr>api_load_account = (\<lambda>a s. (Inr \<lparr>al_info = \<lparr>ai_balance = fst s a, ai_nonce = 1, ai_code_hash = 0\<rparr>,
        al_is_empty = False, al_is_cold = False, al_is_selfdestructed = False\<rparr>, s)),
      api_load_account_mut = (\<lambda>a s. (Inr (), s)),
      api_sload = (\<lambda>a k b s. (Inr \<lparr>slot_original_value = snd s a k, slot_present_value = snd s a k\<rparr>, s)),
      api_sstore = (\<lambda>a k v s. (Inr (), (fst s, (snd s)(a := (snd s a)(k := v))))),
      api_transfer = (\<lambda>a b v s. if fst s a < v then (Inr (Some OutOfFunds), s)
         else if a = b then (Inr None, s)
         else case checked_add (fst s b) v of None \<Rightarrow> (Inr (Some OverflowPayment), s)
              | Some w \<Rightarrow> (Inr None, ((fst s)(a := fst s a - v, b := w), snd s))),
      api_balance_incr = (\<lambda>a v s. (Inr (), ((fst s)(a := saturating_add (fst s a) v), snd s))),
      api_decr_balance = (\<lambda>a v s. if v \<le> fst s a then (True, ((fst s)(a := fst s a - v), snd s)) else (False, s)),
      api_log = (\<lambda>a d s. s),
      gas_new = (\<lambda>l. (l, l)),
      gas_record = (\<lambda>c g. if c \<le> snd g then (True, (fst g, snd g - c)) else (False, g)),
      gas_remaining = snd,
      gas_used = (\<lambda>g. fst g - snd g),
      gas_spend_all = (\<lambda>g. (fst g, 0)),
      WARM_STORAGE_READ_COST = 100, COLD_SLOAD_COST = 2100, COLD_ACCOUNT_ACCESS_COST = 2600,
      SSTORE_SET = 20000, WARM_SSTORE_RESET = 2900, CALL_STIPEND = 2300, KECCAK_EMPTY = 1,
      SYSTEM_ADDRESS = 0xfffffffffffffffffffffffffffffffffffffffe,
      api_abi_string = map (\<lambda>c. of_char c)\<rparr>"

definition mem_abi :: coin_abi where
  "mem_abi =
     \<lparr>abi_bool = (\<lambda>b. [if b then 1 else 0]), abi_u256 = to_be_bytes 32, abi_keccak256 = (\<lambda>bs. from_be_bytes (take 32 bs)),
      sel_mint = [1, 0, 0, 0], sel_burn = [2, 0, 0, 0], sel_transfer = [3, 0, 0, 0], sel_totalSupply = [4, 0, 0, 0],
      sel_blocklist = [5, 0, 0, 0], sel_isBlocklisted = [6, 0, 0, 0], sel_unBlocklist = [7, 0, 0, 0],
      dec_mint = (\<lambda>bs. case bs of [a, v] \<Rightarrow> Some (ucast a, ucast v) | _ \<Rightarrow> None),
      dec_burn = (\<lambda>bs. case bs of [a, v] \<Rightarrow> Some (ucast a, ucast v) | _ \<Rightarrow> None),
      dec_transfer = (\<lambda>bs. case bs of [a, b, v] \<Rightarrow> Some (ucast a, ucast b, ucast v) | _ \<Rightarrow> None),
      dec_totalSupply = (\<lambda>bs. case bs of [] \<Rightarrow> Some () | _ \<Rightarrow> None),
      dec_blocklist = (\<lambda>bs. case bs of [a] \<Rightarrow> Some (ucast a) | _ \<Rightarrow> None),
      dec_isBlocklisted = (\<lambda>bs. case bs of [a] \<Rightarrow> Some (ucast a) | _ \<Rightarrow> None),
      dec_unBlocklist = (\<lambda>bs. case bs of [a] \<Rightarrow> Some (ucast a) | _ \<Rightarrow> None),
      enc_Transfer = (\<lambda>a b v. \<lparr>ld_topics = [1, ucast a, ucast b], ld_data = to_be_bytes 32 v\<rparr>),
      enc_Blocklisted = (\<lambda>a. \<lparr>ld_topics = [2, ucast a], ld_data = []\<rparr>),
      enc_UnBlocklisted = (\<lambda>a. \<lparr>ld_topics = [3, ucast a], ld_data = []\<rparr>)\<rparr>"

lemma mem_load_laws: "load_laws mem_api fst snd"
  by (auto simp: load_laws_def mem_api_def same_view_def)

lemma mem_journal_laws: "journal_laws mem_api fst snd"
  unfolding journal_laws_def
proof
  have "saturating_add v w = v + w" if "unat v + unat w < 2 ^ 256" for v w :: u256
    using that by (simp add: saturating_add_def checked_add_def)
  then show "update_laws mem_api fst snd"
    by (auto simp: update_laws_def mem_api_def checked_add_def not_less split: if_splits option.splits)
qed (rule mem_load_laws)

definition ex_call :: "bytes \<Rightarrow> address \<Rightarrow> precompile_input" where
  "ex_call bs target = \<lparr>pin_data = bs, pin_gas = 100000, pin_reservoir = 0,
     pin_caller = NATIVE_FIAT_TOKEN_ADDRESS, pin_is_static = False,
     pin_target_address = target, pin_bytecode_address = target\<rparr>"

definition ex_coins :: mem_state where
  "ex_coins = ((\<lambda>_. 0)(7 := 50), (\<lambda>_ _. 0)(NATIVE_COIN_AUTHORITY_ADDRESS := (\<lambda>_. 0)(TOTAL_SUPPLY_STORAGE_KEY := 50)))"

lemma mem_api_simps:
  "api_load_account mem_api a s = (Inr \<lparr>al_info = \<lparr>ai_balance = fst s a, ai_nonce = 1, ai_code_hash = 0\<rparr>,
        al_is_empty = False, al_is_cold = False, al_is_selfdestructed = False\<rparr>, s)"
  "api_load_account_mut mem_api a s = (Inr (), s)"
  "api_sload mem_api a k b s = (Inr \<lparr>slot_original_value = snd s a k, slot_present_value = snd s a k\<rparr>, s)"
  "api_sstore mem_api a k v s = (Inr (), (fst s, (snd s)(a := (snd s a)(k := v))))"
  "api_balance_incr mem_api a v s = (Inr (), ((fst s)(a := saturating_add (fst s a) v), snd s))"
  "api_log mem_api a d s = s" "gas_new mem_api l = (l, l)"
  "gas_remaining mem_api = snd" "gas_used mem_api g = fst g - snd g"
  "WARM_STORAGE_READ_COST mem_api = 100" "SSTORE_SET mem_api = 20000" "WARM_SSTORE_RESET mem_api = 2900"
  "CALL_STIPEND mem_api = 2300"
  by (simp_all add: mem_api_def)

lemma mem_record [simp]: "record_cost_or_out_of_gas mem_api reservoir cost (g, s) =
   (if cost \<le> snd g then (Inr (), ((fst g, snd g - cost), s)) else (Inl (halt_oog reservoir), (g, s)))"
  by (simp add: record_cost_or_out_of_gas_def mem_api_def)

lemma mem_read [simp]: "read_storage mem_api a k reservoir (g, s) =
   (if 100 \<le> snd g then (Inr (to_be_bytes 32 (snd s a k)), ((fst g, snd g - 100), s))
    else (Inl (halt_oog reservoir), (g, s)))"
  by (simp add: read_storage_def journal_def mem_api_simps)

lemma mem_write [simp]: "write_storage mem_api a k bs reservoir (g, s) =
   (let cost = (if from_be_bytes bs = snd s a k then 100 else if snd s a k = 0 then 20000 else 2900) in
    if snd g \<le> 2300 \<or> \<not> cost \<le> snd g then (Inl (halt_oog reservoir), (g, s))
    else (Inr (), ((fst g, snd g - cost), (fst s, (snd s)(a := (snd s a)(k := from_be_bytes bs))))))"
  by (simp add: write_storage_def journal_def mem_api_simps sstore_base_cost_def)

lemma mem_incr [simp]: "balance_incr mem_api to amount reservoir (g, s) =
   (if \<not> 100 \<le> snd g then (Inl (halt_oog reservoir), (g, s))
    else case checked_add (fst s to) amount of
      None \<Rightarrow> (Inl (new_reverted mem_api (fst g, snd g - 100) reservoir ''Arithmetic overflow''), ((fst g, snd g - 100), s))
    | Some v \<Rightarrow>
        if \<not> 2900 \<le> snd g - 100 then (Inl (halt_oog reservoir), ((fst g, snd g - 100), s))
        else (Inr (), ((fst g, snd g - 100 - 2900), ((fst s)(to := v), snd s))))"
  by (simp add: balance_incr_def journal_def mem_api_simps account_load_cost_def PRECOMPILE_SSTORE_GAS_COST_def
      record_empty_account_creation_cost_def saturating_add_def split: option.splits)

lemma mem_success [simp]: "success mem_api reservoir out (g, s) = (Inr (OutSuccess (fst g - snd g) out reservoir), (g, s))"
  by (simp add: success_def mem_api_simps)

lemma mem_emit [simp]: "emit_event mem_api a d reservoir (g, s) =
   (let c = saturating_add (saturating_add LOG_BASE_COST (saturating_mul LOG_TOPIC_COST (of_nat (length (ld_topics d)))))
       (saturating_mul LOG_DATA_COST (of_nat (length (ld_data d)))) in
    if c \<le> snd g then (Inr (), ((fst g, snd g - c), s)) else (Inl (halt_oog reservoir), (g, s)))"
  by (simp add: emit_event_def mem_api_simps Let_def)

lemma mem_abi_simps:
  "abi_bool mem_abi True = [1]" "abi_bool mem_abi False = [0]"
  "sel_mint mem_abi = [1, 0, 0, 0]" "sel_blocklist mem_abi = [5, 0, 0, 0]"
  "dec_mint mem_abi [a, v] = Some (ucast a, ucast v)" "dec_blocklist mem_abi [a] = Some (ucast a)"
  "ld_topics (enc_Transfer mem_abi f t u) = [1, ucast f, ucast t]" "length (ld_data (enc_Transfer mem_abi f t u)) = 32"
  "enc_Blocklisted mem_abi x = \<lparr>ld_topics = [2, ucast x], ld_data = []\<rparr>"
  by (simp_all add: mem_abi_def)

lemma nat_of_be_zeros: "nat_of_be (replicate n 0 @ bs) = nat_of_be bs"
  by (induction n) (simp_all add: nat_of_be_def)

lemma mem_slot [simp]: "compute_is_blocklisted_storage_slot (abi_keccak256 mem_abi) a = ucast a"
proof -
  have "unat a < 256 ^ 20" using unat_lt2p [of a] by simp
  then show ?thesis
    by (simp add: compute_is_blocklisted_storage_slot_def mem_abi_def from_be_bytes_def nat_of_be_zeros
        to_be_bytes_def nat_of_be_be_of_nat)
qed

lemmas mem_eval = precompile_dispatch_def ex_call_def check_staticcall_def decode_args_def
  early_revert_if_def check_delegatecall_def is_blocklisted_def check_gas_remaining_def
  mem_api_simps mem_abi_simps Let_def
  ALLOWED_CALLER_ADDRESS_def UNBLOCKLISTED_STATUS_def BLOCKLISTED_STATUS_def ex_coins_def TOTAL_SUPPLY_STORAGE_KEY_def
  NATIVE_COIN_AUTHORITY_ADDRESS_def NATIVE_COIN_CONTROL_ADDRESS_def
  checked_add_def saturating_add_def saturating_mul_def checked_mul_def
  LOG_TOPIC_COST_def LOG_DATA_COST_def LOG_BASE_COST_def BLOCKLIST_GAS_COST_def
  BLOCKLISTED_EVENT_GAS_COST_def PRECOMPILE_SLOAD_GAS_COST_def PRECOMPILE_SSTORE_GAS_COST_def

section \<open>Properties\<close>

text \<open>The native coin is backed when the balances of all accounts add up to the total supply.\<close>

definition coin_backed ::
  "('s \<Rightarrow> address \<Rightarrow> u256) \<Rightarrow> ('s \<Rightarrow> address \<Rightarrow> storage_key \<Rightarrow> u256) \<Rightarrow> 's \<Rightarrow> bool" where
  "coin_backed bal stor s \<longleftrightarrow> (\<Sum>a\<in>UNIV. unat (bal s a)) = unat (total_supply stor s)"

lemma sum_balance_update:
  fixes f :: "address \<Rightarrow> u256"
  shows "(\<Sum>a\<in>UNIV. unat ((f(x := v)) a)) + unat (f x) = (\<Sum>a\<in>UNIV. unat (f a)) + unat v"
proof -
  have "(\<Sum>a\<in>UNIV. unat ((f(x := v)) a)) = unat v + (\<Sum>a\<in>UNIV - {x}. unat (f a))"
    by (subst sum.remove [of UNIV x]) simp_all
  moreover have "(\<Sum>a\<in>UNIV. unat (f a)) = unat (f x) + (\<Sum>a\<in>UNIV - {x}. unat (f a))"
    by (subst sum.remove [of UNIV x]) simp_all
  ultimately show ?thesis by simp
qed

lemma balance_le_sum: "unat (f x) \<le> (\<Sum>a\<in>UNIV. unat (f a))" for f :: "address \<Rightarrow> u256"
  by (rule member_le_sum) simp_all

lemma mint_backed:
  assumes "journal_laws api bal stor" and "mint api abi pin fl input st = (Inr out, st')"
    and "coin_backed bal stor (snd st)"
  shows "coin_backed bal stor (snd st')"
proof -
  obtain to amount where
    "unat (total_supply stor (snd st')) = unat (total_supply stor (snd st)) + unat amount"
    and fits: "unat (bal (snd st) to) + unat amount < 2 ^ 256"
    and bal': "bal (snd st') = (bal (snd st))(to := bal (snd st) to + amount)"
    using mint_Inr [OF assms(1,2)] by blast
  moreover have "unat (bal (snd st) to + amount) = unat (bal (snd st) to) + unat amount"
    using fits by (simp add: unat_add_fits)
  ultimately show ?thesis
    using assms(3) sum_balance_update [of "bal (snd st)" to "bal (snd st) to + amount"]
    unfolding coin_backed_def bal' by linarith
qed

lemma burn_backed:
  assumes "journal_laws api bal stor" and "burn api abi pin fl input st = (Inr out, st')"
    and "coin_backed bal stor (snd st)"
  shows "coin_backed bal stor (snd st')"
proof -
  obtain "from" amount where
    ts: "unat (total_supply stor (snd st')) = unat (total_supply stor (snd st)) - unat amount"
    and le: "amount \<le> bal (snd st) from"
    and bal': "bal (snd st') = (bal (snd st))(from := bal (snd st) from - amount)"
    using burn_Inr [OF assms(1,2)] by blast
  moreover have "unat (bal (snd st) from - amount) = unat (bal (snd st) from) - unat amount"
    using le by (rule unat_minus_ge)
  moreover have "unat amount \<le> unat (bal (snd st) from)" using le by (simp add: word_le_nat_alt)
  ultimately show ?thesis
    using assms(3) sum_balance_update [of "bal (snd st)" "from" "bal (snd st) from - amount"]
      balance_le_sum [of "bal (snd st)" "from"]
    unfolding coin_backed_def bal' by linarith
qed

lemma transfer_backed:
  assumes "journal_laws api bal stor" and "transfer_call api abi pin fl input st = (Inr out, st')"
    and "coin_backed bal stor (snd st)"
  shows "coin_backed bal stor (snd st')"
proof -
  obtain "from" to amount where stor': "stor (snd st') = stor (snd st)"
    and b: "if from = to \<or> amount = 0 then bal (snd st') = bal (snd st)
       else amount \<le> bal (snd st) from \<and> unat (bal (snd st) to) + unat amount < 2 ^ 256
            \<and> bal (snd st') = (bal (snd st))(from := bal (snd st) from - amount, to := bal (snd st) to + amount)"
    using transfer_call_Inr [OF assms(1,2)] by blast
  show ?thesis
  proof (cases "from = to \<or> amount = 0")
    case True
    with b stor' assms(3) show ?thesis by (simp add: coin_backed_def total_supply_def)
  next
    case False
    let ?f = "bal (snd st)" and ?g = "(bal (snd st))(from := bal (snd st) from - amount)"
    have le: "amount \<le> ?f from" and fits: "unat (?f to) + unat amount < 2 ^ 256"
      and bal': "bal (snd st') = ?g(to := ?f to + amount)" using b False by simp_all
    have "unat (?f from - amount) = unat (?f from) - unat amount" "unat amount \<le> unat (?f from)"
      "unat (?f to + amount) = unat (?f to) + unat amount" "?g to = ?f to"
      using le fits False by (auto simp: unat_minus_ge word_le_nat_alt unat_add_fits)
    with sum_balance_update [of ?f "from" "?f from - amount"] sum_balance_update [of ?g to "?f to + amount"]
    have "(\<Sum>a\<in>UNIV. unat ((?g(to := ?f to + amount)) a)) = (\<Sum>a\<in>UNIV. unat (?f a))" by simp
    then show ?thesis
      using assms(3) stor' unfolding coin_backed_def total_supply_def bal' by simp
  qed
qed

text \<open>
  (C2) Conservation of the native coin: when the balances of all accounts add up to the total
  supply, they still do after any successful call of the authority precompile, be it a mint,
  a burn, a transfer or a query, by any caller and under any hardfork.
\<close>

theorem native_coin_supply_conserved:
  assumes "journal_laws api bal stor"
    and "run_native_coin_authority api abi pin fl s = (Inr (OutSuccess gas out reservoir), s')"
    and "coin_backed bal stor s"
  shows "coin_backed bal stor s'"
proof -
  have ll: "load_laws api bal stor" using assms(1) by (simp add: journal_laws_def)
  show ?thesis
    using authority_success [OF assms(2)] assms(3)
      mint_backed [OF assms(1)] burn_backed [OF assms(1)] transfer_backed [OF assms(1)]
      total_supply_call_Inr [OF ll]
    by (fastforce simp: coin_backed_def total_supply_def same_view_def)
qed

lemma ex_coins_backed: "coin_backed fst snd ex_coins"
proof -
  have "(\<Sum>a\<in>UNIV. unat (((\<lambda>_. 0 :: u256)(7 := 50)) (a :: address))) = 50"
    using sum_balance_update [of "\<lambda>_. 0" 7 50] by simp
  then show ?thesis
    by (simp add: coin_backed_def ex_coins_def total_supply_def)
qed

theorem native_coin_supply_conserved_witness:
  "\<exists>gas s'. run_native_coin_authority mem_api mem_abi
      (ex_call [1, 0, 0, 0, 9, 5] NATIVE_COIN_AUTHORITY_ADDRESS) no_hardforks ex_coins
      = (Inr (OutSuccess gas [1] 0), s')
    \<and> coin_backed fst snd s'"
proof -
  obtain gas s' where "run_native_coin_authority mem_api mem_abi
      (ex_call [1, 0, 0, 0, 9, 5] NATIVE_COIN_AUTHORITY_ADDRESS) no_hardforks ex_coins
      = (Inr (OutSuccess gas [1] 0), s')"
    by (simp add: run_native_coin_authority_def mint_def mem_eval)
  then show ?thesis
    using native_coin_supply_conserved [OF mem_journal_laws _ ex_coins_backed] by (intro exI conjI)
qed

text \<open>
  (C14) A caller other than the fiat token contract changes no balance and no storage slot
  through either precompile, whatever it sends and whatever the outcome of the call is.
\<close>

theorem unauthorised_caller_changes_nothing:
  assumes "load_laws api bal stor" and "pin_caller pin \<noteq> NATIVE_FIAT_TOKEN_ADDRESS"
  shows "same_view bal stor s (snd (run_native_coin_authority api abi pin fl s))
    \<and> same_view bal stor s (snd (run_native_coin_control api abi pin fl s))"
proof -
  let ?J = "same_view bal stor s"
  have "load_closed api ?J" "pin_caller pin \<noteq> ALLOWED_CALLER_ADDRESS"
    using load_closed_same_view [OF assms(1)] assms(2) by (simp_all add: ALLOWED_CALLER_ADDRESS_def)
  then have "\<forall>(sel, body) \<in> set [(sel_mint abi, mint api abi pin fl), (sel_burn abi, burn api abi pin fl),
        (sel_transfer abi, transfer_call api abi pin fl),
        (sel_totalSupply abi, total_supply_call api abi pin fl)].
        \<forall>input st. ?J (snd st) \<longrightarrow> guarded ?J (body input st)"
    and "\<forall>(sel, body) \<in> set [(sel_blocklist abi, blocklist_call api abi pin fl),
        (sel_isBlocklisted abi, is_blocklisted_call api abi pin fl),
        (sel_unBlocklist abi, un_blocklist_call api abi pin fl)].
        \<forall>input st. ?J (snd st) \<longrightarrow> guarded ?J (body input st)"
    by (auto intro!: guarded_unauthorised guarded_views)
  then show ?thesis
    unfolding run_native_coin_authority_def run_native_coin_control_def
    by (intro conjI; intro dispatch_guarded [where J = ?J]) simp_all
qed

theorem unauthorised_caller_changes_nothing_witness:
  "same_view fst snd ex_coins (snd (run_native_coin_authority mem_api mem_abi
     ((ex_call [1, 0, 0, 0, 9, 5] NATIVE_COIN_AUTHORITY_ADDRESS)\<lparr>pin_caller := 1\<rparr>) no_hardforks ex_coins))"
  using unauthorised_caller_changes_nothing [OF mem_load_laws,
      of "(ex_call [1, 0, 0, 0, 9, 5] NATIVE_COIN_AUTHORITY_ADDRESS)\<lparr>pin_caller := 1\<rparr>"]
  by (simp add: ex_call_def NATIVE_FIAT_TOKEN_ADDRESS_def)

text \<open>
  (C28) A blocklisted account is frozen: no successful call of the authority precompile changes
  its balance, so nothing is minted to it, burned from it or moved into or out of it.
\<close>

theorem blocklisted_balance_frozen:
  assumes "journal_laws api bal stor"
    and "run_native_coin_authority api abi pin fl s = (Inr (OutSuccess gas out reservoir), s')"
    and "blocked abi stor s account"
  shows "bal s' account = bal s account"
proof -
  have ll: "load_laws api bal stor" using assms(1) by (simp add: journal_laws_def)
  obtain st' where s': "snd st' = s'" and arms:
    "mint api abi pin fl (drop 4 (pin_data pin)) (gas_new api (pin_gas pin), s)
       = (Inr (OutSuccess gas out reservoir), st')
     \<or> burn api abi pin fl (drop 4 (pin_data pin)) (gas_new api (pin_gas pin), s)
       = (Inr (OutSuccess gas out reservoir), st')
     \<or> transfer_call api abi pin fl (drop 4 (pin_data pin)) (gas_new api (pin_gas pin), s)
       = (Inr (OutSuccess gas out reservoir), st')
     \<or> total_supply_call api abi pin fl (drop 4 (pin_data pin)) (gas_new api (pin_gas pin), s)
       = (Inr (OutSuccess gas out reservoir), st')"
    using authority_success [OF assms(2)] by blast
  from arms show ?thesis
  proof (elim disjE)
    assume "mint api abi pin fl (drop 4 (pin_data pin)) (gas_new api (pin_gas pin), s)
       = (Inr (OutSuccess gas out reservoir), st')"
    from mint_Inr [OF assms(1) this] assms(3) s' show ?thesis by (auto simp: fun_upd_def)
  next
    assume "burn api abi pin fl (drop 4 (pin_data pin)) (gas_new api (pin_gas pin), s)
       = (Inr (OutSuccess gas out reservoir), st')"
    from burn_Inr [OF assms(1) this] assms(3) s' show ?thesis by (auto simp: fun_upd_def)
  next
    assume "transfer_call api abi pin fl (drop 4 (pin_data pin)) (gas_new api (pin_gas pin), s)
       = (Inr (OutSuccess gas out reservoir), st')"
    from transfer_call_Inr [OF assms(1) this] assms(3) s' show ?thesis
      by (auto simp: fun_upd_def split: if_splits)
  next
    assume "total_supply_call api abi pin fl (drop 4 (pin_data pin)) (gas_new api (pin_gas pin), s)
       = (Inr (OutSuccess gas out reservoir), st')"
    from total_supply_call_Inr [OF ll this] s' show ?thesis by (simp add: same_view_def)
  qed
qed

theorem blocklisted_balance_frozen_witness:
  "\<exists>gas s s'. s = (fst ex_coins, (snd ex_coins)(NATIVE_COIN_CONTROL_ADDRESS := (\<lambda>_. 0)(7 := 1)))
    \<and> blocked mem_abi snd s 7
    \<and> run_native_coin_authority mem_api mem_abi
        (ex_call [1, 0, 0, 0, 9, 5] NATIVE_COIN_AUTHORITY_ADDRESS) no_hardforks s
        = (Inr (OutSuccess gas [1] 0), s')
    \<and> fst s' 7 = fst s 7"
proof -
  define s where "s = (fst ex_coins, (snd ex_coins)(NATIVE_COIN_CONTROL_ADDRESS := (\<lambda>_. 0)(7 := 1)))"
  have b: "blocked mem_abi snd s 7" by (simp add: s_def blocked_def is_blocklisted_status_def)
  obtain gas s' where run: "run_native_coin_authority mem_api mem_abi
      (ex_call [1, 0, 0, 0, 9, 5] NATIVE_COIN_AUTHORITY_ADDRESS) no_hardforks s = (Inr (OutSuccess gas [1] 0), s')"
    by (simp add: run_native_coin_authority_def mint_def mem_eval s_def)
  from s_def b run blocklisted_balance_frozen [OF mem_journal_laws run b] show ?thesis by (intro exI conjI)
qed



end
