(* ===== verification/System_Accounting.thy ===== *)
theory System_Accounting
  imports Native_Coin
begin

text \<open>
  The system accounting precompile, \<open>precompiles/src/system_accounting.rs\<close>: the gas values of
  the last blocks in a ring of storage slots, the precompile that writes and reads them, and
  the system calls the block executor makes to it.
\<close>

record gas_values =
  gasUsed :: u64
  gasUsedSmoothed :: u64
  nextBaseFee :: u64

text \<open>The ABI codec of the calls and of their results, the selectors, and Keccak-256.\<close>

record accounting_abi =
  sa_keccak256 :: "bytes \<Rightarrow> u256"
  sa_bool :: "bool \<Rightarrow> bytes"
  sa_gas_values :: "gas_values \<Rightarrow> bytes"
  sel_storeGasValues :: bytes
  sel_getGasValues :: bytes
  dec_storeGasValues :: "bytes \<Rightarrow> (u64 \<times> gas_values) option"
  dec_getGasValues :: "bytes \<Rightarrow> u64 option"
  enc_storeGasValues :: "u64 \<Rightarrow> gas_values \<Rightarrow> bytes"
  enc_getGasValues :: "u64 \<Rightarrow> bytes"
  ret_storeGasValues :: "bytes \<Rightarrow> string + bool"
  ret_getGasValues :: "bytes \<Rightarrow> string + gas_values"

definition SYSTEM_ACCOUNTING_ADDRESS :: address where
  "SYSTEM_ACCOUNTING_ADDRESS = 0x1800000000000000000000000000000000000002"

definition GAS_VALUES_STORAGE_KEY :: storage_key where
  "GAS_VALUES_STORAGE_KEY = 1"

definition GAS_VALUES_RING_BUFFER_SIZE :: u64 where
  "GAS_VALUES_RING_BUFFER_SIZE = 64"

definition compute_gas_values_storage_slot :: "(bytes \<Rightarrow> u256) \<Rightarrow> u64 \<Rightarrow> storage_key" where
  "compute_gas_values_storage_slot keccak256 block_number =
     (let key_value = block_number mod GAS_VALUES_RING_BUFFER_SIZE;
          key_bytes = replicate 24 0 @ to_be_bytes 8 key_value;
          slot_bytes = to_be_bytes 32 GAS_VALUES_STORAGE_KEY
      in keccak256 (key_bytes @ slot_bytes))"

definition pack_gas_values_for_storage :: "gas_values \<Rightarrow> bytes" where
  "pack_gas_values_for_storage g =
     replicate 8 0 @ to_be_bytes 8 (nextBaseFee g) @ to_be_bytes 8 (gasUsedSmoothed g) @ to_be_bytes 8 (gasUsed g)"

definition unpack_gas_values_from_storage :: "bytes \<Rightarrow> gas_values" where
  "unpack_gas_values_from_storage bytes =
     \<lparr>gasUsed = from_be_bytes (take 8 (drop 24 bytes)),
      gasUsedSmoothed = from_be_bytes (take 8 (drop 16 bytes)),
      nextBaseFee = from_be_bytes (take 8 (drop 8 bytes))\<rparr>"

definition store_gas_values_call ::
  "('s, 'g) evm_api \<Rightarrow> accounting_abi \<Rightarrow> precompile_input \<Rightarrow> arc_hardfork_flags \<Rightarrow> bytes
     \<Rightarrow> ('s, 'g, precompile_output) pstep" where
  "store_gas_values_call api abi pin fl input st =
     (let reservoir = pin_reservoir pin in
     and_then (check_staticcall api pin st) (\<lambda>_ st.
     and_then (decode_args api reservoir (dec_storeGasValues abi input) st) (\<lambda>(blockNumber, gasValues) st.
     and_then (early_revert_if api reservoir (pin_caller pin \<noteq> SYSTEM_ADDRESS api) ''Invalid caller'' st) (\<lambda>_ st.
     and_then (check_delegatecall api SYSTEM_ACCOUNTING_ADDRESS pin fl st) (\<lambda>_ st.
     and_then (write_storage api SYSTEM_ACCOUNTING_ADDRESS
                 (compute_gas_values_storage_slot (sa_keccak256 abi) blockNumber)
                 (pack_gas_values_for_storage gasValues) reservoir st) (\<lambda>_ st.
     success api reservoir (sa_bool abi True) st))))))"

definition get_gas_values_call ::
  "('s, 'g) evm_api \<Rightarrow> accounting_abi \<Rightarrow> precompile_input \<Rightarrow> arc_hardfork_flags \<Rightarrow> bytes
     \<Rightarrow> ('s, 'g, precompile_output) pstep" where
  "get_gas_values_call api abi pin fl input st =
     (let reservoir = pin_reservoir pin in
     and_then (decode_args api reservoir (dec_getGasValues abi input) st) (\<lambda>blockNumber st.
     and_then (read_storage api SYSTEM_ACCOUNTING_ADDRESS
                 (compute_gas_values_storage_slot (sa_keccak256 abi) blockNumber) reservoir st) (\<lambda>slot_value st.
     success api reservoir (sa_gas_values abi (unpack_gas_values_from_storage slot_value)) st)))"

definition run_system_accounting ::
  "('s, 'g) evm_api \<Rightarrow> accounting_abi \<Rightarrow> precompile_input \<Rightarrow> arc_hardfork_flags \<Rightarrow> 's
     \<Rightarrow> (string + precompile_output) \<times> 's" where
  "run_system_accounting api abi pin fl s =
     precompile_dispatch api
       [(sel_storeGasValues abi, store_gas_values_call api abi pin fl),
        (sel_getGasValues abi, get_gas_values_call api abi pin fl)] pin s"

section \<open>System calls\<close>

text \<open>
  The machine as the executor sees it: a system call runs on the current database and yields
  a result and a state change without applying it; committing applies a change.
\<close>

record exec_result =
  er_is_success :: bool
  er_output :: "bytes option"

record ('s, 'c, 'e) evm =
  evm_transact_system_call :: "address \<Rightarrow> address \<Rightarrow> bytes \<Rightarrow> 's \<Rightarrow> 'e + exec_result \<times> 'c"
  evm_commit :: "'c \<Rightarrow> 's \<Rightarrow> 's"

datatype 'e system_accounting_error = SaExecution 'e | SaAbiDecode string | SaReverted | SaStoreFailed

definition retrieve_gas_values ::
  "accounting_abi \<Rightarrow> address \<Rightarrow> u64 \<Rightarrow> ('s, 'c, 'e) evm \<Rightarrow> 's \<Rightarrow> 'e system_accounting_error + gas_values" where
  "retrieve_gas_values abi system_caller block_number evm s =
     (case evm_transact_system_call evm system_caller SYSTEM_ACCOUNTING_ADDRESS (enc_getGasValues abi block_number) s of
        Inl e \<Rightarrow> Inl (SaExecution e)
      | Inr (result, _) \<Rightarrow>
          if \<not> er_is_success result then Inl SaReverted
          else case er_output result of
            None \<Rightarrow> Inl (SaAbiDecode ''No values to decode'')
          | Some output \<Rightarrow>
              (case ret_getGasValues abi output of
                 Inl e \<Rightarrow> Inl (SaAbiDecode (''ABI decode error: '' @ e))
               | Inr gas_values \<Rightarrow> Inr gas_values))"

definition store_gas_values ::
  "accounting_abi \<Rightarrow> address \<Rightarrow> u64 \<Rightarrow> gas_values \<Rightarrow> ('s, 'c, 'e) evm \<Rightarrow> 's
     \<Rightarrow> ('e system_accounting_error + 'c) \<times> 's" where
  "store_gas_values abi system_caller block_number gas_values evm s =
     (case evm_transact_system_call evm system_caller SYSTEM_ACCOUNTING_ADDRESS
             (enc_storeGasValues abi block_number gas_values) s of
        Inl e \<Rightarrow> (Inl (SaExecution e), s)
      | Inr (result, state) \<Rightarrow>
          if \<not> er_is_success result then (Inl SaReverted, s)
          else case er_output result of
            None \<Rightarrow> (Inl (SaAbiDecode ''No values to decode''), s)
          | Some output \<Rightarrow>
              (case ret_storeGasValues abi output of
                 Inl e \<Rightarrow> (Inl (SaAbiDecode e), s)
               | Inr decoded \<Rightarrow>
                   if \<not> decoded then (Inl SaStoreFailed, s)
                   else (Inr state, evm_commit evm state s)))"

section \<open>The packed slot\<close>

lemma length_pack [simp]: "length (pack_gas_values_for_storage g) = 32"
  by (simp add: pack_gas_values_for_storage_def)

lemma u64_roundtrip [simp]: "from_be_bytes (to_be_bytes 8 (v :: u64)) = v"
  by (rule from_to_be_bytes) simp

lemma unpack_pack [simp]: "unpack_gas_values_from_storage (pack_gas_values_for_storage g) = g"
  by (simp add: unpack_gas_values_from_storage_def pack_gas_values_for_storage_def)

lemma slot_bytes_roundtrip [simp]:
  "to_be_bytes 32 (from_be_bytes (pack_gas_values_for_storage g) :: u256) = pack_gas_values_for_storage g"
  by (rule to_from_be_bytes) simp_all

section \<open>The ring\<close>

text \<open>The values a block number reads, and the abstract effect of a store on them.\<close>

definition ring ::
  "accounting_abi \<Rightarrow> ('s \<Rightarrow> address \<Rightarrow> storage_key \<Rightarrow> u256) \<Rightarrow> 's \<Rightarrow> u64 \<Rightarrow> gas_values" where
  "ring abi stor s n = unpack_gas_values_from_storage
     (to_be_bytes 32 (stor s SYSTEM_ACCOUNTING_ADDRESS (compute_gas_values_storage_slot (sa_keccak256 abi) n)))"

definition ring_store :: "u64 \<Rightarrow> gas_values \<Rightarrow> (u64 \<Rightarrow> gas_values) \<Rightarrow> u64 \<Rightarrow> gas_values" where
  "ring_store n v r = (\<lambda>m. if m mod 64 = n mod 64 then v else r m)"

text \<open>The hash separates the 64 keys of the ring.\<close>

definition ring_slots_distinct :: "accounting_abi \<Rightarrow> bool" where
  "ring_slots_distinct abi \<longleftrightarrow> (\<forall>m n. compute_gas_values_storage_slot (sa_keccak256 abi) m
     = compute_gas_values_storage_slot (sa_keccak256 abi) n \<longrightarrow> m mod 64 = n mod 64)"

lemma slot_eq_iff:
  assumes "ring_slots_distinct abi"
  shows "compute_gas_values_storage_slot (sa_keccak256 abi) m = compute_gas_values_storage_slot (sa_keccak256 abi) n
    \<longleftrightarrow> m mod 64 = n mod 64"
  using assms
  by (auto simp: ring_slots_distinct_def compute_gas_values_storage_slot_def GAS_VALUES_RING_BUFFER_SIZE_def Let_def)

lemma store_gas_values_call_Inr:
  assumes laws: "journal_laws api bal stor"
    and run: "store_gas_values_call api abi pin fl input st = (Inr out, st')"
  shows "\<exists>n v. dec_storeGasValues abi input = Some (n, v) \<and> pin_caller pin = SYSTEM_ADDRESS api
    \<and> \<not> pin_is_static pin \<and> bal (snd st') = bal (snd st)
    \<and> (\<exists>gas. out = OutSuccess gas (sa_bool abi True) (pin_reservoir pin))
    \<and> stor (snd st') = (stor (snd st))(SYSTEM_ACCOUNTING_ADDRESS := (stor (snd st) SYSTEM_ACCOUNTING_ADDRESS)
        (compute_gas_values_storage_slot (sa_keccak256 abi) n := from_be_bytes (pack_gas_values_for_storage v)))"
proof -
  obtain n v where
    args: "dec_storeGasValues abi input = Some (n, v)" "pin_caller pin = SYSTEM_ADDRESS api" "\<not> pin_is_static pin"
    and wr: "write_storage api SYSTEM_ACCOUNTING_ADDRESS (compute_gas_values_storage_slot (sa_keccak256 abi) n)
        (pack_gas_values_for_storage v) (pin_reservoir pin) st = (Inr (), st')"
    and out: "out = OutSuccess (gas_used api (fst st')) (sa_bool abi True) (pin_reservoir pin)"
    using run unfolding store_gas_values_call_def Let_def
    by (auto elim!: and_then_eq_InrE
        simp: check_staticcall_Inr decode_args_Inr early_revert_if_Inr check_delegatecall_Inr success_Inr)
  with write_storage_Inr [OF laws wr] show ?thesis by blast
qed

lemma get_gas_values_call_Inr:
  assumes laws: "load_laws api bal stor"
    and run: "get_gas_values_call api abi pin fl input st = (Inr out, st')"
  shows "\<exists>n. dec_getGasValues abi input = Some n \<and> same_view bal stor (snd st) (snd st')
    \<and> (\<exists>gas. out = OutSuccess gas (sa_gas_values abi (ring abi stor (snd st) n)) (pin_reservoir pin))"
proof -
  obtain n bs where
    args: "dec_getGasValues abi input = Some n"
    and rd: "read_storage api SYSTEM_ACCOUNTING_ADDRESS (compute_gas_values_storage_slot (sa_keccak256 abi) n)
        (pin_reservoir pin) st = (Inr bs, st')"
    and out: "out = OutSuccess (gas_used api (fst st')) (sa_gas_values abi (unpack_gas_values_from_storage bs))
        (pin_reservoir pin)"
    using run unfolding get_gas_values_call_def Let_def
    by (auto elim!: and_then_eq_InrE simp: decode_args_Inr success_Inr)
  with read_storage_Inr [OF laws rd] show ?thesis by (auto simp: ring_def)
qed

lemma ring_after_store:
  assumes "ring_slots_distinct abi"
    and "stor s' = (stor s)(SYSTEM_ACCOUNTING_ADDRESS := (stor s SYSTEM_ACCOUNTING_ADDRESS)
        (compute_gas_values_storage_slot (sa_keccak256 abi) n := from_be_bytes (pack_gas_values_for_storage v)))"
  shows "ring abi stor s' = ring_store n v (ring abi stor s)"
  using slot_eq_iff [OF assms(1)] by (auto simp: ring_def ring_store_def assms(2) fun_eq_iff)

lemma guarded_accounting [guards]:
  assumes "update_closed api J" and "J (snd st)"
  shows "guarded J (store_gas_values_call api abi pin fl input st)"
    and "guarded J (get_gas_values_call api abi pin fl input st)"
  using assms unfolding store_gas_values_call_def get_gas_values_call_def Let_def
  by (auto intro!: guards)

lemma accounting_success:
  assumes "run_system_accounting api abi pin fl s = (Inr (OutSuccess gas out reservoir), s')"
  shows "\<exists>st'. snd st' = s' \<and>
    (take 4 (pin_data pin) = sel_storeGasValues abi
     \<and> store_gas_values_call api abi pin fl (drop 4 (pin_data pin)) (gas_new api (pin_gas pin), s)
       = (Inr (OutSuccess gas out reservoir), st')
     \<or> take 4 (pin_data pin) = sel_getGasValues abi
     \<and> get_gas_values_call api abi pin fl (drop 4 (pin_data pin)) (gas_new api (pin_gas pin), s)
       = (Inr (OutSuccess gas out reservoir), st'))"
proof -
  have g: "\<forall>(sel, body) \<in> set [(sel_storeGasValues abi, store_gas_values_call api abi pin fl),
        (sel_getGasValues abi, get_gas_values_call api abi pin fl)].
        \<forall>input st. guarded (\<lambda>_. True) (body input st)"
    by (auto intro!: guards)
  show ?thesis
    using dispatch_success [OF g assms [unfolded run_system_accounting_def]] by auto
qed

section \<open>System calls that run the precompile\<close>

text \<open>
  What the system calls rely on: the codec reads back what it wrote, under distinct four-byte
  selectors, and a successful system call to the precompile address is a successful run of
  the precompile whose effect on balances and storage is what a commit applies.
\<close>

definition accounting_codec_laws :: "accounting_abi \<Rightarrow> bool" where
  "accounting_codec_laws abi \<longleftrightarrow>
     length (sel_storeGasValues abi) = 4 \<and> length (sel_getGasValues abi) = 4
     \<and> sel_storeGasValues abi \<noteq> sel_getGasValues abi
     \<and> (\<forall>n v. take 4 (enc_storeGasValues abi n v) = sel_storeGasValues abi
          \<and> dec_storeGasValues abi (drop 4 (enc_storeGasValues abi n v)) = Some (n, v))
     \<and> (\<forall>n. take 4 (enc_getGasValues abi n) = sel_getGasValues abi
          \<and> dec_getGasValues abi (drop 4 (enc_getGasValues abi n)) = Some n)
     \<and> (\<forall>v. ret_getGasValues abi (sa_gas_values abi v) = Inr v)
     \<and> (\<forall>b. ret_storeGasValues abi (sa_bool abi b) = Inr b)"

definition runs_accounting ::
  "('s, 'c, 'e) evm \<Rightarrow> ('s, 'g) evm_api \<Rightarrow> accounting_abi \<Rightarrow> arc_hardfork_flags
     \<Rightarrow> ('s \<Rightarrow> address \<Rightarrow> u256) \<Rightarrow> ('s \<Rightarrow> address \<Rightarrow> storage_key \<Rightarrow> u256) \<Rightarrow> bool" where
  "runs_accounting evm api abi fl bal stor \<longleftrightarrow>
     (\<forall>data s result c.
        evm_transact_system_call evm (SYSTEM_ADDRESS api) SYSTEM_ACCOUNTING_ADDRESS data s = Inr (result, c)
        \<longrightarrow> er_is_success result \<longrightarrow>
        (\<exists>pin gas out reservoir s'. pin_data pin = data
           \<and> run_system_accounting api abi pin fl s = (Inr (OutSuccess gas out reservoir), s')
           \<and> er_output result = Some out \<and> same_view bal stor s' (evm_commit evm c s)))"

lemma ring_same_view: "same_view bal stor s s' \<Longrightarrow> ring abi stor s' = ring abi stor s"
  by (simp add: ring_def same_view_def fun_eq_iff)

lemma run_store_effect:
  assumes "journal_laws api bal stor" and "ring_slots_distinct abi"
    and "sel_storeGasValues abi \<noteq> sel_getGasValues abi"
    and "run_system_accounting api abi pin fl s = (Inr (OutSuccess gas out reservoir), s')"
    and "take 4 (pin_data pin) = sel_storeGasValues abi"
  shows "\<exists>n v. dec_storeGasValues abi (drop 4 (pin_data pin)) = Some (n, v)
    \<and> pin_caller pin = SYSTEM_ADDRESS api \<and> bal s' = bal s \<and> out = sa_bool abi True
    \<and> ring abi stor s' = ring_store n v (ring abi stor s)"
proof -
  obtain st' where st': "snd st' = s'"
    and run: "store_gas_values_call api abi pin fl (drop 4 (pin_data pin)) (gas_new api (pin_gas pin), s)
       = (Inr (OutSuccess gas out reservoir), st')"
    using accounting_success [OF assms(4)] assms(3,5) by auto
  from store_gas_values_call_Inr [OF assms(1) run] st' show ?thesis
    using ring_after_store [OF assms(2), of stor s' s] by auto
qed

lemma run_get_effect:
  assumes "journal_laws api bal stor"
    and "sel_storeGasValues abi \<noteq> sel_getGasValues abi"
    and "run_system_accounting api abi pin fl s = (Inr (OutSuccess gas out reservoir), s')"
    and "take 4 (pin_data pin) = sel_getGasValues abi"
  shows "\<exists>n. dec_getGasValues abi (drop 4 (pin_data pin)) = Some n
    \<and> same_view bal stor s s' \<and> out = sa_gas_values abi (ring abi stor s n)"
proof -
  have ll: "load_laws api bal stor" using assms(1) by (simp add: journal_laws_def)
  obtain st' where st': "snd st' = s'"
    and run: "get_gas_values_call api abi pin fl (drop 4 (pin_data pin)) (gas_new api (pin_gas pin), s)
       = (Inr (OutSuccess gas out reservoir), st')"
    using accounting_success [OF assms(3)] assms(2,4) by auto
  from get_gas_values_call_Inr [OF ll run] st' show ?thesis by auto
qed

lemma store_gas_values_Inr:
  assumes "store_gas_values abi caller n v evm s = (Inr c, s')"
  shows "\<exists>result out. evm_transact_system_call evm caller SYSTEM_ACCOUNTING_ADDRESS (enc_storeGasValues abi n v) s
      = Inr (result, c) \<and> er_is_success result \<and> er_output result = Some out
      \<and> ret_storeGasValues abi out = Inr True \<and> s' = evm_commit evm c s"
  using assms unfolding store_gas_values_def
  by (auto split: sum.splits prod.splits if_splits option.splits)

lemma retrieve_gas_values_Inr:
  assumes "retrieve_gas_values abi caller n evm s = Inr v"
  shows "\<exists>result c out. evm_transact_system_call evm caller SYSTEM_ACCOUNTING_ADDRESS (enc_getGasValues abi n) s
      = Inr (result, c) \<and> er_is_success result \<and> er_output result = Some out
      \<and> ret_getGasValues abi out = Inr v"
  using assms unfolding retrieve_gas_values_def
  by (auto split: sum.splits prod.splits if_splits option.splits)

lemma store_gas_values_ring:
  assumes "journal_laws api bal stor" and "ring_slots_distinct abi" and "accounting_codec_laws abi"
    and "runs_accounting evm api abi fl bal stor"
    and "store_gas_values abi (SYSTEM_ADDRESS api) n v evm s = (Inr c, s')"
  shows "ring abi stor s' = ring_store n v (ring abi stor s) \<and> bal s' = bal s"
proof -
  obtain result out where call: "evm_transact_system_call evm (SYSTEM_ADDRESS api) SYSTEM_ACCOUNTING_ADDRESS
      (enc_storeGasValues abi n v) s = Inr (result, c)" "er_is_success result" "er_output result = Some out"
    and s': "s' = evm_commit evm c s"
    using store_gas_values_Inr [OF assms(5)] by blast
  obtain pin gas reservoir s1 where pin: "pin_data pin = enc_storeGasValues abi n v"
    and run: "run_system_accounting api abi pin fl s = (Inr (OutSuccess gas out reservoir), s1)"
    and v: "same_view bal stor s1 s'"
    using assms(4) call s' unfolding runs_accounting_def by (metis option.inject)
  have laws: "sel_storeGasValues abi \<noteq> sel_getGasValues abi"
    "take 4 (pin_data pin) = sel_storeGasValues abi"
    "dec_storeGasValues abi (drop 4 (pin_data pin)) = Some (n, v)"
    using assms(3) pin by (simp_all add: accounting_codec_laws_def)
  from run_store_effect [OF assms(1,2) laws(1) run laws(2)] laws(3) ring_same_view [OF v] v
  show ?thesis by (auto simp: same_view_def)
qed

lemma retrieve_gas_values_ring:
  assumes "journal_laws api bal stor" and "accounting_codec_laws abi"
    and "runs_accounting evm api abi fl bal stor"
    and "retrieve_gas_values abi (SYSTEM_ADDRESS api) n evm s = Inr v"
  shows "v = ring abi stor s n"
proof -
  obtain result c out where call: "evm_transact_system_call evm (SYSTEM_ADDRESS api) SYSTEM_ACCOUNTING_ADDRESS
      (enc_getGasValues abi n) s = Inr (result, c)" "er_is_success result" "er_output result = Some out"
    and ret: "ret_getGasValues abi out = Inr v"
    using retrieve_gas_values_Inr [OF assms(4)] by blast
  obtain pin gas reservoir s1 where pin: "pin_data pin = enc_getGasValues abi n"
    and run: "run_system_accounting api abi pin fl s = (Inr (OutSuccess gas out reservoir), s1)"
    using assms(3) call unfolding runs_accounting_def by (metis option.inject)
  have laws: "sel_storeGasValues abi \<noteq> sel_getGasValues abi"
    "take 4 (pin_data pin) = sel_getGasValues abi"
    "dec_getGasValues abi (drop 4 (pin_data pin)) = Some n"
    "\<And>v. ret_getGasValues abi (sa_gas_values abi v) = Inr v"
    using assms(2) pin by (simp_all add: accounting_codec_laws_def)
  from run_get_effect [OF assms(1) laws(1) run laws(2)] laws(3,4) ret show ?thesis by auto
qed

section \<open>An in-memory machine\<close>

text \<open>A codec of one-byte numbers and a machine that runs the precompile on the in-memory journal.\<close>

definition mem_accounting_abi :: accounting_abi where
  "mem_accounting_abi =
     \<lparr>sa_keccak256 = (\<lambda>bs. from_be_bytes (take 32 bs)), sa_bool = (\<lambda>b. [if b then 1 else 0]),
      sa_gas_values = pack_gas_values_for_storage,
      sel_storeGasValues = [1, 0, 0, 0], sel_getGasValues = [2, 0, 0, 0],
      dec_storeGasValues = (\<lambda>bs. Some (from_be_bytes (take 8 bs), unpack_gas_values_from_storage (drop 8 bs))),
      dec_getGasValues = (\<lambda>bs. Some (from_be_bytes bs)),
      enc_storeGasValues = (\<lambda>n v. [1, 0, 0, 0] @ to_be_bytes 8 n @ pack_gas_values_for_storage v),
      enc_getGasValues = (\<lambda>n. [2, 0, 0, 0] @ to_be_bytes 8 n),
      ret_storeGasValues = (\<lambda>bs. Inr (bs = [1])),
      ret_getGasValues = (\<lambda>bs. Inr (unpack_gas_values_from_storage bs))\<rparr>"

definition mem_pin :: "bytes \<Rightarrow> precompile_input" where
  "mem_pin data = \<lparr>pin_data = data, pin_gas = 30000000, pin_reservoir = 0,
     pin_caller = SYSTEM_ADDRESS mem_api, pin_is_static = False,
     pin_target_address = SYSTEM_ACCOUNTING_ADDRESS, pin_bytecode_address = SYSTEM_ACCOUNTING_ADDRESS\<rparr>"

definition mem_evm :: "(mem_state, mem_state, string) evm" where
  "mem_evm =
     \<lparr>evm_transact_system_call = (\<lambda>caller target data s.
        case run_system_accounting mem_api mem_accounting_abi (mem_pin data) no_hardforks s of
          (Inr (OutSuccess gas out reservoir), s') \<Rightarrow> Inr (\<lparr>er_is_success = True, er_output = Some out\<rparr>, s')
        | (Inr _, s') \<Rightarrow> Inr (\<lparr>er_is_success = False, er_output = None\<rparr>, s)
        | (Inl e, s') \<Rightarrow> Inl e),
      evm_commit = (\<lambda>c s. c)\<rparr>"

lemma mem_accounting_codec: "accounting_codec_laws mem_accounting_abi"
  by (simp add: accounting_codec_laws_def mem_accounting_abi_def)

lemma mem_runs_accounting: "runs_accounting mem_evm mem_api mem_accounting_abi no_hardforks fst snd"
  unfolding runs_accounting_def
proof (intro allI impI)
  fix data s result c
  assume call: "evm_transact_system_call mem_evm (SYSTEM_ADDRESS mem_api) SYSTEM_ACCOUNTING_ADDRESS data s
      = Inr (result, c)" and "er_is_success result"
  then show "\<exists>pin gas out reservoir s'. pin_data pin = data
      \<and> run_system_accounting mem_api mem_accounting_abi pin no_hardforks s = (Inr (OutSuccess gas out reservoir), s')
      \<and> er_output result = Some out \<and> same_view fst snd s' (evm_commit mem_evm c s)"
    by (intro exI [of _ "mem_pin data"])
      (cases c, auto simp: mem_evm_def mem_pin_def same_view_def split: prod.splits sum.splits precompile_output.splits)
qed

lemma mem_ring_slot:
  "compute_gas_values_storage_slot (sa_keccak256 mem_accounting_abi) n = ucast (n mod 64)"
proof -
  have "unat (n mod 64) < 256 ^ 8" using unat_lt2p [of "n mod 64"] by simp
  then show ?thesis
    by (simp add: compute_gas_values_storage_slot_def mem_accounting_abi_def from_be_bytes_def nat_of_be_zeros
        to_be_bytes_def nat_of_be_be_of_nat GAS_VALUES_RING_BUFFER_SIZE_def Let_def)
qed

lemma mem_ring_slots: "ring_slots_distinct mem_accounting_abi"
proof -
  have "m mod 64 = n mod 64" if "(ucast (m mod 64) :: u256) = ucast (n mod 64)" for m n :: u64
  proof -
    have "unat (ucast x :: u256) = unat x" for x :: u64
      using unat_lt2p [of x] by (simp add: unsigned_ucast_eq take_bit_nat_eq_self)
    with that show ?thesis by (metis word_unat_eq_iff)
  qed
  then show ?thesis by (simp add: ring_slots_distinct_def mem_ring_slot)
qed

section \<open>Properties\<close>

text \<open>
  (C9) Refinement to a ring: a successful store is the abstract ring update at its block
  number and comes from the system caller only, a successful read leaves the ring alone and
  returns its entry; neither touches a balance.
\<close>

theorem accounting_refines_ring:
  assumes "journal_laws api bal stor" and "ring_slots_distinct abi"
    and "sel_storeGasValues abi \<noteq> sel_getGasValues abi"
    and "run_system_accounting api abi pin fl s = (Inr (OutSuccess gas out reservoir), s')"
  shows "bal s' = bal s
    \<and> (if take 4 (pin_data pin) = sel_storeGasValues abi
       then \<exists>n v. dec_storeGasValues abi (drop 4 (pin_data pin)) = Some (n, v)
              \<and> pin_caller pin = SYSTEM_ADDRESS api
              \<and> ring abi stor s' = ring_store n v (ring abi stor s)
       else \<exists>n. dec_getGasValues abi (drop 4 (pin_data pin)) = Some n
              \<and> ring abi stor s' = ring abi stor s
              \<and> out = sa_gas_values abi (ring abi stor s n))"
proof (cases "take 4 (pin_data pin) = sel_storeGasValues abi")
  case True
  with run_store_effect [OF assms True] show ?thesis by auto
next
  case False
  then have "take 4 (pin_data pin) = sel_getGasValues abi"
    using accounting_success [OF assms(4)] by auto
  from run_get_effect [OF assms(1,3,4) this] False show ?thesis
    using ring_same_view [of bal stor s s' abi] by (auto simp: same_view_def)
qed

text \<open>A sequence of store calls, all of them successful.\<close>

fun run_stores ::
  "('s, 'g) evm_api \<Rightarrow> accounting_abi \<Rightarrow> arc_hardfork_flags \<Rightarrow> precompile_input list \<Rightarrow> 's \<Rightarrow> 's option" where
  "run_stores api abi fl [] s = Some s"
| "run_stores api abi fl (pin # pins) s =
     (case run_system_accounting api abi pin fl s of
        (Inr (OutSuccess _ _ _), s') \<Rightarrow> run_stores api abi fl pins s'
      | _ \<Rightarrow> None)"

lemma run_stores_ring:
  assumes "journal_laws api bal stor" and "ring_slots_distinct abi"
    and "sel_storeGasValues abi \<noteq> sel_getGasValues abi"
    and "run_stores api abi fl pins s = Some s'"
    and "\<forall>pin\<in>set pins. take 4 (pin_data pin) = sel_storeGasValues abi"
    and "map (\<lambda>pin. dec_storeGasValues abi (drop 4 (pin_data pin))) pins = map Some nvs"
  shows "ring abi stor s' = fold (\<lambda>(n, v). ring_store n v) nvs (ring abi stor s)"
  using assms(4-6)
proof (induction pins arbitrary: s nvs)
  case (Cons pin pins)
  obtain gas out reservoir s1 where
    run: "run_system_accounting api abi pin fl s = (Inr (OutSuccess gas out reservoir), s1)"
    and rest: "run_stores api abi fl pins s1 = Some s'"
    using Cons.prems(1) by (auto split: prod.splits sum.splits precompile_output.splits)
  obtain n v nvs' where nvs: "nvs = (n, v) # nvs'"
    and dec: "dec_storeGasValues abi (drop 4 (pin_data pin)) = Some (n, v)"
    and decs: "map (\<lambda>pin. dec_storeGasValues abi (drop 4 (pin_data pin))) pins = map Some nvs'"
    using Cons.prems(3) by (cases nvs) auto
  have "ring abi stor s1 = ring_store n v (ring abi stor s)"
    using run_store_effect [OF assms(1-3) run] Cons.prems(2) dec by auto
  with Cons.IH [OF rest _ decs] Cons.prems(2) show ?case by (simp add: nvs)
qed simp

lemma mod_64_window:
  assumes "i < l" and "l < i + 64"
  shows "(k + i) mod 64 \<noteq> (k + l) mod (64 :: nat)"
proof
  assume "(k + i) mod 64 = (k + l) mod 64"
  then have "64 dvd (k + l) - (k + i)" using assms(1) mod_eq_dvd_iff_nat [of "k + i" "k + l" 64] by simp
  then show False using assms by (auto dest: dvd_imp_le)
qed

lemma fold_ring_store_recent:
  assumes "\<And>i. i < length nvs \<Longrightarrow> unat (fst (nvs ! i)) = k + i" and "i < length nvs" and "length nvs \<le> i + 64"
  shows "fold (\<lambda>(n, v). ring_store n v) nvs r (fst (nvs ! i)) = snd (nvs ! i)"
  using assms
proof (induction nvs rule: rev_induct)
  case (snoc nv nvs)
  obtain n v where nv: "nv = (n, v)" by (cases nv)
  have last: "unat n = k + length nvs" using snoc.prems(1) [of "length nvs"] by (simp add: nv)
  show ?case
  proof (cases "i = length nvs")
    case False
    then have i: "i < length nvs" using snoc.prems(2) by simp
    let ?m = "fst (nvs ! i)"
    have m: "unat ?m = k + i" using snoc.prems(1) [of i] i by (simp add: nth_append)
    have "length (nvs @ [nv]) \<le> i + 64" using snoc.prems(3) .
    then have "(k + i) mod 64 \<noteq> (k + length nvs) mod 64" using i by (simp add: mod_64_window)
    then have "unat (?m mod 64) \<noteq> unat (n mod 64)" by (simp add: unat_mod m last)
    then have "?m mod 64 \<noteq> n mod 64" by auto
    moreover have "unat (fst (nvs ! j)) = k + j" if "j < length nvs" for j
      using snoc.prems(1) [of j] that by (simp add: nth_append)
    ultimately show ?thesis
      using snoc.IH i snoc.prems(3) by (simp add: nv ring_store_def nth_append)
  qed (simp add: nv ring_store_def)
qed simp

text \<open>
  (C30) The ring keeps the last 64 blocks: after successful stores for consecutive block
  numbers, each of the last 64 of them reads back exactly the values stored for it.
\<close>

theorem ring_keeps_last_64_blocks:
  assumes "journal_laws api bal stor" and "ring_slots_distinct abi"
    and "sel_storeGasValues abi \<noteq> sel_getGasValues abi"
    and "run_stores api abi fl pins s = Some s'"
    and "\<forall>pin\<in>set pins. take 4 (pin_data pin) = sel_storeGasValues abi"
    and "map (\<lambda>pin. dec_storeGasValues abi (drop 4 (pin_data pin))) pins = map Some nvs"
    and "\<forall>i<length nvs. unat (fst (nvs ! i)) = first + i"
    and "i < length nvs" and "length nvs \<le> i + 64"
  shows "ring abi stor s' (fst (nvs ! i)) = snd (nvs ! i)"
  using run_stores_ring [OF assms(1-6)] fold_ring_store_recent [OF _ assms(8,9)] assms(7) by simp

definition ex_values :: "u64 \<Rightarrow> gas_values" where
  "ex_values g = \<lparr>gasUsed = g, gasUsedSmoothed = g + 1, nextBaseFee = g + 2\<rparr>"

definition ex_store :: "u64 \<Rightarrow> gas_values \<Rightarrow> precompile_input" where
  "ex_store n v = mem_pin (enc_storeGasValues mem_accounting_abi n v)"

lemma ex_store_data [simp]:
  "take 4 (pin_data (ex_store n v)) = sel_storeGasValues mem_accounting_abi"
  "dec_storeGasValues mem_accounting_abi (drop 4 (pin_data (ex_store n v))) = Some (n, v)"
  using mem_accounting_codec by (simp_all add: ex_store_def mem_pin_def accounting_codec_laws_def)

lemma ex_store_runs:
  "\<exists>gas. run_system_accounting mem_api mem_accounting_abi (ex_store n v) no_hardforks s =
     (Inr (OutSuccess gas [1] 0),
      (fst s, (snd s)(SYSTEM_ACCOUNTING_ADDRESS := (snd s SYSTEM_ACCOUNTING_ADDRESS)
        (ucast (n mod 64) := from_be_bytes (pack_gas_values_for_storage v)))))"
proof -
  let ?pin = "ex_store n v"
  have "\<not> length (pin_data ?pin) < 4" "sel_storeGasValues mem_accounting_abi \<noteq> sel_getGasValues mem_accounting_abi"
    "pin_caller ?pin = SYSTEM_ADDRESS mem_api" "pin_target_address ?pin = SYSTEM_ACCOUNTING_ADDRESS"
    "pin_bytecode_address ?pin = SYSTEM_ACCOUNTING_ADDRESS" "\<not> pin_is_static ?pin" "pin_gas ?pin = 30000000"
    "pin_reservoir ?pin = 0" "sa_bool mem_accounting_abi True = [1]"
    by (simp_all add: ex_store_def mem_pin_def mem_accounting_abi_def)
  then show ?thesis
    by (simp add: run_system_accounting_def precompile_dispatch_def store_gas_values_call_def
        check_staticcall_def decode_args_def early_revert_if_def check_delegatecall_def mem_api_simps
        mem_ring_slot Let_def)
qed

lemma ex_store_step:
  "\<exists>s'. run_stores mem_api mem_accounting_abi no_hardforks (ex_store n v # pins) s =
     run_stores mem_api mem_accounting_abi no_hardforks pins s'"
proof -
  obtain gas s' where "run_system_accounting mem_api mem_accounting_abi (ex_store n v) no_hardforks s
      = (Inr (OutSuccess gas [1] 0), s')"
    using ex_store_runs by blast
  then have "run_stores mem_api mem_accounting_abi no_hardforks (ex_store n v # pins) s =
     run_stores mem_api mem_accounting_abi no_hardforks pins s'" by simp
  then show ?thesis by (rule exI)
qed

lemma ex_get_runs:
  "\<exists>gas. run_system_accounting mem_api mem_accounting_abi (mem_pin (enc_getGasValues mem_accounting_abi n))
     no_hardforks s = (Inr (OutSuccess gas (pack_gas_values_for_storage (ring mem_accounting_abi snd s n)) 0), s)"
proof -
  let ?pin = "mem_pin (enc_getGasValues mem_accounting_abi n)"
  have "\<not> length (pin_data ?pin) < 4" "sel_storeGasValues mem_accounting_abi \<noteq> sel_getGasValues mem_accounting_abi"
    "pin_gas ?pin = 30000000" "pin_reservoir ?pin = 0"
    "take 4 (pin_data ?pin) = sel_getGasValues mem_accounting_abi"
    "dec_getGasValues mem_accounting_abi (drop 4 (pin_data ?pin)) = Some n"
    "sa_gas_values mem_accounting_abi = pack_gas_values_for_storage"
    by (simp_all add: mem_pin_def mem_accounting_abi_def)
  then show ?thesis
    by (simp add: run_system_accounting_def precompile_dispatch_def get_gas_values_call_def
        decode_args_def mem_api_simps ring_def Let_def)
qed

theorem ring_keeps_last_64_blocks_witness:
  "\<exists>s'. run_stores mem_api mem_accounting_abi no_hardforks
       [ex_store 63 (ex_values 5), ex_store 64 (ex_values 6)] ex_coins = Some s'
     \<and> ring mem_accounting_abi snd s' 63 = ex_values 5"
proof -
  let ?pins = "[ex_store 63 (ex_values 5), ex_store 64 (ex_values 6)]"
    and ?nvs = "[(63 :: u64, ex_values 5), (64, ex_values 6)]"
  obtain s' where run: "run_stores mem_api mem_accounting_abi no_hardforks ?pins ex_coins = Some s'"
    using ex_store_step [of 63 "ex_values 5" "[ex_store 64 (ex_values 6)]" ex_coins]
      ex_store_step [of 64 "ex_values 6" "[]"] run_stores.simps(1) by metis
  have sel: "sel_storeGasValues mem_accounting_abi \<noteq> sel_getGasValues mem_accounting_abi"
    by (simp add: mem_accounting_abi_def)
  have decs: "\<forall>pin\<in>set ?pins. take 4 (pin_data pin) = sel_storeGasValues mem_accounting_abi"
    "map (\<lambda>pin. dec_storeGasValues mem_accounting_abi (drop 4 (pin_data pin))) ?pins = map Some ?nvs"
    "\<forall>i<length ?nvs. unat (fst (?nvs ! i)) = 63 + i" "0 < length ?nvs" "length ?nvs \<le> 0 + 64"
    by (simp_all add: less_Suc_eq all_conj_distrib)
  have "ring mem_accounting_abi snd s' 63 = ex_values 5"
    using ring_keeps_last_64_blocks [OF mem_journal_laws mem_ring_slots sel run decs] by simp
  with run show ?thesis by (intro exI) (rule conjI)
qed

theorem accounting_refines_ring_witness:
  "\<exists>gas s'. run_system_accounting mem_api mem_accounting_abi (ex_store 63 (ex_values 5)) no_hardforks ex_coins
       = (Inr (OutSuccess gas [1] 0), s')
     \<and> ring mem_accounting_abi snd s' = ring_store 63 (ex_values 5) (ring mem_accounting_abi snd ex_coins)"
proof -
  obtain gas s' where run: "run_system_accounting mem_api mem_accounting_abi (ex_store 63 (ex_values 5))
      no_hardforks ex_coins = (Inr (OutSuccess gas [1] 0), s')"
    using ex_store_runs by blast
  have sel: "sel_storeGasValues mem_accounting_abi \<noteq> sel_getGasValues mem_accounting_abi"
    by (simp add: mem_accounting_abi_def)
  have "ring mem_accounting_abi snd s' = ring_store 63 (ex_values 5) (ring mem_accounting_abi snd ex_coins)"
    using accounting_refines_ring [OF mem_journal_laws mem_ring_slots sel run] by simp
  with run show ?thesis by (intro exI) (rule conjI)
qed

text \<open>
  The system calls of the executor: values stored for a block are what a later retrieval
  of the same ring position returns, and every other position still returns what it held.
\<close>

theorem store_retrieve_roundtrip:
  assumes "journal_laws api bal stor" and "ring_slots_distinct abi" and "accounting_codec_laws abi"
    and "runs_accounting evm api abi fl bal stor"
    and "store_gas_values abi (SYSTEM_ADDRESS api) n v evm s = (Inr c, s')"
    and "retrieve_gas_values abi (SYSTEM_ADDRESS api) m evm s' = Inr w"
    and "retrieve_gas_values abi (SYSTEM_ADDRESS api) m evm s = Inr w0"
  shows "w = (if m mod 64 = n mod 64 then v else w0)"
  using store_gas_values_ring [OF assms(1-5)] retrieve_gas_values_ring [OF assms(1,3,4) assms(6)]
    retrieve_gas_values_ring [OF assms(1,3,4) assms(7)]
  by (simp add: ring_store_def)

lemma mem_store:
  "\<exists>c. store_gas_values mem_accounting_abi (SYSTEM_ADDRESS mem_api) n v mem_evm s = (Inr c, c)"
proof -
  obtain gas s' where "run_system_accounting mem_api mem_accounting_abi
      (mem_pin (enc_storeGasValues mem_accounting_abi n v)) no_hardforks s = (Inr (OutSuccess gas [1] 0), s')"
    using ex_store_runs [of n v s] unfolding ex_store_def by blast
  moreover have "ret_storeGasValues mem_accounting_abi [1] = Inr True" by (simp add: mem_accounting_abi_def)
  ultimately show ?thesis by (simp add: store_gas_values_def mem_evm_def)
qed

lemma mem_retrieve:
  "\<exists>w. retrieve_gas_values mem_accounting_abi (SYSTEM_ADDRESS mem_api) n mem_evm s = Inr w"
proof -
  obtain gas where "run_system_accounting mem_api mem_accounting_abi
      (mem_pin (enc_getGasValues mem_accounting_abi n)) no_hardforks s
      = (Inr (OutSuccess gas (pack_gas_values_for_storage (ring mem_accounting_abi snd s n)) 0), s)"
    using ex_get_runs by blast
  moreover have "ret_getGasValues mem_accounting_abi bs = Inr (unpack_gas_values_from_storage bs)" for bs
    by (simp add: mem_accounting_abi_def)
  ultimately show ?thesis by (simp add: retrieve_gas_values_def mem_evm_def)
qed

theorem store_retrieve_roundtrip_witness:
  "\<exists>s'. store_gas_values mem_accounting_abi (SYSTEM_ADDRESS mem_api) 70 (ex_values 5) mem_evm ex_coins
       = (Inr s', s')
     \<and> retrieve_gas_values mem_accounting_abi (SYSTEM_ADDRESS mem_api) 70 mem_evm s' = Inr (ex_values 5)"
proof -
  obtain c where st: "store_gas_values mem_accounting_abi (SYSTEM_ADDRESS mem_api) 70 (ex_values 5) mem_evm ex_coins
      = (Inr c, c)" using mem_store [of 70 "ex_values 5" ex_coins] ..
  obtain w where w: "retrieve_gas_values mem_accounting_abi (SYSTEM_ADDRESS mem_api) 70 mem_evm c = Inr w"
    using mem_retrieve [of 70 c] ..
  obtain w0 where w0: "retrieve_gas_values mem_accounting_abi (SYSTEM_ADDRESS mem_api) 70 mem_evm ex_coins = Inr w0"
    using mem_retrieve [of 70 ex_coins] ..
  have "w = ex_values 5"
    using store_retrieve_roundtrip [OF mem_journal_laws mem_ring_slots mem_accounting_codec mem_runs_accounting
        st w w0] by simp
  with st w show ?thesis by (intro exI [of _ c] conjI) simp_all
qed

end
