(* ===== verification/Header_Validation.thy ===== *)
theory Header_Validation
  imports Gas_Fee
begin

text \<open>
  Header validation of the execution layer, \<open>execution-validation/src/consensus.rs\<close>. The
  standard checks of the execution library (gas used, base fee presence, parent hash and
  number, blob gas) are arguments; they answer with an error of their own or with nothing.
\<close>

section \<open>Headers and errors\<close>

record header =
  hdr_number :: u64
  hdr_timestamp :: u64
  hdr_gas_limit :: u64
  hdr_gas_used :: u64
  hdr_base_fee_per_gas :: "u64 option"
  hdr_extra_data :: bytes
  hdr_beneficiary :: address
  hdr_parent_hash :: u256

datatype 'e consensus_error =
    TimestampIsInPast u64 u64
  | ParentExtraDataLength nat
  | BaseFeeMissing
  | BaseFeeDiff u64 u64
  | ExtraDataLength nat
  | GasLimitOutsideBounds u64 u64 u64
  | ZeroBeneficiary
  | GasLimitConfigPanic
  | StandardCheck 'e

text \<open>The library checks a header validation calls, and the chain's blob parameters.\<close>

record ('e, 'b) standard_checks =
  std_header_gas :: "header \<Rightarrow> 'e option"
  std_header_base_fee :: "header \<Rightarrow> 'e option"
  std_parent_hash_number :: "header \<Rightarrow> header \<Rightarrow> 'e option"
  std_parent_4844 :: "header \<Rightarrow> header \<Rightarrow> 'b \<Rightarrow> 'e option"
  std_blob_params_at_timestamp :: "u64 \<Rightarrow> 'b option"

definition standard :: "'e option \<Rightarrow> 'e consensus_error + unit" where
  "standard r = (case r of None \<Rightarrow> Inr () | Some e \<Rightarrow> Inl (StandardCheck e))"

text \<open>The \<open>?\<close> operator on checks that return nothing.\<close>

definition check_then :: "'e + unit \<Rightarrow> 'e + unit \<Rightarrow> 'e + unit" where
  "check_then a b = (case a of Inl e \<Rightarrow> Inl e | Inr _ \<Rightarrow> b)"

section \<open>The checks\<close>

definition arc_validate_against_parent_timestamp ::
  "header \<Rightarrow> header \<Rightarrow> 'e consensus_error + unit" where
  "arc_validate_against_parent_timestamp header parent =
     (if hdr_timestamp header < hdr_timestamp parent
      then Inl (TimestampIsInPast (hdr_timestamp parent) (hdr_timestamp header)) else Inr ())"

definition arc_validate_against_parent_base_fee ::
  "header \<Rightarrow> header \<Rightarrow> 'e consensus_error + unit" where
  "arc_validate_against_parent_base_fee header parent =
     (if hdr_number parent = 0 then Inr ()
      else case decode_base_fee_from_bytes (hdr_extra_data parent) of
             None \<Rightarrow> Inl (ParentExtraDataLength (length (hdr_extra_data parent)))
           | Some expected \<Rightarrow>
               (case hdr_base_fee_per_gas header of
                  None \<Rightarrow> Inl BaseFeeMissing
                | Some actual \<Rightarrow>
                    if expected \<noteq> actual then Inl (BaseFeeDiff actual expected) else Inr ()))"

definition arc_validate_extra_data_format :: "header \<Rightarrow> 'e consensus_error + unit" where
  "arc_validate_extra_data_format header =
     (let len = length (hdr_extra_data header)
      in if len \<noteq> 8 then Inl (ExtraDataLength len) else Inr ())"

definition arc_validate_header_base_fee ::
  "('e, 'b) standard_checks \<Rightarrow> (u64 \<Rightarrow> base_fee_config) \<Rightarrow> header \<Rightarrow> 'e consensus_error + unit" where
  "arc_validate_header_base_fee std base_fee_config header =
     check_then (standard (std_header_base_fee std header))
       (case hdr_base_fee_per_gas header of
          None \<Rightarrow> Inr ()
        | Some base_fee \<Rightarrow>
            let config = base_fee_config (hdr_number header);
                clamped = word_clamp base_fee (bf_absolute_min_base_fee config)
                            (bf_absolute_max_base_fee config)
            in if base_fee \<noteq> clamped then Inl (BaseFeeDiff base_fee clamped) else Inr ())"

text \<open>A configuration that the constructor refuses is a panic of the node.\<close>

definition arc_validate_gas_limit_bounds ::
  "(u64 \<Rightarrow> block_gas_limit_config option) \<Rightarrow> header \<Rightarrow> 'e consensus_error + unit" where
  "arc_validate_gas_limit_bounds gas_limit_config header =
     (case gas_limit_config (hdr_number header) of
        None \<Rightarrow> Inl GasLimitConfigPanic
      | Some config \<Rightarrow>
          if hdr_gas_limit header < gl_min config \<or> gl_max config < hdr_gas_limit header
          then Inl (GasLimitOutsideBounds (hdr_gas_limit header) (gl_min config) (gl_max config))
          else Inr ())"

definition arc_validate_beneficiary_nonzero :: "header \<Rightarrow> 'e consensus_error + unit" where
  "arc_validate_beneficiary_nonzero header =
     (if hdr_beneficiary header = 0 then Inl ZeroBeneficiary else Inr ())"

definition validate_header ::
  "('e, 'b) standard_checks \<Rightarrow> u64 \<Rightarrow> header \<Rightarrow> 'e consensus_error + unit" where
  "validate_header std chain_id header =
     check_then (standard (std_header_gas std header))
       (check_then (arc_validate_gas_limit_bounds (block_gas_limit_config_of chain_id) header)
         (check_then (arc_validate_extra_data_format header)
           (check_then (arc_validate_header_base_fee std (base_fee_config_of chain_id) header)
             (arc_validate_beneficiary_nonzero header))))"

definition validate_header_against_parent ::
  "('e, 'b) standard_checks \<Rightarrow> header \<Rightarrow> header \<Rightarrow> 'e consensus_error + unit" where
  "validate_header_against_parent std header parent =
     check_then (standard (std_parent_hash_number std header parent))
       (check_then (arc_validate_against_parent_timestamp header parent)
         (check_then (arc_validate_against_parent_base_fee header parent)
           (case std_blob_params_at_timestamp std (hdr_timestamp header) of
              None \<Rightarrow> Inr ()
            | Some blob_params \<Rightarrow> standard (std_parent_4844 std header parent blob_params))))"

section \<open>Acceptance\<close>

lemma check_then_Inr [simp]: "check_then a b = Inr () \<longleftrightarrow> a = Inr () \<and> b = Inr ()"
  by (cases a) (auto simp: check_then_def)

lemma standard_Inr [simp]: "standard r = Inr () \<longleftrightarrow> r = None"
  by (auto simp: standard_def split: option.split)

lemma parent_timestamp_Inr [simp]:
  "arc_validate_against_parent_timestamp h p = Inr () \<longleftrightarrow> hdr_timestamp p \<le> hdr_timestamp h"
  by (auto simp: arc_validate_against_parent_timestamp_def)

lemma parent_base_fee_Inr:
  "arc_validate_against_parent_base_fee h p = Inr () \<longleftrightarrow>
     hdr_number p = 0
     \<or> (\<exists>f. hdr_base_fee_per_gas h = Some f \<and> hdr_extra_data p = encode_base_fee_to_bytes f)"
  by (auto simp: arc_validate_against_parent_base_fee_def encode_decode_base_fee
      split: option.splits)

lemma extra_data_Inr [simp]:
  "arc_validate_extra_data_format h = Inr () \<longleftrightarrow> length (hdr_extra_data h) = 8"
  by (simp add: arc_validate_extra_data_format_def Let_def)

lemma header_base_fee_Inr:
  "arc_validate_header_base_fee std (base_fee_config_of c) h = Inr () \<longleftrightarrow>
     std_header_base_fee std h = None
     \<and> (case hdr_base_fee_per_gas h of None \<Rightarrow> True
        | Some f \<Rightarrow> 1 \<le> f \<and> f \<le> bf_absolute_max_base_fee (base_fee_config_of c (hdr_number h)))"
proof -
  let ?mx = "bf_absolute_max_base_fee (base_fee_config_of c (hdr_number h))"
  have "f = word_clamp f 1 ?mx \<longleftrightarrow> 1 \<le> f \<and> f \<le> ?mx" for f
    using word_clamp_id_iff [of 1 ?mx f] base_fee_configs_sane [of c "hdr_number h"] by auto
  then show ?thesis
    using base_fee_configs_sane(1) [of c "hdr_number h"]
    by (simp add: arc_validate_header_base_fee_def Let_def split: option.split)
qed

lemma gas_limit_Inr:
  "arc_validate_gas_limit_bounds cfgs h = Inr () \<longleftrightarrow>
     (\<exists>cfg. cfgs (hdr_number h) = Some cfg \<and> gl_min cfg \<le> hdr_gas_limit h \<and> hdr_gas_limit h \<le> gl_max cfg)"
  by (auto simp: arc_validate_gas_limit_bounds_def not_less split: option.splits)

lemma beneficiary_Inr [simp]: "arc_validate_beneficiary_nonzero h = Inr () \<longleftrightarrow> hdr_beneficiary h \<noteq> 0"
  by (simp add: arc_validate_beneficiary_nonzero_def)

text \<open>A chain of headers, the oldest first, each accepted against the one before.\<close>

fun valid_chain :: "('e, 'b) standard_checks \<Rightarrow> header list \<Rightarrow> bool" where
  "valid_chain std [] = True"
| "valid_chain std [h] = True"
| "valid_chain std (p # h # hs) \<longleftrightarrow>
     validate_header_against_parent std h p = Inr () \<and> valid_chain std (h # hs)"

lemma against_parent_Inr:
  "validate_header_against_parent std h p = Inr () \<Longrightarrow>
     hdr_timestamp p \<le> hdr_timestamp h
     \<and> (hdr_number p = 0
        \<or> (\<exists>f. hdr_base_fee_per_gas h = Some f \<and> hdr_extra_data p = encode_base_fee_to_bytes f))"
  by (simp add: validate_header_against_parent_def parent_base_fee_Inr)

definition permissive_checks :: "(unit, unit) standard_checks" where
  "permissive_checks =
     \<lparr>std_header_gas = (\<lambda>h. if hdr_gas_used h \<le> hdr_gas_limit h then None else Some ()),
      std_header_base_fee = (\<lambda>h. if hdr_base_fee_per_gas h = None then Some () else None),
      std_parent_hash_number = (\<lambda>h p. if hdr_number h = hdr_number p + 1 then None else Some ()),
      std_parent_4844 = (\<lambda>_ _ _. None), std_blob_params_at_timestamp = (\<lambda>_. None)\<rparr>"

definition ex_header :: "u64 \<Rightarrow> u64 \<Rightarrow> u64 \<Rightarrow> u64 \<Rightarrow> header" where
  "ex_header n ts fee next_fee =
     \<lparr>hdr_number = n, hdr_timestamp = ts, hdr_gas_limit = 30000000, hdr_gas_used = 5,
      hdr_base_fee_per_gas = Some fee, hdr_extra_data = encode_base_fee_to_bytes next_fee,
      hdr_beneficiary = 9, hdr_parent_hash = 0\<rparr>"

section \<open>Properties\<close>

text \<open>
  (C27) A header is accepted exactly when the standard checks accept it, its gas limit is
  within the bounds of its chain, its extra data has eight bytes, a present base fee lies
  between one and the chain's absolute maximum, and its beneficiary is not the zero address.
\<close>

theorem validate_header_iff:
  "validate_header std chain_id h = Inr () \<longleftrightarrow>
     std_header_gas std h = None \<and> std_header_base_fee std h = None
     \<and> (\<exists>cfg. block_gas_limit_config_of chain_id (hdr_number h) = Some cfg
          \<and> gl_min cfg \<le> hdr_gas_limit h \<and> hdr_gas_limit h \<le> gl_max cfg)
     \<and> length (hdr_extra_data h) = 8
     \<and> (case hdr_base_fee_per_gas h of None \<Rightarrow> True
        | Some f \<Rightarrow> 1 \<le> f \<and> f \<le> bf_absolute_max_base_fee (base_fee_config_of chain_id (hdr_number h)))
     \<and> hdr_beneficiary h \<noteq> 0"
  by (auto simp: validate_header_def gas_limit_Inr header_base_fee_Inr)



end
