(* ===== verification/Block_Executor.thy ===== *)
theory Block_Executor
  imports System_Accounting Header_Validation
begin

text \<open>
  Block execution, \<open>evm/src/executor.rs\<close>, with the fee parameter query of
  \<open>execution-config/src/protocol_config.rs\<close>: the checks before the transactions, the gas
  bookkeeping per transaction, the gas values written after the transactions, and the state
  hook protocol. The virtual machine, the receipt builder and the library system calls are
  the record \<open>block_machine\<close>. A panic of the source is the error \<open>Panicked\<close>.
\<close>

section \<open>The machine and the executor\<close>

record 'x executable_tx =
  tx_env :: 'x
  tx_gas_limit :: u64
  tx_blob_gas_used :: "u64 option"
  tx_type :: nat
  tx_trie_hash :: u256

record ('s, 'c, 'e, 'x, 'r, 'p) block_machine =
  bm_evm :: "('s, 'c, 'e) evm"
  bm_abi :: accounting_abi
  bm_system_address :: address
  bm_keccak256 :: "bytes \<Rightarrow> u256"
  bm_enc_feeParams :: bytes
  bm_ret_feeParams :: "bytes \<Rightarrow> string + fee_params"
  bm_storage :: "address \<Rightarrow> storage_key \<Rightarrow> 's \<Rightarrow> 'e + u256"
  bm_blockhashes :: "u256 \<Rightarrow> 's \<Rightarrow> 'e + ('c option \<times> 's)"
  bm_transact :: "'x \<Rightarrow> 's \<Rightarrow> 'e + ('r \<times> 'c)"
  bm_tx_gas_used :: "'r \<Rightarrow> u64"
  bm_build_receipt :: "nat \<Rightarrow> 's \<Rightarrow> 'r \<Rightarrow> 'c \<Rightarrow> u64 \<Rightarrow> 'p"

record block_info =
  bi_number :: u256
  bi_gas_limit :: u64
  bi_basefee :: u64
  bi_beneficiary :: address

record execution_ctx =
  ctx_parent_hash :: u256
  ctx_extra_data :: bytes

datatype 'e block_execution_error =
    BlockNumberConversionFailed
  | BlockhashesCallFailed 'e
  | BeneficiaryReadFailed 'e
  | BeneficiaryBlocklisted
  | BlockGasLimitMismatch u64 u64
  | TransactionGasLimitMoreThanAvailableBlockGas u64 u64
  | EvmFailed 'e u256
  | ExtraDataBaseFeeMismatch u64 u64 "u64 option"
  | AccountingFailed "'e system_accounting_error"
  | Panicked string

datatype state_change_source = SourceBlockHashes | SourceTransaction nat | SourcePostBlock

text \<open>
  The executor: the database behind its machine, its counters and flags, whether the system
  caller has a hook, and the state changes that hook has been notified of.
\<close>

record ('s, 'c, 'e, 'p) executor =
  x_db :: 's
  x_receipts :: "'p list"
  x_gas_used :: u64
  x_blob_gas_used :: u64
  x_state_hook_active :: bool
  x_post_block_applied :: bool
  x_post_block_error :: "'e block_execution_error option"
  x_hook_installed :: bool
  x_notified :: "(state_change_source \<times> 'c) list"

definition executor_new :: "'s \<Rightarrow> ('s, 'c, 'e, 'p) executor" where
  "executor_new db =
     \<lparr>x_db = db, x_receipts = [], x_gas_used = 0, x_blob_gas_used = 0, x_state_hook_active = False,
      x_post_block_applied = False, x_post_block_error = None, x_hook_installed = False, x_notified = []\<rparr>"

text \<open>Notifying the hook of the system caller, when there is one.\<close>

definition on_state ::
  "state_change_source \<Rightarrow> 'c \<Rightarrow> ('s, 'c, 'e, 'p) executor \<Rightarrow> ('s, 'c, 'e, 'p) executor" where
  "on_state source state x =
     (if x_hook_installed x then x\<lparr>x_notified := x_notified x @ [(source, state)]\<rparr> else x)"

definition block_number_u64 :: "block_info \<Rightarrow> 'e block_execution_error + u64" where
  "block_number_u64 bi =
     (case try_from (bi_number bi) of None \<Rightarrow> Inl BlockNumberConversionFailed | Some n \<Rightarrow> Inr n)"

section \<open>Queries\<close>

datatype 'e protocol_config_error =
    PcSystemCallFailed exec_result | PcEmptyOutput | PcDecodingError string | PcEvmError 'e

definition PROTOCOL_CONFIG_ADDRESS :: address where
  "PROTOCOL_CONFIG_ADDRESS = 0x3600000000000000000000000000000000000001"

definition retrieve_fee_params ::
  "('s, 'c, 'e, 'x, 'r, 'p) block_machine \<Rightarrow> 's \<Rightarrow> 'e protocol_config_error + fee_params" where
  "retrieve_fee_params m db =
     (case evm_transact_system_call (bm_evm m) (bm_system_address m) PROTOCOL_CONFIG_ADDRESS (bm_enc_feeParams m) db of
        Inl e \<Rightarrow> Inl (PcEvmError e)
      | Inr (result, _) \<Rightarrow>
          if \<not> er_is_success result then Inl (PcSystemCallFailed result)
          else case er_output result of
            None \<Rightarrow> Inl PcEmptyOutput
          | Some output \<Rightarrow>
              (case bm_ret_feeParams m output of Inl e \<Rightarrow> Inl (PcDecodingError e) | Inr fp \<Rightarrow> Inr fp))"

definition ok :: "'e + 'a \<Rightarrow> 'a option" where
  "ok r = (case r of Inl _ \<Rightarrow> None | Inr a \<Rightarrow> Some a)"

definition validate_beneficiary_not_blocklisted ::
  "('s, 'c, 'e, 'x, 'r, 'p) block_machine \<Rightarrow> 's \<Rightarrow> address \<Rightarrow> 'e block_execution_error + unit" where
  "validate_beneficiary_not_blocklisted m db header_beneficiary =
     (case bm_storage m NATIVE_COIN_CONTROL_ADDRESS
             (compute_is_blocklisted_storage_slot (bm_keccak256 m) header_beneficiary) db of
        Inl e \<Rightarrow> Inl (BeneficiaryReadFailed e)
      | Inr status \<Rightarrow> if is_blocklisted_status status then Inl BeneficiaryBlocklisted else Inr ())"

definition validate_extra_data_base_fee ::
  "execution_ctx \<Rightarrow> u64 \<Rightarrow> u64 \<Rightarrow> 'e block_execution_error + unit" where
  "validate_extra_data_base_fee ctx block_number expected_next_base_fee =
     (let extra_data_base_fee = decode_base_fee_from_bytes (ctx_extra_data ctx)
      in if extra_data_base_fee \<noteq> Some expected_next_base_fee
         then Inl (ExtraDataBaseFeeMismatch block_number expected_next_base_fee extra_data_base_fee)
         else Inr ())"

definition compute_gas_values ::
  "('s, 'c, 'e, 'x, 'r, 'p) block_machine \<Rightarrow> u64 \<Rightarrow> block_info \<Rightarrow> u64 \<Rightarrow> fee_params option
     \<Rightarrow> ('s, 'c, 'e, 'p) executor \<Rightarrow> 'e block_execution_error + gas_values" where
  "compute_gas_values m chain_id bi block_number fee_params x =
     (case checked_add block_number 1 of
        None \<Rightarrow> Inl (Panicked ''block number overflow'')
      | Some next_number \<Rightarrow>
          let base_fee_config = base_fee_config_of chain_id next_number;
              calc = resolve_calc_params base_fee_config fee_params;
              parent_block_number = saturating_sub block_number 1
          in case retrieve_gas_values (bm_abi m) (bm_system_address m) parent_block_number (bm_evm m) (x_db x) of
               Inl e \<Rightarrow> Inl (AccountingFailed e)
             | Inr parent_gas_values \<Rightarrow>
                 let smoothed_gas_used =
                       (case determine_ema_parent_gas_used (gasUsedSmoothed parent_gas_values) (x_gas_used x)
                               (calc_alpha calc) of
                          Some g \<Rightarrow> g | None \<Rightarrow> x_gas_used x);
                     raw_next_base_fee =
                       arc_calc_next_block_base_fee smoothed_gas_used (bi_gas_limit bi) (bi_basefee bi)
                         (calc_k_rate calc) (calc_inverse_elasticity_multiplier calc);
                     clamped =
                       (case fee_params of
                          Some fp \<Rightarrow> determine_bounded_base_fee fp raw_next_base_fee
                        | None \<Rightarrow> raw_next_base_fee);
                     next_base_fee = clamp_absolute base_fee_config clamped
                 in Inr \<lparr>gasUsed = x_gas_used x, gasUsedSmoothed = smoothed_gas_used, nextBaseFee = next_base_fee\<rparr>)"

section \<open>Operations\<close>

definition apply_post_block_writes ::
  "('s, 'c, 'e, 'x, 'r, 'p) block_machine \<Rightarrow> u64 \<Rightarrow> block_info \<Rightarrow> execution_ctx
     \<Rightarrow> ('s, 'c, 'e, 'p) executor \<Rightarrow> ('e block_execution_error + unit) \<times> ('s, 'c, 'e, 'p) executor" where
  "apply_post_block_writes m chain_id bi ctx x =
     (if x_post_block_applied x then (Inr (), x)
      else
        and_then (block_number_u64 bi, x) (\<lambda>block_number x.
        let fee_params = ok (retrieve_fee_params m (x_db x)) in
        and_then (compute_gas_values m chain_id bi block_number fee_params x, x) (\<lambda>gas_values x.
        and_then ((if ctx_extra_data ctx \<noteq> []
                   then validate_extra_data_base_fee ctx block_number (nextBaseFee gas_values)
                   else Inr ()), x) (\<lambda>_ x.
        case store_gas_values (bm_abi m) (bm_system_address m) block_number gas_values (bm_evm m) (x_db x) of
          (Inl e, db) \<Rightarrow> (Inl (AccountingFailed e), x\<lparr>x_db := db\<rparr>)
        | (Inr state, db) \<Rightarrow>
            (Inr (), (on_state SourcePostBlock state (x\<lparr>x_db := db\<rparr>))\<lparr>x_post_block_applied := True\<rparr>)))))"

definition apply_pre_execution_changes ::
  "('s, 'c, 'e, 'x, 'r, 'p) block_machine \<Rightarrow> u64 \<Rightarrow> block_info \<Rightarrow> execution_ctx
     \<Rightarrow> ('s, 'c, 'e, 'p) executor \<Rightarrow> ('e block_execution_error + unit) \<times> ('s, 'c, 'e, 'p) executor" where
  "apply_pre_execution_changes m chain_id bi ctx x =
     and_then (block_number_u64 bi, x) (\<lambda>block_number x.
     and_then (case bm_blockhashes m (ctx_parent_hash ctx) (x_db x) of
                 Inl e \<Rightarrow> (Inl (BlockhashesCallFailed e), x)
               | Inr (None, db) \<Rightarrow> (Inr (), x\<lparr>x_db := db\<rparr>)
               | Inr (Some state, db) \<Rightarrow> (Inr (), on_state SourceBlockHashes state (x\<lparr>x_db := db\<rparr>))) (\<lambda>_ x.
     and_then (validate_beneficiary_not_blocklisted m (x_db x) (bi_beneficiary bi), x) (\<lambda>_ x.
     let block_gas_limit = bi_gas_limit bi;
         fee_params = ok (retrieve_fee_params m (x_db x))
     in case block_gas_limit_config_of chain_id block_number of
          None \<Rightarrow> (Inl (Panicked ''invalid block gas limit config''), x)
        | Some gas_limit_config \<Rightarrow>
            let expected = expected_gas_limit fee_params gas_limit_config
            in if block_gas_limit \<noteq> expected then (Inl (BlockGasLimitMismatch block_gas_limit expected), x)
               else (Inr (), x))))"

record ('r, 'c) arc_tx_result =
  atr_result :: 'r
  atr_state :: 'c
  atr_blob_gas_used :: u64
  atr_tx_type :: nat

definition execute_transaction_without_commit ::
  "('s, 'c, 'e, 'x, 'r, 'p) block_machine \<Rightarrow> block_info \<Rightarrow> 'x executable_tx
     \<Rightarrow> ('s, 'c, 'e, 'p) executor \<Rightarrow> 'e block_execution_error + ('r, 'c) arc_tx_result" where
  "execute_transaction_without_commit m bi tx x =
     (case checked_sub (bi_gas_limit bi) (x_gas_used x) of
        None \<Rightarrow> Inl (Panicked ''gas_used must not exceed block gas_limit'')
      | Some block_available_gas \<Rightarrow>
          if block_available_gas < tx_gas_limit tx
          then Inl (TransactionGasLimitMoreThanAvailableBlockGas (tx_gas_limit tx) block_available_gas)
          else case bm_transact m (tx_env tx) (x_db x) of
            Inl err \<Rightarrow> Inl (EvmFailed err (tx_trie_hash tx))
          | Inr (result, state) \<Rightarrow>
              Inr \<lparr>atr_result = result, atr_state = state,
                   atr_blob_gas_used = (case tx_blob_gas_used tx of None \<Rightarrow> 0 | Some b \<Rightarrow> b),
                   atr_tx_type = tx_type tx\<rparr>)"

definition commit_transaction ::
  "('s, 'c, 'e, 'x, 'r, 'p) block_machine \<Rightarrow> ('r, 'c) arc_tx_result
     \<Rightarrow> ('s, 'c, 'e, 'p) executor \<Rightarrow> ('e block_execution_error + u64) \<times> ('s, 'c, 'e, 'p) executor" where
  "commit_transaction m output x =
     (let x = on_state (SourceTransaction (length (x_receipts x))) (atr_state output) x;
          gas_used = bm_tx_gas_used m (atr_result output)
      in case checked_add (x_gas_used x) gas_used of
           None \<Rightarrow> (Inl (Panicked ''cumulative gas overflow''), x)
         | Some cumulative_gas_used \<Rightarrow>
             (Inr gas_used,
              x\<lparr>x_gas_used := cumulative_gas_used,
                x_blob_gas_used := saturating_add (x_blob_gas_used x) (atr_blob_gas_used output),
                x_receipts := x_receipts x @
                  [bm_build_receipt m (atr_tx_type output) (x_db x) (atr_result output) (atr_state output) cumulative_gas_used],
                x_db := evm_commit (bm_evm m) (atr_state output) (x_db x)\<rparr>))"

record 'p block_execution_result =
  ber_receipts :: "'p list"
  ber_gas_used :: u64
  ber_blob_gas_used :: u64

definition finish ::
  "('s, 'c, 'e, 'x, 'r, 'p) block_machine \<Rightarrow> u64 \<Rightarrow> block_info \<Rightarrow> execution_ctx
     \<Rightarrow> ('s, 'c, 'e, 'p) executor
     \<Rightarrow> ('e block_execution_error + 'p block_execution_result) \<times> ('s, 'c, 'e, 'p) executor" where
  "finish m chain_id bi ctx x =
     (case x_post_block_error x of
        Some err \<Rightarrow> (Inl err, x\<lparr>x_post_block_error := None\<rparr>)
      | None \<Rightarrow>
          and_then (apply_post_block_writes m chain_id bi ctx x) (\<lambda>_ x.
            (Inr \<lparr>ber_receipts = x_receipts x, ber_gas_used = x_gas_used x,
                  ber_blob_gas_used = x_blob_gas_used x\<rparr>, x)))"

definition set_state_hook ::
  "('s, 'c, 'e, 'x, 'r, 'p) block_machine \<Rightarrow> u64 \<Rightarrow> block_info \<Rightarrow> execution_ctx \<Rightarrow> bool
     \<Rightarrow> ('s, 'c, 'e, 'p) executor \<Rightarrow> ('s, 'c, 'e, 'p) executor" where
  "set_state_hook m chain_id bi ctx hook x =
     (let clearing_active_hook = \<not> hook \<and> x_state_hook_active x;
          x = (if clearing_active_hook \<and> \<not> x_post_block_applied x
               then case apply_post_block_writes m chain_id bi ctx x of
                      (Inl err, x) \<Rightarrow> x\<lparr>x_post_block_error := Some err\<rparr>
                    | (Inr _, x) \<Rightarrow> x
               else x)
      in x\<lparr>x_state_hook_active := hook, x_hook_installed := hook\<rparr>)"

section \<open>The gas values\<close>

lemma x_db_on_state [simp]: "x_db (on_state source c x) = x_db x"
  by (simp add: on_state_def)

lemma clamp_absolute_bounds:
  "bf_absolute_min_base_fee (base_fee_config_of chain_id n) \<le> clamp_absolute (base_fee_config_of chain_id n) f
   \<and> clamp_absolute (base_fee_config_of chain_id n) f \<le> bf_absolute_max_base_fee (base_fee_config_of chain_id n)"
proof -
  have "bf_absolute_min_base_fee (base_fee_config_of chain_id n) \<le> bf_absolute_max_base_fee (base_fee_config_of chain_id n)"
    using base_fee_configs_sane [of chain_id n] by auto
  then show ?thesis by (auto simp: clamp_absolute_def word_clamp_def not_less)
qed

lemma block_gas_limit_config_some: "\<exists>cfg. block_gas_limit_config_of chain_id n = Some cfg"
  by (simp add: block_gas_limit_config_of_def block_gas_limit_config_new_def)

lemma compute_gas_values_Inr:
  assumes "compute_gas_values m chain_id bi n fp x = Inr g"
  shows "\<exists>parent. retrieve_gas_values (bm_abi m) (bm_system_address m) (saturating_sub n 1) (bm_evm m) (x_db x)
      = Inr parent
    \<and> gasUsed g = x_gas_used x
    \<and> determine_ema_parent_gas_used (gasUsedSmoothed parent) (x_gas_used x)
        (calc_alpha (resolve_calc_params (base_fee_config_of chain_id (n + 1)) fp)) = Some (gasUsedSmoothed g)
    \<and> (\<exists>f. nextBaseFee g = clamp_absolute (base_fee_config_of chain_id (n + 1)) f)"
proof -
  let ?calc = "resolve_calc_params (base_fee_config_of chain_id (n + 1)) fp"
  obtain parent where p: "retrieve_gas_values (bm_abi m) (bm_system_address m) (saturating_sub n 1) (bm_evm m) (x_db x)
      = Inr parent"
    using assms unfolding compute_gas_values_def Let_def checked_add_def
    by (auto split: sum.splits option.splits if_splits)
  have g: "gasUsed g = x_gas_used x"
    "gasUsedSmoothed g = (case determine_ema_parent_gas_used (gasUsedSmoothed parent) (x_gas_used x) (calc_alpha ?calc)
       of Some g \<Rightarrow> g | None \<Rightarrow> x_gas_used x)"
    "\<exists>f. nextBaseFee g = clamp_absolute (base_fee_config_of chain_id (n + 1)) f"
    using assms p unfolding compute_gas_values_def Let_def checked_add_def
    by (auto split: if_splits)
  have "calc_alpha ?calc \<le> 100" by (rule resolve_calc_params_bounds)
  from ema_value [OF this] p g show ?thesis by (metis option.simps(5))
qed

section \<open>Post-block writes\<close>

lemma block_number_u64_Inr: "block_number_u64 bi = Inr n \<longleftrightarrow> unat (bi_number bi) = unat n"
proof -
  have "block_number_u64 bi = Inr n \<longleftrightarrow> try_from (bi_number bi) = Some n"
    by (auto simp: block_number_u64_def split: option.splits)
  then show ?thesis by (auto simp: try_from_iff)
qed

lemma store_gas_values_Inl: "store_gas_values abi a n v evm s = (Inl e, s') \<Longrightarrow> s' = s"
  unfolding store_gas_values_def by (auto split: sum.splits prod.splits if_splits option.splits)

lemma apply_post_block_writes_Inl:
  assumes "apply_post_block_writes m chain_id bi ctx x = (Inl e, x')"
  shows "x' = x"
  using assms unfolding apply_post_block_writes_def Let_def
  by (auto elim!: and_then_eq_InlE split: if_splits prod.splits sum.splits dest!: store_gas_values_Inl)

lemma apply_post_block_writes_Inr:
  fixes m :: "('s, 'c, 'e, 'x, 'r, 'p) block_machine"
  assumes "apply_post_block_writes m chain_id bi ctx x = (Inr u, x')" and "\<not> x_post_block_applied x"
  shows "\<exists>n g c. unat (bi_number bi) = unat n
    \<and> compute_gas_values m chain_id bi n (ok (retrieve_fee_params m (x_db x))) x = Inr g
    \<and> (ctx_extra_data ctx = [] \<or> decode_base_fee_from_bytes (ctx_extra_data ctx) = Some (nextBaseFee g))
    \<and> store_gas_values (bm_abi m) (bm_system_address m) n g (bm_evm m) (x_db x) = (Inr c, x_db x')
    \<and> x' = (on_state SourcePostBlock c (x\<lparr>x_db := x_db x'\<rparr>))\<lparr>x_post_block_applied := True\<rparr>"
proof -
  obtain n where n: "block_number_u64 bi = (Inr n :: 'e block_execution_error + u64)"
    and r1: "and_then (compute_gas_values m chain_id bi n (ok (retrieve_fee_params m (x_db x))) x, x) (\<lambda>g x.
        and_then ((if ctx_extra_data ctx \<noteq> []
                   then validate_extra_data_base_fee ctx n (nextBaseFee g) else Inr ()), x) (\<lambda>_ x.
        case store_gas_values (bm_abi m) (bm_system_address m) n g (bm_evm m) (x_db x) of
          (Inl e, db) \<Rightarrow> (Inl (AccountingFailed e), x\<lparr>x_db := db\<rparr>)
        | (Inr c, db) \<Rightarrow> (Inr (), (on_state SourcePostBlock c (x\<lparr>x_db := db\<rparr>))\<lparr>x_post_block_applied := True\<rparr>)))
      = (Inr u, x')"
    using assms unfolding apply_post_block_writes_def Let_def
    by (auto elim!: and_then_eq_InrE simp: block_number_u64_def split: option.splits)
  then obtain g where g: "compute_gas_values m chain_id bi n (ok (retrieve_fee_params m (x_db x))) x = Inr g"
    and ex: "(if ctx_extra_data ctx \<noteq> [] then validate_extra_data_base_fee ctx n (nextBaseFee g) else Inr ())
      = (Inr () :: 'e block_execution_error + unit)"
    and r2: "(case store_gas_values (bm_abi m) (bm_system_address m) n g (bm_evm m) (x_db x) of
          (Inl e, db) \<Rightarrow> (Inl (AccountingFailed e), x\<lparr>x_db := db\<rparr>)
        | (Inr c, db) \<Rightarrow> (Inr (), (on_state SourcePostBlock c (x\<lparr>x_db := db\<rparr>))\<lparr>x_post_block_applied := True\<rparr>))
      = (Inr u, x')"
    by (elim and_then_eq_InrE) auto
  from r2 obtain c db where st: "store_gas_values (bm_abi m) (bm_system_address m) n g (bm_evm m) (x_db x) = (Inr c, db)"
    and x': "x' = (on_state SourcePostBlock c (x\<lparr>x_db := db\<rparr>))\<lparr>x_post_block_applied := True\<rparr>"
    by (auto split: prod.splits sum.splits)
  have "x_db x' = db" by (simp add: x' on_state_def)
  moreover have "ctx_extra_data ctx = [] \<or> decode_base_fee_from_bytes (ctx_extra_data ctx) = Some (nextBaseFee g)"
    using ex by (auto simp: validate_extra_data_base_fee_def Let_def split: if_splits)
  moreover have "unat (bi_number bi) = unat n" using n by (simp add: block_number_u64_Inr)
  ultimately show ?thesis using g st x' by blast
qed

section \<open>Runs of an executor\<close>

text \<open>
  What a block builder or a validator does with an executor before finishing it: the
  pre-execution changes, transactions (a failing one is skipped by the builder), and
  installing or clearing the state hook.
\<close>

datatype 'x executor_command =
    CPreExecution
  | CTransaction "'x executable_tx"
  | CSetHook bool

fun executor_step ::
  "('s, 'c, 'e, 'x, 'r, 'p) block_machine \<Rightarrow> u64 \<Rightarrow> block_info \<Rightarrow> execution_ctx
     \<Rightarrow> ('s, 'c, 'e, 'p) executor \<Rightarrow> 'x executor_command \<Rightarrow> ('s, 'c, 'e, 'p) executor" where
  "executor_step m chain_id bi ctx x CPreExecution = snd (apply_pre_execution_changes m chain_id bi ctx x)"
| "executor_step m chain_id bi ctx x (CTransaction tx) =
     (case execute_transaction_without_commit m bi tx x of
        Inl _ \<Rightarrow> x
      | Inr output \<Rightarrow> snd (commit_transaction m output x))"
| "executor_step m chain_id bi ctx x (CSetHook hook) = set_state_hook m chain_id bi ctx hook x"

definition is_post_block :: "state_change_source \<times> 'c \<Rightarrow> bool" where
  "is_post_block n \<longleftrightarrow> fst n = SourcePostBlock"

definition index_below :: "nat \<Rightarrow> state_change_source \<times> 'c \<Rightarrow> bool" where
  "index_below k n \<longleftrightarrow> (\<forall>i. fst n = SourceTransaction i \<longrightarrow> i < k)"

definition executor_inv :: "block_info \<Rightarrow> ('s, 'c, 'e, 'p) executor \<Rightarrow> bool" where
  "executor_inv bi x \<longleftrightarrow>
     x_gas_used x \<le> bi_gas_limit bi
     \<and> x_state_hook_active x = x_hook_installed x
     \<and> length (filter is_post_block (x_notified x)) \<le> (if x_post_block_applied x then 1 else 0)
     \<and> list_all (index_below (length (x_receipts x))) (x_notified x)"

text \<open>The machine charges a transaction at most its gas limit.\<close>

definition gas_bounded :: "('s, 'c, 'e, 'x, 'r, 'p) block_machine \<Rightarrow> 'x executable_tx \<Rightarrow> bool" where
  "gas_bounded m tx \<longleftrightarrow>
     (\<forall>db r c. bm_transact m (tx_env tx) db = Inr (r, c) \<longrightarrow> bm_tx_gas_used m r \<le> tx_gas_limit tx)"

fun admissible_command :: "('s, 'c, 'e, 'x, 'r, 'p) block_machine \<Rightarrow> 'x executor_command \<Rightarrow> bool" where
  "admissible_command m (CTransaction tx) \<longleftrightarrow> gas_bounded m tx"
| "admissible_command m _ \<longleftrightarrow> True"

lemma executor_inv_new: "executor_inv bi (executor_new db)"
  by (simp add: executor_inv_def executor_new_def)

lemma executor_inv_apply_post:
  assumes "executor_inv bi x"
  shows "executor_inv bi (snd (apply_post_block_writes m chain_id bi ctx x))"
proof -
  obtain r x' where r: "apply_post_block_writes m chain_id bi ctx x = (r, x')"
    by (cases "apply_post_block_writes m chain_id bi ctx x")
  show ?thesis
  proof (cases "x_post_block_applied x \<or> (\<exists>e. r = Inl e)")
    case True
    then have "x' = x"
      using r apply_post_block_writes_Inl [of m chain_id bi ctx x] by (auto simp: apply_post_block_writes_def)
    with r assms show ?thesis by simp
  next
    case False
    then obtain u where "r = Inr u" and na: "\<not> x_post_block_applied x" by (cases r) auto
    with r apply_post_block_writes_Inr [of m chain_id bi ctx x u x'] obtain c where
      x': "x' = (on_state SourcePostBlock c (x\<lparr>x_db := x_db x'\<rparr>))\<lparr>x_post_block_applied := True\<rparr>" by blast
    have "executor_inv bi ((on_state SourcePostBlock c (x\<lparr>x_db := d\<rparr>))\<lparr>x_post_block_applied := True\<rparr>)" for d
      using assms na by (auto simp: executor_inv_def on_state_def is_post_block_def index_below_def)
    then show ?thesis using r x' by (metis snd_conv)
  qed
qed

lemma executor_inv_set_hook:
  assumes "executor_inv bi x"
  shows "executor_inv bi (set_state_hook m chain_id bi ctx hook x)"
proof -
  obtain r x' where r: "apply_post_block_writes m chain_id bi ctx x = (r, x')"
    by (cases "apply_post_block_writes m chain_id bi ctx x")
  have "executor_inv bi x'" using executor_inv_apply_post [OF assms, of m chain_id ctx] r by simp
  with assms r show ?thesis
    by (cases r) (auto simp: set_state_hook_def Let_def executor_inv_def)
qed

lemma executor_inv_pre:
  assumes "executor_inv bi x"
  shows "executor_inv bi (snd (apply_pre_execution_changes m chain_id bi ctx x))"
proof -
  have db: "executor_inv bi (x\<lparr>x_db := d\<rparr>)" "executor_inv bi (on_state SourceBlockHashes c (x\<lparr>x_db := d\<rparr>))" for c d
    using assms by (auto simp: executor_inv_def on_state_def is_post_block_def index_below_def)
  show ?thesis
    using assms db
    by (auto simp: apply_pre_execution_changes_def and_then_def Let_def split: sum.splits option.splits prod.splits)
qed

text \<open>A transaction that executes fits, so its commit neither overflows nor exceeds the limit.\<close>

lemma commit_fits:
  assumes "execute_transaction_without_commit m bi tx x = Inr output" and "gas_bounded m tx"
    and "x_gas_used x \<le> bi_gas_limit bi"
  shows "\<exists>total. checked_add (x_gas_used x) (bm_tx_gas_used m (atr_result output)) = Some total
    \<and> total \<le> bi_gas_limit bi"
proof -
  let ?g = "bm_tx_gas_used m (atr_result output)"
  obtain r c where tr: "bm_transact m (tx_env tx) (x_db x) = Inr (r, c)" "atr_result output = r"
    and avail: "tx_gas_limit tx \<le> bi_gas_limit bi - x_gas_used x"
    using assms unfolding execute_transaction_without_commit_def checked_sub_def
    by (auto simp: not_less split: if_splits sum.splits)
  moreover have "?g \<le> tx_gas_limit tx" using assms(2) tr unfolding gas_bounded_def by blast
  ultimately have "unat ?g \<le> unat (bi_gas_limit bi) - unat (x_gas_used x)"
    using assms(3) unat_minus_ge [OF assms(3)] by (simp add: word_le_nat_alt)
  then have fits: "unat (x_gas_used x) + unat ?g \<le> unat (bi_gas_limit bi)"
    using assms(3) by (simp add: word_le_nat_alt)
  then have "unat (x_gas_used x) + unat ?g < 2 ^ 64"
    using unat_lt2p [of "bi_gas_limit bi"] by (simp add: le_less_trans)
  then have "checked_add (x_gas_used x) ?g = Some (x_gas_used x + ?g)"
    "unat (x_gas_used x + ?g) = unat (x_gas_used x) + unat ?g"
    by (simp_all add: checked_add_def unat_add_fits)
  with fits show ?thesis by (auto simp: word_le_nat_alt)
qed

lemma executor_inv_tx:
  assumes "executor_inv bi x" and "gas_bounded m tx"
  shows "executor_inv bi (executor_step m chain_id bi ctx x (CTransaction tx))"
proof (cases "execute_transaction_without_commit m bi tx x")
  case (Inr out)
  have "x_gas_used x \<le> bi_gas_limit bi" using assms(1) by (simp add: executor_inv_def)
  from commit_fits [OF Inr assms(2) this] obtain total where
    total: "checked_add (x_gas_used x) (bm_tx_gas_used m (atr_result out)) = Some total" "total \<le> bi_gas_limit bi"
    by blast
  have mono: "list_all (index_below k) ns \<Longrightarrow> list_all (index_below (Suc k)) ns"
    for k and ns :: "(state_change_source \<times> 'b) list"
    by (auto simp: list_all_iff index_below_def less_Suc_eq)
  show ?thesis
    using assms(1) Inr total mono [of _ "x_notified x"]
    by (auto simp: executor_inv_def commit_transaction_def Let_def on_state_def is_post_block_def
        index_below_def [of "Suc _"] split: if_splits)
qed (use assms in simp)

interpretation bx: invariant_machine "executor_step m chain_id bi ctx" "admissible_command m" "executor_inv bi"
  for m chain_id bi ctx
  by (unfold_locales; case_tac c)
    (simp_all add: executor_inv_pre executor_inv_set_hook executor_inv_tx del: executor_step.simps(2))

section \<open>An executor on the in-memory machine\<close>

text \<open>
  Transactions of the example machine are amounts of gas; the fee parameter query fails, so
  the defaults of the chain apply.
\<close>

definition mem_machine :: "(mem_state, mem_state, string, u64, u64, u64) block_machine" where
  "mem_machine =
     \<lparr>bm_evm = mem_evm, bm_abi = mem_accounting_abi, bm_system_address = SYSTEM_ADDRESS mem_api,
      bm_keccak256 = abi_keccak256 mem_abi, bm_enc_feeParams = [], bm_ret_feeParams = (\<lambda>_. Inl ''no contract''),
      bm_storage = (\<lambda>a k s. Inr (snd s a k)), bm_blockhashes = (\<lambda>h s. Inr (None, s)),
      bm_transact = (\<lambda>g s. Inr (g, s)), bm_tx_gas_used = (\<lambda>g. g),
      bm_build_receipt = (\<lambda>ty s r c cumulative. cumulative)\<rparr>"

definition ex_tx :: "u64 \<Rightarrow> u64 executable_tx" where
  "ex_tx g = \<lparr>tx_env = g, tx_gas_limit = g, tx_blob_gas_used = None, tx_type = 2, tx_trie_hash = 0\<rparr>"

definition ex_block :: block_info where
  "ex_block = \<lparr>bi_number = 5, bi_gas_limit = 30000000, bi_basefee = 1000, bi_beneficiary = 9\<rparr>"

definition ex_ctx :: execution_ctx where
  "ex_ctx = \<lparr>ctx_parent_hash = 0, ctx_extra_data = []\<rparr>"

lemma ex_tx_bounded: "gas_bounded mem_machine (ex_tx g)"
  by (simp add: gas_bounded_def mem_machine_def ex_tx_def)

lemma mem_apply_post:
  "\<not> x_post_block_applied x
   \<Longrightarrow> \<exists>x'. apply_post_block_writes mem_machine chain_id ex_block ex_ctx x = (Inr (), x')"
proof -
  assume na: "\<not> x_post_block_applied x"
  have n: "block_number_u64 ex_block = (Inr 5 :: string block_execution_error + u64)"
    by (simp add: block_number_u64_Inr ex_block_def)
  obtain w where "retrieve_gas_values mem_accounting_abi (SYSTEM_ADDRESS mem_api) (saturating_sub 5 1) mem_evm (x_db x)
      = Inr w" using mem_retrieve ..
  then have "retrieve_gas_values (bm_abi mem_machine) (bm_system_address mem_machine) (saturating_sub 5 1)
      (bm_evm mem_machine) (x_db x) = Inr w" by (simp add: mem_machine_def)
  then obtain g where g: "compute_gas_values mem_machine chain_id ex_block 5
      (ok (retrieve_fee_params mem_machine (x_db x))) x = Inr g"
    by (auto simp: compute_gas_values_def checked_add_def Let_def)
  obtain c where "store_gas_values mem_accounting_abi (SYSTEM_ADDRESS mem_api) 5 g mem_evm (x_db x) = (Inr c, c)"
    using mem_store ..
  then have "store_gas_values (bm_abi mem_machine) (bm_system_address mem_machine) 5 g (bm_evm mem_machine) (x_db x)
      = (Inr c, c)" by (simp add: mem_machine_def)
  with na n g show ?thesis
    by (simp add: apply_post_block_writes_def ex_ctx_def Let_def)
qed

section \<open>Properties\<close>

text \<open>
  (C32) The values computed after a block: the smoothed gas is the weighted mean of the parent's
  smoothed gas and the gas of this block, so the fallback to the raw gas never applies, and
  the announced base fee lies within the absolute bounds of the chain and is never zero.
\<close>

theorem computed_gas_values_in_bounds:
  assumes "compute_gas_values m chain_id bi n fp x = Inr g"
  shows "\<exists>parent. retrieve_gas_values (bm_abi m) (bm_system_address m) (saturating_sub n 1) (bm_evm m) (x_db x)
      = Inr parent
    \<and> gasUsed g = x_gas_used x
    \<and> min (gasUsedSmoothed parent) (x_gas_used x) \<le> gasUsedSmoothed g
    \<and> gasUsedSmoothed g \<le> max (gasUsedSmoothed parent) (x_gas_used x)
    \<and> 1 \<le> nextBaseFee g
    \<and> nextBaseFee g \<le> bf_absolute_max_base_fee (base_fee_config_of chain_id (n + 1))"
proof -
  obtain parent f where
    p: "retrieve_gas_values (bm_abi m) (bm_system_address m) (saturating_sub n 1) (bm_evm m) (x_db x) = Inr parent"
    "gasUsed g = x_gas_used x"
    and ema: "determine_ema_parent_gas_used (gasUsedSmoothed parent) (x_gas_used x)
        (calc_alpha (resolve_calc_params (base_fee_config_of chain_id (n + 1)) fp)) = Some (gasUsedSmoothed g)"
    and f: "nextBaseFee g = clamp_absolute (base_fee_config_of chain_id (n + 1)) f"
    using compute_gas_values_Inr [OF assms] by blast
  have "min (gasUsedSmoothed parent) (x_gas_used x) \<le> gasUsedSmoothed g
    \<and> gasUsedSmoothed g \<le> max (gasUsedSmoothed parent) (x_gas_used x)"
    using ema_between [OF resolve_calc_params_bounds(1) ema] .
  with p f clamp_absolute_bounds [of chain_id "n + 1" f] base_fee_configs_sane(1) [of chain_id "n + 1"]
  show ?thesis by simp
qed

theorem computed_gas_values_in_bounds_witness:
  "\<exists>g. compute_gas_values mem_machine MAINNET_CHAIN_ID ex_block 5 None (executor_new ex_coins) = Inr g
     \<and> 1 \<le> nextBaseFee g \<and> nextBaseFee g \<le> 20000000000000"
proof -
  obtain w where "retrieve_gas_values mem_accounting_abi (SYSTEM_ADDRESS mem_api) (saturating_sub 5 1) mem_evm ex_coins
      = Inr w" using mem_retrieve ..
  then obtain g where g: "compute_gas_values mem_machine MAINNET_CHAIN_ID ex_block 5 None (executor_new ex_coins) = Inr g"
    by (auto simp: compute_gas_values_def checked_add_def Let_def mem_machine_def executor_new_def)
  have "bf_absolute_max_base_fee (base_fee_config_of MAINNET_CHAIN_ID (5 + 1)) = 20000000000000"
    by (simp add: base_fee_config_of_def BASE_FEE_CONFIG_MAINNET_def)
  with computed_gas_values_in_bounds [OF g] have "1 \<le> nextBaseFee g \<and> nextBaseFee g \<le> 20000000000000" by auto
  with g show ?thesis by (intro exI [of _ g]) (rule conjI)
qed

text \<open>
  (C10) Over every run of an executor (pre-execution, transactions in any number and order,
  hooks installed and cleared at will) the gas used stays within the block gas limit, the
  hook is told of at most one post-block write and only once it is applied, and executing a
  further transaction never trips the gas assertion, nor does committing it.
\<close>

theorem executor_runs_safely:
  assumes "list_all (admissible_command m) cmds" and "gas_bounded m tx"
    and "x = foldl (executor_step m chain_id bi ctx) (executor_new db) cmds"
  shows "x_gas_used x \<le> bi_gas_limit bi
    \<and> length (filter is_post_block (x_notified x)) \<le> (if x_post_block_applied x then 1 else 0)
    \<and> execute_transaction_without_commit m bi tx x \<noteq> Inl (Panicked msg)
    \<and> (\<forall>output. execute_transaction_without_commit m bi tx x = Inr output \<longrightarrow>
         (\<exists>x'. commit_transaction m output x = (Inr (bm_tx_gas_used m (atr_result output)), x')))"
proof -
  have inv: "executor_inv bi x"
    unfolding assms(3) using executor_inv_new assms(1) by (rule bx.run_inv)
  then have le: "x_gas_used x \<le> bi_gas_limit bi" by (simp add: executor_inv_def)
  then have "execute_transaction_without_commit m bi tx x \<noteq> Inl (Panicked msg)"
    by (auto simp: execute_transaction_without_commit_def checked_sub_def split: sum.splits)
  moreover have "\<exists>x'. commit_transaction m out x = (Inr (bm_tx_gas_used m (atr_result out)), x')"
    if "execute_transaction_without_commit m bi tx x = Inr out" for out
    using commit_fits [OF that assms(2) le] by (auto simp: commit_transaction_def Let_def on_state_def)
  ultimately show ?thesis using inv by (auto simp: executor_inv_def)
qed

theorem executor_runs_safely_witness:
  "x_gas_used (foldl (executor_step mem_machine MAINNET_CHAIN_ID ex_block ex_ctx) (executor_new ex_coins)
      [CPreExecution, CSetHook True, CTransaction (ex_tx 21000), CTransaction (ex_tx 40000000), CSetHook False])
   \<le> bi_gas_limit ex_block"
  using executor_runs_safely [of mem_machine
      "[CPreExecution, CSetHook True, CTransaction (ex_tx 21000), CTransaction (ex_tx 40000000), CSetHook False]",
      OF _ ex_tx_bounded refl]
  by (simp add: ex_tx_bounded del: executor_step.simps)

text \<open>
  (C31) Clearing an installed hook flushes the post-block write through it exactly once: either
  the write succeeds, the still-installed hook is notified of it last, and finishing returns
  the totals without writing again; or it fails, nothing is written, and finishing returns
  that very error.
\<close>

theorem hook_clearing_flushes_once:
  assumes "x_state_hook_active x" and "x_hook_installed x" and "\<not> x_post_block_applied x"
    and "x_post_block_error x = None"
    and "x1 = set_state_hook m chain_id bi ctx False x"
  shows "(\<exists>state. x_notified x1 = x_notified x @ [(SourcePostBlock, state)]
      \<and> finish m chain_id bi ctx x1 =
          (Inr \<lparr>ber_receipts = x_receipts x, ber_gas_used = x_gas_used x, ber_blob_gas_used = x_blob_gas_used x\<rparr>, x1))
    \<or> (\<exists>err. apply_post_block_writes m chain_id bi ctx x = (Inl err, x)
        \<and> x_db x1 = x_db x \<and> x_notified x1 = x_notified x
        \<and> fst (finish m chain_id bi ctx x1) = Inl err \<and> x_db (snd (finish m chain_id bi ctx x1)) = x_db x)"
proof -
  obtain r y where r: "apply_post_block_writes m chain_id bi ctx x = (r, y)"
    by (cases "apply_post_block_writes m chain_id bi ctx x")
  show ?thesis
  proof (cases r)
    case (Inl err)
    with r have y: "y = x" using apply_post_block_writes_Inl by blast
    have "x1 = x\<lparr>x_post_block_error := Some err, x_state_hook_active := False, x_hook_installed := False\<rparr>"
      using assms r Inl y by (simp add: set_state_hook_def Let_def)
    with r Inl y show ?thesis by (simp add: finish_def)
  next
    case (Inr u)
    obtain c where y: "y = (on_state SourcePostBlock c (x\<lparr>x_db := x_db y\<rparr>))\<lparr>x_post_block_applied := True\<rparr>"
      using apply_post_block_writes_Inr [OF r [unfolded Inr] assms(3)] by blast
    have "x1 = y\<lparr>x_state_hook_active := False, x_hook_installed := False\<rparr>"
      using assms r Inr by (simp add: set_state_hook_def Let_def)
    moreover have "x_notified y = x_notified x @ [(SourcePostBlock, c)]" "x_post_block_applied y"
      "x_post_block_error y = None" "x_receipts y = x_receipts x" "x_gas_used y = x_gas_used x"
      "x_blob_gas_used y = x_blob_gas_used x"
      by (subst y, simp add: on_state_def assms)+
    ultimately show ?thesis by (simp add: finish_def apply_post_block_writes_def)
  qed
qed

theorem hook_clearing_flushes_once_witness:
  "\<exists>x1 state. x1 = set_state_hook mem_machine MAINNET_CHAIN_ID ex_block ex_ctx False
        ((executor_new ex_coins)\<lparr>x_state_hook_active := True, x_hook_installed := True\<rparr>)
     \<and> x_notified x1 = [(SourcePostBlock, state)]
     \<and> fst (finish mem_machine MAINNET_CHAIN_ID ex_block ex_ctx x1)
        = Inr \<lparr>ber_receipts = [], ber_gas_used = 0, ber_blob_gas_used = 0\<rparr>"
proof -
  let ?x = "(executor_new ex_coins :: (mem_state, mem_state, string, u64) executor)\<lparr>x_state_hook_active := True, x_hook_installed := True\<rparr>"
  define x1 where "x1 = set_state_hook mem_machine MAINNET_CHAIN_ID ex_block ex_ctx False ?x"
  have f: "x_state_hook_active ?x" "x_hook_installed ?x" "\<not> x_post_block_applied ?x" "x_post_block_error ?x = None"
    "x_notified ?x = []" "x_receipts ?x = []" "x_gas_used ?x = 0" "x_blob_gas_used ?x = 0"
    by (simp_all add: executor_new_def)
  obtain x' where "apply_post_block_writes mem_machine MAINNET_CHAIN_ID ex_block ex_ctx ?x = (Inr (), x')"
    using mem_apply_post [OF f(3)] ..
  then have "\<nexists>err. apply_post_block_writes mem_machine MAINNET_CHAIN_ID ex_block ex_ctx ?x = (Inl err, ?x)"
    by simp
  with hook_clearing_flushes_once [OF f(1-4) x1_def] obtain state where
    "x_notified x1 = x_notified ?x @ [(SourcePostBlock, state)]"
    "finish mem_machine MAINNET_CHAIN_ID ex_block ex_ctx x1 =
       (Inr \<lparr>ber_receipts = x_receipts ?x, ber_gas_used = x_gas_used ?x, ber_blob_gas_used = x_blob_gas_used ?x\<rparr>, x1)"
    by auto
  with f x1_def show ?thesis by (intro exI [of _ x1] exI [of _ state]) simp
qed

text \<open>
  What the checks before the transactions accept: the block number fits 64 bits, the
  beneficiary is not blocklisted in the state they run on, and the gas limit of the block is
  the one derived from the fee parameters of that state.
\<close>

theorem pre_execution_accepts_iff:
  "fst (apply_pre_execution_changes m chain_id bi ctx x) = Inr () \<longleftrightarrow>
     (\<exists>n c db status cfg. unat (bi_number bi) = unat (n :: u64)
        \<and> bm_blockhashes m (ctx_parent_hash ctx) (x_db x) = Inr (c, db)
        \<and> bm_storage m NATIVE_COIN_CONTROL_ADDRESS
            (compute_is_blocklisted_storage_slot (bm_keccak256 m) (bi_beneficiary bi)) db = Inr status
        \<and> status = 0
        \<and> block_gas_limit_config_of chain_id n = Some cfg
        \<and> bi_gas_limit bi = expected_gas_limit (ok (retrieve_fee_params m db)) cfg)"
proof (cases "try_from (bi_number bi) :: u64 option")
  case None
  then have "unat (bi_number bi) \<noteq> unat (n :: u64)" for n
    by (metis option.distinct(1) try_from_iff)
  with None show ?thesis by (auto simp: apply_pre_execution_changes_def block_number_u64_def)
next
  case (Some n)
  then have n: "unat (bi_number bi) = unat (k :: u64) \<longleftrightarrow> k = n" for k
    by (metis option.inject try_from_iff)
  obtain cfg where cfg: "block_gas_limit_config_of chain_id n = Some cfg"
    using block_gas_limit_config_some by blast
  show ?thesis
  proof (cases "bm_blockhashes m (ctx_parent_hash ctx) (x_db x)")
    case (Inr cdb)
    obtain c d where cdb: "cdb = (c, d)" by (cases cdb)
    define y where "y = (case c of None \<Rightarrow> x\<lparr>x_db := d\<rparr> | Some s \<Rightarrow> on_state SourceBlockHashes s (x\<lparr>x_db := d\<rparr>))"
    have y: "x_db y = d" by (auto simp: y_def split: option.splits)
    have "fst (apply_pre_execution_changes m chain_id bi ctx x) = Inr () \<longleftrightarrow>
      validate_beneficiary_not_blocklisted m d (bi_beneficiary bi) = Inr ()
      \<and> bi_gas_limit bi = expected_gas_limit (ok (retrieve_fee_params m d)) cfg"
      using Some Inr cdb cfg y
      by (auto simp: apply_pre_execution_changes_def block_number_u64_def and_then_def Let_def y_def
          split: option.splits sum.splits)
    also have "validate_beneficiary_not_blocklisted m d (bi_beneficiary bi) = Inr () \<longleftrightarrow>
      (\<exists>status. bm_storage m NATIVE_COIN_CONTROL_ADDRESS
          (compute_is_blocklisted_storage_slot (bm_keccak256 m) (bi_beneficiary bi)) d = Inr status \<and> status = 0)"
      by (auto simp: validate_beneficiary_not_blocklisted_def is_blocklisted_status_def split: sum.splits)
    finally show ?thesis using Inr cdb cfg by (auto simp: n)
  qed (use Some in \<open>auto simp: apply_pre_execution_changes_def block_number_u64_def\<close>)
qed

end
