(* ===== verification/Evm_Frames.thy ===== *)
theory Evm_Frames
  imports Native_Coin "HOL-Library.AList"
begin

text \<open>
  Call and create frames of the Arc virtual machine, \<open>evm/src/evm.rs\<close>: the checks and the
  transfer log around every frame that moves value (\<open>frame_result.rs\<close>, \<open>log.rs\<close>), and the
  subcall protocol (\<open>subcall.rs\<close>, \<open>precompiles/src/subcall.rs\<close>, \<open>call_from.rs\<close>). The
  journal, the gas counter, the interpreter's frames and the hashing and encoding functions
  are the record \<open>frame_machine\<close>.
\<close>

section \<open>Frame inputs and results\<close>

type_synonym mem_range = "nat \<times> nat"

datatype call_scheme = SchemeCall | SchemeCallCode | SchemeDelegateCall | SchemeStaticCall

datatype call_value = ValueTransfer u256 | ValueApparent u256

datatype call_input = InputBytes bytes | InputSharedBuffer mem_range

record 'code call_inputs =
  ci_scheme :: call_scheme
  ci_target_address :: address
  ci_bytecode_address :: address
  ci_known_bytecode :: "u256 \<times> 'code"
  ci_value :: call_value
  ci_input :: call_input
  ci_gas_limit :: u64
  ci_is_static :: bool
  ci_caller :: address
  ci_return_memory_offset :: mem_range
  ci_reservoir :: u64

datatype create_scheme = CreateScheme | Create2Scheme u256 | CustomScheme address

record create_inputs =
  cr_caller :: address
  cr_scheme :: create_scheme
  cr_value :: u256
  cr_init_code :: bytes
  cr_gas_limit :: u64

datatype 'code frame_input = FrameCall "'code call_inputs" | FrameCreate create_inputs | FrameEmpty

record ('code, 'm) frame_start_data =
  fi_depth :: nat
  fi_memory :: 'm
  fi_input :: "'code frame_input"

datatype instruction_result =
    IrStop | IrReturn | IrSelfDestruct
  | IrRevert | IrOtherRevert nat
  | IrOutOfGas | IrFatalExternalError | IrOtherHalt nat

fun ir_is_ok :: "instruction_result \<Rightarrow> bool" where
  "ir_is_ok IrStop \<longleftrightarrow> True"
| "ir_is_ok IrReturn \<longleftrightarrow> True"
| "ir_is_ok IrSelfDestruct \<longleftrightarrow> True"
| "ir_is_ok _ \<longleftrightarrow> False"

fun ir_is_ok_or_revert :: "instruction_result \<Rightarrow> bool" where
  "ir_is_ok_or_revert IrRevert \<longleftrightarrow> True"
| "ir_is_ok_or_revert (IrOtherRevert _) \<longleftrightarrow> True"
| "ir_is_ok_or_revert r \<longleftrightarrow> ir_is_ok r"

record 'g interpreter_result =
  int_result :: instruction_result
  int_output :: bytes
  int_gas :: 'g

record 'g call_outcome =
  co_result :: "'g interpreter_result"
  co_memory_offset :: mem_range
  co_was_precompile_called :: bool

record 'g create_outcome =
  cro_result :: "'g interpreter_result"
  cro_address :: "address option"

datatype 'g frame_result = ResultCall "'g call_outcome" | ResultCreate "'g create_outcome"

fun fr_interpreter_result :: "'g frame_result \<Rightarrow> 'g interpreter_result" where
  "fr_interpreter_result (ResultCall o') = co_result o'"
| "fr_interpreter_result (ResultCreate o') = cro_result o'"

section \<open>The machine\<close>

record 'g gas_ops =
  g_new :: "u64 \<Rightarrow> 'g"
  g_record :: "u64 \<Rightarrow> 'g \<Rightarrow> bool \<times> 'g"
  g_spend_all :: "'g \<Rightarrow> 'g"
  g_set_spent :: "u64 \<Rightarrow> 'g \<Rightarrow> 'g"
  g_remaining :: "'g \<Rightarrow> u64"
  g_spent :: "'g \<Rightarrow> u64"
  g_limit :: "'g \<Rightarrow> u64"
  g_refunded :: "'g \<Rightarrow> int"
  g_record_refund :: "int \<Rightarrow> 'g \<Rightarrow> 'g"

record loaded_account =
  la_nonce :: u64
  la_is_selfdestructed :: bool

record 'code loaded_code =
  lc_is_cold :: bool
  lc_code_hash :: u256
  lc_code :: "'code option"

datatype 'e skip_error = SkippedColdLoad | SkipDbError 'e

type_synonym evm_log = "address \<times> log_data"

record ('s, 'k, 'e, 'code, 'm, 'f, 'g) frame_machine =
  fm_gas :: "'g gas_ops"
  fm_sload :: "address \<Rightarrow> storage_key \<Rightarrow> 's \<Rightarrow> ('e + u256 \<times> bool) \<times> 's"
  fm_load_account :: "address \<Rightarrow> 's \<Rightarrow> ('e + loaded_account) \<times> 's"
  fm_load_code :: "address \<Rightarrow> bool \<Rightarrow> 's \<Rightarrow> ('e skip_error + 'code loaded_code) \<times> 's"
  fm_checkpoint :: "'s \<Rightarrow> 'k \<times> 's"
  fm_checkpoint_commit :: "'s \<Rightarrow> 's"
  fm_checkpoint_revert :: "'k \<Rightarrow> 's \<Rightarrow> 's"
  fm_log :: "evm_log \<Rightarrow> 's \<Rightarrow> 's"
  fm_log_count :: "'s \<Rightarrow> nat"
  fm_init_with_context :: "('code, 'm) frame_start_data \<Rightarrow> 's \<Rightarrow> ('e + ('f + 'g frame_result)) \<times> 's"
  fm_return_result :: "'f \<Rightarrow> 'g frame_result \<Rightarrow> 's \<Rightarrow> ('e + 'f) \<times> 's"
  fm_frame_finished :: "'f \<Rightarrow> bool"
  fm_frame_depth :: "'f \<Rightarrow> nat"
  fm_shared_bytes :: "mem_range \<Rightarrow> 's \<Rightarrow> bytes"
  fm_transfer_from :: "'code call_inputs \<Rightarrow> address"
  fm_transfer_to :: "'code call_inputs \<Rightarrow> address"
  fm_transfer_value :: "'code call_inputs \<Rightarrow> u256 option"
  fm_transfers_value :: "'code call_inputs \<Rightarrow> bool"
  fm_created_address :: "create_inputs \<Rightarrow> u64 \<Rightarrow> address"
  fm_is_precompile :: "address \<Rightarrow> bool"
  fm_eip7702_address :: "'code \<Rightarrow> address option"
  fm_keccak256 :: "bytes \<Rightarrow> u256"
  fm_abi_string :: "string \<Rightarrow> bytes"
  fm_enc_Transfer :: "address \<Rightarrow> address \<Rightarrow> u256 \<Rightarrow> log_data"
  fm_system_address :: address
  fm_cold_sload_cost :: u64
  fm_warm_storage_read_cost :: u64
  fm_cold_account_access_cost :: u64

record tx_context =
  txc_caller :: address
  txc_nonce :: u64

datatype 'e frame_error = FrameDbError 'e | FramePanic string

datatype subcall_trace_completion_phase = BeforeFrameEnd | AfterFrameEnd

record subcall_trace_completion =
  stc_child_status :: instruction_result
  stc_child_output :: bytes
  stc_child_gas_used :: u64
  stc_child_gas_limit :: u64
  stc_final_status :: instruction_result
  stc_rolled_back_by_completion :: bool
  stc_post_completion_log_count :: nat
  stc_phase :: subcall_trace_completion_phase

text \<open>
  The machine's own state: the library's context and frame stack, the active continuations by
  the depth of the precompile call, and the completions handed to the trace observer.
\<close>

record ('s, 'f, 'c) arc_evm =
  ae_ctx :: 's
  ae_frame_stack :: "'f list"
  ae_continuations :: "(nat \<times> 'c) list"
  ae_completions :: "subcall_trace_completion list"

text \<open>A call on the journal, its database errors passed on.\<close>

definition on_ctx ::
  "('s \<Rightarrow> ('e + 'a) \<times> 's) \<Rightarrow> ('s, 'f, 'c) arc_evm \<Rightarrow> ('e frame_error + 'a) \<times> ('s, 'f, 'c) arc_evm" where
  "on_ctx f ev =
     (case f (ae_ctx ev) of
        (Inl e, s) \<Rightarrow> (Inl (FrameDbError e), ev\<lparr>ae_ctx := s\<rparr>)
      | (Inr a, s) \<Rightarrow> (Inr a, ev\<lparr>ae_ctx := s\<rparr>))"

section \<open>Results of rejected frames\<close>

definition fm_revert_bytes :: "('s, 'k, 'e, 'code, 'm, 'f, 'g) frame_machine \<Rightarrow> string \<Rightarrow> bytes" where
  "fm_revert_bytes m msg = REVERT_SELECTOR @ fm_abi_string m msg"

definition create_oog_frame_result ::
  "('s, 'k, 'e, 'code, 'm, 'f, 'g) frame_machine \<Rightarrow> ('code, 'm) frame_start_data \<Rightarrow> 'e frame_error + 'g frame_result" where
  "create_oog_frame_result m frame_init =
     (case fi_input frame_init of
        FrameCall call_input \<Rightarrow>
          let gas = snd (g_record (fm_gas m) (ci_gas_limit call_input) (g_new (fm_gas m) (ci_gas_limit call_input)))
          in Inr (ResultCall
               \<lparr>co_result = \<lparr>int_result = IrOutOfGas, int_output = [], int_gas = gas\<rparr>,
                co_memory_offset = ci_return_memory_offset call_input, co_was_precompile_called = False\<rparr>)
      | FrameCreate create_input \<Rightarrow>
          let gas = snd (g_record (fm_gas m) (cr_gas_limit create_input) (g_new (fm_gas m) (cr_gas_limit create_input)))
          in Inr (ResultCreate
               \<lparr>cro_result = \<lparr>int_result = IrOutOfGas, int_output = [], int_gas = gas\<rparr>, cro_address = None\<rparr>)
      | FrameEmpty \<Rightarrow> Inl (FramePanic ''unreachable''))"

definition create_frame_result ::
  "('s, 'k, 'e, 'code, 'm, 'f, 'g) frame_machine \<Rightarrow> ('code, 'm) frame_start_data \<Rightarrow> string \<Rightarrow> u64
     \<Rightarrow> 'e frame_error + 'g frame_result" where
  "create_frame_result m frame_init error_message gas_spent =
     (let revert_data = fm_revert_bytes m error_message in
      case fi_input frame_init of
        FrameCall call_input \<Rightarrow>
          let gas = g_set_spent (fm_gas m) gas_spent (g_new (fm_gas m) (ci_gas_limit call_input))
          in Inr (ResultCall
               \<lparr>co_result = \<lparr>int_result = IrRevert, int_output = revert_data, int_gas = gas\<rparr>,
                co_memory_offset = ci_return_memory_offset call_input, co_was_precompile_called = False\<rparr>)
      | FrameCreate create_input \<Rightarrow>
          let gas = g_set_spent (fm_gas m) gas_spent (g_new (fm_gas m) (cr_gas_limit create_input))
          in Inr (ResultCreate
               \<lparr>cro_result = \<lparr>int_result = IrRevert, int_output = revert_data, int_gas = gas\<rparr>, cro_address = None\<rparr>)
      | FrameEmpty \<Rightarrow> Inl (FramePanic ''unreachable''))"

definition SUBCALL_DISPATCH_COST :: u64 where
  "SUBCALL_DISPATCH_COST = 100"

definition precompile_call_result ::
  "instruction_result \<Rightarrow> bytes \<Rightarrow> 'g \<Rightarrow> mem_range \<Rightarrow> 'g frame_result" where
  "precompile_call_result r output gas offset =
     ResultCall \<lparr>co_result = \<lparr>int_result = r, int_output = output, int_gas = gas\<rparr>,
                 co_memory_offset = offset, co_was_precompile_called = True\<rparr>"

definition init_subcall_revert ::
  "('s, 'k, 'e, 'code, 'm, 'f, 'g) frame_machine \<Rightarrow> string \<Rightarrow> 'code call_inputs \<Rightarrow> 'g frame_result" where
  "init_subcall_revert m message call_inputs =
     (let (ok, gas) = g_record (fm_gas m) SUBCALL_DISPATCH_COST (g_new (fm_gas m) (ci_gas_limit call_inputs));
          gas = (if \<not> ok then g_spend_all (fm_gas m) gas else gas)
      in precompile_call_result IrRevert (fm_revert_bytes m message) gas (ci_return_memory_offset call_inputs))"

definition subcall_oog :: "'g \<Rightarrow> mem_range \<Rightarrow> 'g frame_result" where
  "subcall_oog gas return_memory_offset = precompile_call_result IrOutOfGas [] gas return_memory_offset"

definition init_subcall_static_revert ::
  "('s, 'k, 'e, 'code, 'm, 'f, 'g) frame_machine \<Rightarrow> 'code call_inputs \<Rightarrow> 'g frame_result" where
  "init_subcall_static_revert m call_inputs =
     precompile_call_result IrRevert
       (fm_revert_bytes m ''subcall precompiles cannot be invoked in static context'')
       (g_spend_all (fm_gas m) (g_new (fm_gas m) (ci_gas_limit call_inputs)))
       (ci_return_memory_offset call_inputs)"

fun frame_gas_limit :: "('code, 'm) frame_start_data \<Rightarrow> u64" where
  "frame_gas_limit fi =
     (case fi_input fi of FrameCall inputs \<Rightarrow> ci_gas_limit inputs
      | FrameCreate inputs \<Rightarrow> cr_gas_limit inputs | FrameEmpty \<Rightarrow> 0)"

datatype 'g before_frame_init_result =
    BeforeLog evm_log u64
  | BeforeChecked u64
  | BeforeReverted "'g frame_result"
  | BeforeNone

definition metered_revert ::
  "('s, 'k, 'e, 'code, 'm, 'f, 'g) frame_machine \<Rightarrow> ('code, 'm) frame_start_data \<Rightarrow> bool \<Rightarrow> u64 \<Rightarrow> string
     \<Rightarrow> 'e frame_error + 'g before_frame_init_result" where
  "metered_revert m frame_input meter_sloads gas_cost reason =
     (let gas_spent = (if meter_sloads then gas_cost else 0)
      in map_sum id BeforeReverted
           (if 0 < gas_spent \<and> frame_gas_limit frame_input < gas_spent
            then create_oog_frame_result m frame_input
            else create_frame_result m frame_input reason gas_spent))"

section \<open>Before a frame\<close>

fun extract_call_transfer_params ::
  "('s, 'k, 'e, 'code, 'm, 'f, 'g) frame_machine \<Rightarrow> 'code call_inputs \<Rightarrow> (address \<times> address \<times> u256) option" where
  "extract_call_transfer_params m inputs =
     (case ci_scheme inputs of
        SchemeDelegateCall \<Rightarrow> None
      | SchemeStaticCall \<Rightarrow> None
      | SchemeCallCode \<Rightarrow> None
      | SchemeCall \<Rightarrow> Some (fm_transfer_from m inputs, fm_transfer_to m inputs,
          (case fm_transfer_value m inputs of Some v \<Rightarrow> v | None \<Rightarrow> 0)))"

definition evm_is_address_blocklisted ::
  "('s, 'k, 'e, 'code, 'm, 'f, 'g) frame_machine \<Rightarrow> address
     \<Rightarrow> ('s, 'f, 'c) arc_evm \<Rightarrow> ('e frame_error + bool \<times> bool) \<times> ('s, 'f, 'c) arc_evm" where
  "evm_is_address_blocklisted m address ev =
     and_then (on_ctx (fm_sload m NATIVE_COIN_CONTROL_ADDRESS
                 (compute_is_blocklisted_storage_slot (fm_keccak256 m) address)) ev)
       (\<lambda>(data, is_cold) ev. (Inr (is_blocklisted_status data, is_cold), ev))"

definition sload_cost :: "('s, 'k, 'e, 'code, 'm, 'f, 'g) frame_machine \<Rightarrow> bool \<Rightarrow> u64" where
  "sload_cost m is_cold = (if is_cold then fm_cold_sload_cost m else fm_warm_storage_read_cost m)"

definition extract_and_normalize_create_transfer_params ::
  "('s, 'k, 'e, 'code, 'm, 'f, 'g) frame_machine \<Rightarrow> tx_context \<Rightarrow> create_inputs \<Rightarrow> nat
     \<Rightarrow> ('s, 'f, 'c) arc_evm
     \<Rightarrow> ('e frame_error + (address \<times> address \<times> u256) option \<times> create_inputs) \<times> ('s, 'f, 'c) arc_evm" where
  "extract_and_normalize_create_transfer_params m tx inputs depth ev =
     (if cr_value inputs = 0 then (Inr (None, inputs), ev)
      else case cr_scheme inputs of
        CreateScheme \<Rightarrow>
          and_then (if depth = 0 then (Inr (txc_nonce tx), ev)
                    else and_then (on_ctx (fm_load_account m (cr_caller inputs)) ev) (\<lambda>a ev. (Inr (la_nonce a), ev)))
            (\<lambda>nonce ev. (Inr (Some (cr_caller inputs, fm_created_address m inputs nonce, cr_value inputs), inputs), ev))
      | Create2Scheme salt \<Rightarrow>
          let created_address = fm_created_address m inputs 0
          in (Inr (Some (cr_caller inputs, created_address, cr_value inputs),
                   inputs\<lparr>cr_scheme := CustomScheme created_address\<rparr>), ev)
      | CustomScheme _ \<Rightarrow> (Inr (None, inputs), ev))"

definition create_eip7708_transfer_log ::
  "('s, 'k, 'e, 'code, 'm, 'f, 'g) frame_machine \<Rightarrow> address \<Rightarrow> address \<Rightarrow> u256 \<Rightarrow> evm_log" where
  "create_eip7708_transfer_log m from to amount = (fm_system_address m, fm_enc_Transfer m from to amount)"

text \<open>The probe of the recipient; from Zero7 on inside a checkpoint that is reverted.\<close>

definition probe_selfdestructed ::
  "('s, 'k, 'e, 'code, 'm, 'f, 'g) frame_machine \<Rightarrow> arc_hardfork_flags \<Rightarrow> address
     \<Rightarrow> ('s, 'f, 'c) arc_evm \<Rightarrow> ('e frame_error + bool) \<times> ('s, 'f, 'c) arc_evm" where
  "probe_selfdestructed m fl to ev =
     (if flags_is_active fl Zero7
      then let (cp, s) = fm_checkpoint m (ae_ctx ev);
               (r, s') = fm_load_account m to s;
               ev = ev\<lparr>ae_ctx := fm_checkpoint_revert m cp s'\<rparr>
           in case r of Inl e \<Rightarrow> (Inl (FrameDbError e), ev) | Inr a \<Rightarrow> (Inr (la_is_selfdestructed a), ev)
      else and_then (on_ctx (fm_load_account m to) ev) (\<lambda>a ev. (Inr (la_is_selfdestructed a), ev)))"

definition check_blocklist_and_create_log ::
  "('s, 'k, 'e, 'code, 'm, 'f, 'g) frame_machine \<Rightarrow> arc_hardfork_flags \<Rightarrow> address \<Rightarrow> address \<Rightarrow> u256
     \<Rightarrow> ('code, 'm) frame_start_data \<Rightarrow> ('s, 'f, 'c) arc_evm
     \<Rightarrow> ('e frame_error + 'g before_frame_init_result) \<times> ('s, 'f, 'c) arc_evm" where
  "check_blocklist_and_create_log m fl from to amount frame_input ev =
     (let meter_sloads = False in
      if from = 0 \<or> to = 0
      then (map_sum id BeforeReverted (create_frame_result m frame_input ''Zero address not allowed'' 0), ev)
      else
      and_then (evm_is_address_blocklisted m from ev) (\<lambda>(from_blocklisted, from_is_cold) ev.
      let from_sload_cost = sload_cost m from_is_cold in
      if from_blocklisted
      then (metered_revert m frame_input meter_sloads from_sload_cost ''Blocked address'', ev)
      else
      and_then (evm_is_address_blocklisted m to ev) (\<lambda>(to_blocklisted, to_is_cold) ev.
      let to_sload_cost = sload_cost m to_is_cold;
          total_sload_cost = from_sload_cost + to_sload_cost in
      if to_blocklisted
      then (metered_revert m frame_input meter_sloads total_sload_cost ''Blocked address'', ev)
      else
      and_then (probe_selfdestructed m fl to ev) (\<lambda>target_is_selfdestructed ev.
      if target_is_selfdestructed
      then (metered_revert m frame_input meter_sloads total_sload_cost
              ''Cannot increase the balance of selfdestructed account'', ev)
      else if from = to then (Inr (BeforeChecked total_sload_cost), ev)
      else (Inr (BeforeLog (create_eip7708_transfer_log m from to amount) total_sload_cost), ev)))))"

definition before_frame_init ::
  "('s, 'k, 'e, 'code, 'm, 'f, 'g) frame_machine \<Rightarrow> arc_hardfork_flags \<Rightarrow> tx_context \<Rightarrow> ('code, 'm) frame_start_data
     \<Rightarrow> ('s, 'f, 'c) arc_evm
     \<Rightarrow> ('e frame_error + 'g before_frame_init_result \<times> ('code, 'm) frame_start_data) \<times> ('s, 'f, 'c) arc_evm" where
  "before_frame_init m fl tx frame_input ev =
     and_then
       (case fi_input frame_input of
          FrameEmpty \<Rightarrow> (Inr (None, frame_input), ev)
        | FrameCreate inputs \<Rightarrow>
            and_then (extract_and_normalize_create_transfer_params m tx inputs (fi_depth frame_input) ev)
              (\<lambda>(params, inputs) ev. (Inr (params, frame_input\<lparr>fi_input := FrameCreate inputs\<rparr>), ev))
        | FrameCall inputs \<Rightarrow> (Inr (extract_call_transfer_params m inputs, frame_input), ev))
       (\<lambda>(transfer_params, frame_input) ev.
          case transfer_params of
            Some (from, to, amount) \<Rightarrow>
              if amount \<noteq> 0
              then and_then (check_blocklist_and_create_log m fl from to amount frame_input ev)
                     (\<lambda>r ev. (Inr (r, frame_input), ev))
              else (Inr (BeforeNone, frame_input), ev)
          | None \<Rightarrow> (Inr (BeforeNone, frame_input), ev))"

section \<open>Initialising a frame\<close>

fun should_emit_transfer_log_for_result :: "'g frame_result \<Rightarrow> bool" where
  "should_emit_transfer_log_for_result (ResultCreate create_outcome) \<longleftrightarrow>
     ir_is_ok (int_result (cro_result create_outcome)) \<and> cro_address create_outcome \<noteq> None"
| "should_emit_transfer_log_for_result (ResultCall call_outcome) \<longleftrightarrow>
     ir_is_ok (int_result (co_result call_outcome))"

datatype 'g frame_init_outcome = Pushed | Immediate "'g frame_result"

fun should_emit_transfer_log :: "'g frame_init_outcome \<Rightarrow> bool" where
  "should_emit_transfer_log Pushed \<longleftrightarrow> True"
| "should_emit_transfer_log (Immediate result) \<longleftrightarrow> should_emit_transfer_log_for_result result"

definition is_precompile_call ::
  "('s, 'k, 'e, 'code, 'm, 'f, 'g) frame_machine \<Rightarrow> ('code, 'm) frame_start_data \<Rightarrow> bool" where
  "is_precompile_call m frame_input =
     (case fi_input frame_input of
        FrameCall inputs \<Rightarrow> fm_is_precompile m (ci_bytecode_address inputs)
      | _ \<Rightarrow> False)"

text \<open>The library initialises the frame; one that has to run is pushed onto the stack.\<close>

definition init_frame ::
  "('s, 'k, 'e, 'code, 'm, 'f, 'g) frame_machine \<Rightarrow> ('code, 'm) frame_start_data
     \<Rightarrow> ('s, 'f, 'c) arc_evm \<Rightarrow> ('e frame_error + 'g frame_init_outcome) \<times> ('s, 'f, 'c) arc_evm" where
  "init_frame m frame_input ev =
     and_then (on_ctx (fm_init_with_context m frame_input) ev) (\<lambda>res ev.
       case res of
         Inl frame \<Rightarrow> (Inr Pushed, ev\<lparr>ae_frame_stack := frame # ae_frame_stack ev\<rparr>)
       | Inr result \<Rightarrow> (Inr (Immediate result), ev))"

definition init_precompile_frame_with_transfer_log ::
  "('s, 'k, 'e, 'code, 'm, 'f, 'g) frame_machine \<Rightarrow> ('code, 'm) frame_start_data \<Rightarrow> evm_log option
     \<Rightarrow> ('s, 'f, 'c) arc_evm \<Rightarrow> ('e frame_error + 'g frame_init_outcome) \<times> ('s, 'f, 'c) arc_evm" where
  "init_precompile_frame_with_transfer_log m frame_input maybe_log ev =
     (let (log_checkpoint, ev) =
        (case maybe_log of
           Some log \<Rightarrow> (let (cp, s) = fm_checkpoint m (ae_ctx ev) in (Some cp, ev\<lparr>ae_ctx := fm_log m log s\<rparr>))
         | None \<Rightarrow> (None, ev))
      in and_then (init_frame m frame_input ev) (\<lambda>res ev.
           case log_checkpoint of
             Some cp \<Rightarrow>
               (Inr res,
                ev\<lparr>ae_ctx := (if should_emit_transfer_log res then fm_checkpoint_commit m (ae_ctx ev)
                              else fm_checkpoint_revert m cp (ae_ctx ev))\<rparr>)
           | None \<Rightarrow> (Inr res, ev)))"

definition init_deferred_frame_with_transfer_log ::
  "('s, 'k, 'e, 'code, 'm, 'f, 'g) frame_machine \<Rightarrow> ('code, 'm) frame_start_data \<Rightarrow> evm_log option
     \<Rightarrow> ('s, 'f, 'c) arc_evm \<Rightarrow> ('e frame_error + 'g frame_init_outcome) \<times> ('s, 'f, 'c) arc_evm" where
  "init_deferred_frame_with_transfer_log m frame_input maybe_log ev =
     and_then (init_frame m frame_input ev) (\<lambda>res ev.
       (Inr res,
        (case maybe_log of
           Some log \<Rightarrow> if should_emit_transfer_log res then ev\<lparr>ae_ctx := fm_log m log (ae_ctx ev)\<rparr> else ev
         | None \<Rightarrow> ev)))"

definition checked_frame_init ::
  "('s, 'k, 'e, 'code, 'm, 'f, 'g) frame_machine \<Rightarrow> arc_hardfork_flags \<Rightarrow> tx_context \<Rightarrow> ('code, 'm) frame_start_data
     \<Rightarrow> ('s, 'f, 'c) arc_evm \<Rightarrow> ('e frame_error + 'g frame_init_outcome) \<times> ('s, 'f, 'c) arc_evm" where
  "checked_frame_init m fl tx frame_input ev =
     and_then (before_frame_init m fl tx frame_input ev) (\<lambda>(before, frame_input) ev.
       let proceed = (\<lambda>maybe_log.
             if is_precompile_call m frame_input
             then init_precompile_frame_with_transfer_log m frame_input maybe_log ev
             else init_deferred_frame_with_transfer_log m frame_input maybe_log ev)
       in case before of
            BeforeReverted res \<Rightarrow> (Inr (Immediate res), ev)
          | BeforeLog log _ \<Rightarrow> proceed (Some log)
          | BeforeChecked _ \<Rightarrow> proceed None
          | BeforeNone \<Rightarrow> proceed None)"

section \<open>Subcalls\<close>

datatype subcall_error = AbiDecodeError string | UnexpectedFrameResult | InsufficientGas string | InternalError string

fun subcall_error_to_string :: "subcall_error \<Rightarrow> string" where
  "subcall_error_to_string (AbiDecodeError e) = ''ABI decode error: '' @ e"
| "subcall_error_to_string UnexpectedFrameResult = ''unexpected frame result type (expected Call)''"
| "subcall_error_to_string (InsufficientGas e) = ''insufficient gas: '' @ e"
| "subcall_error_to_string (InternalError e) = ''internal error: '' @ e"

record ('code, 'd) subcall_init_result =
  sir_child_inputs :: "'code call_inputs"
  sir_continuation_data :: 'd
  sir_gas_overhead :: u64

record subcall_completion_result =
  scr_output :: bytes
  scr_success :: bool
  scr_gas_overhead :: u64

record ('code, 'd, 'g) subcall_precompile =
  sp_init_subcall :: "'code call_inputs \<Rightarrow> subcall_error + ('code, 'd) subcall_init_result"
  sp_complete_subcall :: "'d \<Rightarrow> 'g frame_result \<Rightarrow> subcall_error + subcall_completion_result"

datatype allowed_callers = Unrestricted | Only "address list"

fun is_allowed :: "allowed_callers \<Rightarrow> address \<Rightarrow> bool" where
  "is_allowed Unrestricted caller \<longleftrightarrow> True"
| "is_allowed (Only addresses) caller \<longleftrightarrow> caller \<in> set addresses"

text \<open>The registry, the newest registration of an address first.\<close>

type_synonym ('code, 'd, 'g) subcall_registry =
  "(address \<times> ('code, 'd, 'g) subcall_precompile \<times> allowed_callers) list"

definition registry_register ::
  "address \<Rightarrow> ('code, 'd, 'g) subcall_precompile \<Rightarrow> allowed_callers
     \<Rightarrow> ('code, 'd, 'g) subcall_registry \<Rightarrow> ('code, 'd, 'g) subcall_registry" where
  "registry_register address precompile callers registry = AList.update address (precompile, callers) registry"

definition registry_get ::
  "('code, 'd, 'g) subcall_registry \<Rightarrow> address \<Rightarrow> (('code, 'd, 'g) subcall_precompile \<times> allowed_callers) option" where
  "registry_get registry address = map_of registry address"

record ('code, 'd, 'g, 'k) subcall_continuation =
  sc_precompile :: "('code, 'd, 'g) subcall_precompile"
  sc_gas_limit :: u64
  sc_init_subcall_gas_overhead :: u64
  sc_return_memory_offset :: mem_range
  sc_continuation_data :: 'd
  sc_checkpoint :: 'k

definition load_account_with_code_metered ::
  "('s, 'k, 'e, 'code, 'm, 'f, 'g) frame_machine \<Rightarrow> address \<Rightarrow> 'g
     \<Rightarrow> ('s, 'f, 'c) arc_evm \<Rightarrow> ('e frame_error + 'code loaded_code option \<times> 'g) \<times> ('s, 'f, 'c) arc_evm" where
  "load_account_with_code_metered m address gas ev =
     (let skip_cold_load = g_remaining (fm_gas m) gas < fm_cold_account_access_cost m;
          (r, s) = fm_load_code m address skip_cold_load (ae_ctx ev);
          ev = ev\<lparr>ae_ctx := s\<rparr>
      in case r of
           Inr info \<Rightarrow>
             let cost = (if lc_is_cold info then fm_cold_account_access_cost m else fm_warm_storage_read_cost m);
                 (ok, gas) = g_record (fm_gas m) cost gas
             in (Inr (if \<not> ok then None else Some info, gas), ev)
         | Inl SkippedColdLoad \<Rightarrow> (Inr (None, gas), ev)
         | Inl (SkipDbError e) \<Rightarrow> (Inl (FrameDbError e), ev))"

definition revert_subcall_checkpoint ::
  "('s, 'k, 'e, 'code, 'm, 'f, 'g) frame_machine \<Rightarrow> 'k \<Rightarrow> 's \<Rightarrow> 's" where
  "revert_subcall_checkpoint m saved_cp s = fm_checkpoint_revert m saved_cp (snd (fm_checkpoint m s))"

definition resolve_shared_buffer ::
  "('s, 'k, 'e, 'code, 'm, 'f, 'g) frame_machine \<Rightarrow> 's \<Rightarrow> 'code call_inputs \<Rightarrow> 'code call_inputs" where
  "resolve_shared_buffer m s inputs =
     (case ci_input inputs of
        InputSharedBuffer rng \<Rightarrow> inputs\<lparr>ci_input := InputBytes (fm_shared_bytes m rng s)\<rparr>
      | InputBytes _ \<Rightarrow> inputs)"

text \<open>The rollback to the saved checkpoint, when the child had succeeded.\<close>

definition rollback_child ::
  "('s, 'k, 'e, 'code, 'm, 'f, 'g) frame_machine \<Rightarrow> bool \<Rightarrow> 'k \<Rightarrow> ('s, 'f, 'c) arc_evm \<Rightarrow> ('s, 'f, 'c) arc_evm" where
  "rollback_child m child_succeeded cp ev =
     (if child_succeeded then ev\<lparr>ae_ctx := revert_subcall_checkpoint m cp (ae_ctx ev)\<rparr> else ev)"

definition complete_subcall ::
  "('s, 'k, 'e, 'code, 'm, 'f, 'g) frame_machine \<Rightarrow> 'g frame_result
     \<Rightarrow> ('code, 'd, 'g, 'k) subcall_continuation \<Rightarrow> ('s, 'f, 'c) arc_evm
     \<Rightarrow> ('e frame_error + 'g frame_result) \<times> ('s, 'f, 'c) arc_evm" where
  "complete_subcall m child_result cont ev =
     (let child_gas = int_gas (fr_interpreter_result child_result);
          (child_succeeded, child_halted) =
            (case child_result of
               ResultCall outcome \<Rightarrow>
                 (ir_is_ok (int_result (co_result outcome)), \<not> ir_is_ok_or_revert (int_result (co_result outcome)))
             | _ \<Rightarrow> (False, True));
          completion_result = sp_complete_subcall (sc_precompile cont) (sc_continuation_data cont) child_result;
          completion_gas = (case completion_result of Inr result \<Rightarrow> scr_gas_overhead result | Inl _ \<Rightarrow> 0)
      in case checked_add (sc_init_subcall_gas_overhead cont) (g_spent (fm_gas m) child_gas) of
           None \<Rightarrow> (Inl (FramePanic ''gas overflow: init_subcall_overhead + child_gas.total_gas_spent()''), ev)
         | Some spent \<Rightarrow>
         case checked_add spent completion_gas of
           None \<Rightarrow> (Inl (FramePanic ''gas overflow: metered_gas_used + completion_gas''), ev)
         | Some metered_gas_used \<Rightarrow>
         let gas_used = (if child_halted then max (sc_gas_limit cont) metered_gas_used else metered_gas_used);
             (ok, gas) = g_record (fm_gas m) gas_used (g_new (fm_gas m) (sc_gas_limit cont))
         in if \<not> ok
            then (Inr (subcall_oog (g_spend_all (fm_gas m) gas) (sc_return_memory_offset cont)),
                  rollback_child m child_succeeded (sc_checkpoint cont) ev)
            else case completion_result of
              Inr result \<Rightarrow>
                if scr_success result
                then (Inr (precompile_call_result IrReturn (scr_output result)
                        (if child_succeeded then g_record_refund (fm_gas m) (g_refunded (fm_gas m) child_gas) gas else gas)
                        (sc_return_memory_offset cont)), ev)
                else (Inr (precompile_call_result IrRevert (scr_output result) gas (sc_return_memory_offset cont)),
                      rollback_child m child_succeeded (sc_checkpoint cont) ev)
            | Inl _ \<Rightarrow>
                (Inr (precompile_call_result IrRevert [] (g_spend_all (fm_gas m) gas) (sc_return_memory_offset cont)),
                 rollback_child m child_succeeded (sc_checkpoint cont) ev))"

text \<open>Completing a subcall and telling the trace observer, when one is installed.\<close>

definition complete_and_notify ::
  "('s, 'k, 'e, 'code, 'm, 'f, 'g) frame_machine \<Rightarrow> bool \<Rightarrow> subcall_trace_completion_phase \<Rightarrow> 'g frame_result
     \<Rightarrow> ('code, 'd, 'g, 'k) subcall_continuation \<Rightarrow> ('s, 'f, 'c) arc_evm
     \<Rightarrow> ('e frame_error + 'g frame_result) \<times> ('s, 'f, 'c) arc_evm" where
  "complete_and_notify m observed phase child_result cont ev =
     and_then (complete_subcall m child_result cont ev) (\<lambda>final_result ev.
       let child = fr_interpreter_result child_result;
           child_status = int_result child;
           final_status = int_result (fr_interpreter_result final_result)
       in (Inr final_result,
           if observed
           then ev\<lparr>ae_completions := ae_completions ev @
                  [\<lparr>stc_child_status = child_status, stc_child_output = int_output child,
                    stc_child_gas_used = g_spent (fm_gas m) (int_gas child),
                    stc_child_gas_limit = g_limit (fm_gas m) (int_gas child),
                    stc_final_status = final_status,
                    stc_rolled_back_by_completion = (ir_is_ok child_status \<and> \<not> ir_is_ok final_status),
                    stc_post_completion_log_count = fm_log_count m (ae_ctx ev),
                    stc_phase = phase\<rparr>]\<rparr>
           else ev))"

text \<open>
  The bytecode of the child: the target's own code, or the code of the account it delegates
  to. The value \<open>None\<close> is the out-of-gas exit.
\<close>

definition load_child_bytecode ::
  "('s, 'k, 'e, 'code, 'm, 'f, 'g) frame_machine \<Rightarrow> 'code call_inputs \<Rightarrow> 'g
     \<Rightarrow> ('s, 'f, 'c) arc_evm \<Rightarrow> ('e frame_error + 'code call_inputs option \<times> 'g) \<times> ('s, 'f, 'c) arc_evm" where
  "load_child_bytecode m child_inputs gas ev =
     and_then (load_account_with_code_metered m (ci_target_address child_inputs) gas ev) (\<lambda>(target, gas) ev.
       case target of
         None \<Rightarrow> (Inr (None, gas), ev)
       | Some target \<Rightarrow>
           (case Option.bind (lc_code target) (fm_eip7702_address m) of
              Some delegate_address \<Rightarrow>
                and_then (load_account_with_code_metered m delegate_address gas ev) (\<lambda>(delegate, gas) ev.
                  case delegate of
                    None \<Rightarrow> (Inr (None, gas), ev)
                  | Some delegate \<Rightarrow>
                      (Inr (Some (case lc_code delegate of
                                    Some code \<Rightarrow> child_inputs\<lparr>ci_known_bytecode := (lc_code_hash delegate, code)\<rparr>
                                  | None \<Rightarrow> child_inputs), gas), ev))
            | None \<Rightarrow>
                (Inr (Some (case lc_code target of
                              Some code \<Rightarrow> child_inputs\<lparr>ci_known_bytecode := (lc_code_hash target, code)\<rparr>
                            | None \<Rightarrow> child_inputs), gas), ev)))"

type_synonym ('s, 'f, 'code, 'd, 'g, 'k) arc_evm_state = "('s, 'f, ('code, 'd, 'g, 'k) subcall_continuation) arc_evm"

definition child_gas_limit :: "'g gas_ops \<Rightarrow> 'g \<Rightarrow> u64" where
  "child_gas_limit ops gas = g_remaining ops gas - g_remaining ops gas div 64"

text \<open>From the prepared child inputs on: the checkpoint, the child frame, and its completion.\<close>

definition dispatch_child ::
  "('s, 'k, 'e, 'code, 'm, 'f, 'g) frame_machine \<Rightarrow> arc_hardfork_flags \<Rightarrow> tx_context \<Rightarrow> bool
     \<Rightarrow> ('code, 'm) frame_start_data \<Rightarrow> 'code call_inputs \<Rightarrow> ('code, 'd, 'g) subcall_precompile \<Rightarrow> 'd
     \<Rightarrow> 'code call_inputs \<Rightarrow> 'g \<Rightarrow> ('s, 'f, 'code, 'd, 'g, 'k) arc_evm_state
     \<Rightarrow> ('e frame_error + 'g frame_init_outcome) \<times> ('s, 'f, 'code, 'd, 'g, 'k) arc_evm_state" where
  "dispatch_child m fl tx observed frame_input call_inputs precompile data child_inputs gas ev =
     (let (checkpoint, s) = fm_checkpoint m (ae_ctx ev);
          ev = ev\<lparr>ae_ctx := fm_checkpoint_commit m s\<rparr>;
          cont = \<lparr>sc_precompile = precompile, sc_gas_limit = ci_gas_limit call_inputs,
                  sc_init_subcall_gas_overhead = g_spent (fm_gas m) gas,
                  sc_return_memory_offset = ci_return_memory_offset call_inputs,
                  sc_continuation_data = data, sc_checkpoint = checkpoint\<rparr>;
          child_frame_input =
            \<lparr>fi_depth = fi_depth frame_input + 1, fi_memory = fi_memory frame_input,
             fi_input = FrameCall (child_inputs\<lparr>ci_gas_limit := child_gas_limit (fm_gas m) gas\<rparr>)\<rparr>
      in and_then (checked_frame_init m fl tx child_frame_input ev) (\<lambda>outcome ev.
           case outcome of
             Pushed \<Rightarrow>
               (Inr Pushed,
                ev\<lparr>ae_continuations := AList.update (fi_depth frame_input) cont (ae_continuations ev)\<rparr>)
           | Immediate child_result \<Rightarrow>
               and_then (complete_and_notify m observed BeforeFrameEnd child_result cont ev) (\<lambda>final_result ev.
                 (Inr (Immediate final_result), ev))))"

definition init_subcall ::
  "('s, 'k, 'e, 'code, 'm, 'f, 'g) frame_machine \<Rightarrow> arc_hardfork_flags \<Rightarrow> tx_context \<Rightarrow> bool
     \<Rightarrow> ('code, 'm) frame_start_data \<Rightarrow> ('code, 'd, 'g) subcall_precompile
     \<Rightarrow> ('s, 'f, 'code, 'd, 'g, 'k) arc_evm_state
     \<Rightarrow> ('e frame_error + 'g frame_init_outcome) \<times> ('s, 'f, 'code, 'd, 'g, 'k) arc_evm_state" where
  "init_subcall m fl tx observed frame_input precompile ev =
     (case fi_input frame_input of
        FrameCall call_inputs \<Rightarrow>
          if ci_scheme call_inputs \<noteq> SchemeCall
          then (Inr (Immediate (init_subcall_revert m ''subcall precompiles only support CALL scheme'' call_inputs)), ev)
          else if ci_is_static call_inputs
          then (Inr (Immediate (init_subcall_static_revert m call_inputs)), ev)
          else if fm_transfers_value m call_inputs
          then (Inr (Immediate (init_subcall_revert m ''subcall precompiles do not support value transfers'' call_inputs)), ev)
          else
            let call_inputs = resolve_shared_buffer m (ae_ctx ev) call_inputs
            in case sp_init_subcall precompile call_inputs of
                 Inl err \<Rightarrow> (Inr (Immediate (init_subcall_revert m (subcall_error_to_string err) call_inputs)), ev)
               | Inr init_result \<Rightarrow>
                   let child_inputs = sir_child_inputs init_result
                   in if ci_caller child_inputs \<noteq> ci_caller call_inputs \<and> ci_caller child_inputs \<noteq> txc_caller tx
                      then (Inr (Immediate (init_subcall_revert m
                              ''sender spoofing requires tx.origin as sender'' call_inputs)), ev)
                      else
                        and_then (on_ctx (fm_load_account m (ci_caller child_inputs)) ev) (\<lambda>_ ev.
                        let (ok, gas) = g_record (fm_gas m) (sir_gas_overhead init_result)
                              (g_new (fm_gas m) (ci_gas_limit call_inputs));
                            oog = (\<lambda>gas. Immediate (subcall_oog (g_spend_all (fm_gas m) gas)
                              (ci_return_memory_offset call_inputs)))
                        in if \<not> ok then (Inr (oog gas), ev)
                           else
                             and_then (load_child_bytecode m child_inputs gas ev) (\<lambda>(loaded, gas) ev.
                             case loaded of
                               None \<Rightarrow> (Inr (oog gas), ev)
                             | Some child_inputs \<Rightarrow>
                                 dispatch_child m fl tx observed frame_input call_inputs precompile
                                   (sir_continuation_data init_result) child_inputs gas ev))
      | _ \<Rightarrow>
          (map_sum id Immediate (create_frame_result m frame_input
             ''internal error: subcall interception on non-Call frame'' 0), ev))"

definition frame_init ::
  "('s, 'k, 'e, 'code, 'm, 'f, 'g) frame_machine \<Rightarrow> arc_hardfork_flags \<Rightarrow> tx_context \<Rightarrow> bool
     \<Rightarrow> ('code, 'd, 'g) subcall_registry \<Rightarrow> ('code, 'm) frame_start_data
     \<Rightarrow> ('s, 'f, 'code, 'd, 'g, 'k) arc_evm_state
     \<Rightarrow> ('e frame_error + 'g frame_init_outcome) \<times> ('s, 'f, 'code, 'd, 'g, 'k) arc_evm_state" where
  "frame_init m fl tx observed registry frame_input ev =
     (case fi_input frame_input of
        FrameCall call_inputs \<Rightarrow>
          (case registry_get registry (ci_target_address call_inputs) of
             Some (precompile, allowed_callers) \<Rightarrow>
               if \<not> is_allowed allowed_callers (ci_caller call_inputs)
               then (Inr (Immediate (init_subcall_revert m ''unauthorized caller'' call_inputs)), ev)
               else
                 and_then (before_frame_init m fl tx frame_input ev) (\<lambda>(before, frame_input) ev.
                   case before of
                     BeforeReverted res \<Rightarrow> (Inr (Immediate res), ev)
                   | _ \<Rightarrow> init_subcall m fl tx observed frame_input precompile ev)
           | None \<Rightarrow> checked_frame_init m fl tx frame_input ev)
      | _ \<Rightarrow> checked_frame_init m fl tx frame_input ev)"

text \<open>Handing a result to the frame on top of the stack.\<close>

definition return_to_parent ::
  "('s, 'k, 'e, 'code, 'm, 'f, 'g) frame_machine \<Rightarrow> 'g frame_result
     \<Rightarrow> ('s, 'f, 'c) arc_evm \<Rightarrow> ('e frame_error + 'g frame_result option) \<times> ('s, 'f, 'c) arc_evm" where
  "return_to_parent m result ev =
     (case ae_frame_stack ev of
        [] \<Rightarrow> (Inr (Some result), ev)
      | parent # rest \<Rightarrow>
          and_then (on_ctx (fm_return_result m parent result) ev) (\<lambda>parent ev.
            (Inr None, ev\<lparr>ae_frame_stack := parent # rest\<rparr>)))"

definition frame_return_result ::
  "('s, 'k, 'e, 'code, 'm, 'f, 'g) frame_machine \<Rightarrow> bool \<Rightarrow> 'g frame_result
     \<Rightarrow> ('s, 'f, 'code, 'd, 'g, 'k) arc_evm_state
     \<Rightarrow> ('e frame_error + 'g frame_result option) \<times> ('s, 'f, 'code, 'd, 'g, 'k) arc_evm_state" where
  "frame_return_result m observed result ev =
     (case ae_frame_stack ev of
        [] \<Rightarrow> (Inl (FramePanic ''empty frame stack''), ev)
      | frame # rest \<Rightarrow>
          let frame_was_finished = fm_frame_finished m frame;
              finished_depth = fm_frame_depth m frame;
              ev = (if frame_was_finished then ev\<lparr>ae_frame_stack := rest\<rparr> else ev);
              key = (if frame_was_finished \<and> 0 < finished_depth then Some (finished_depth - 1) else None)
          in case Option.bind key (map_of (ae_continuations ev)) of
               Some cont \<Rightarrow>
                 and_then (complete_and_notify m observed AfterFrameEnd result cont
                     (ev\<lparr>ae_continuations := AList.delete (finished_depth - 1) (ae_continuations ev)\<rparr>))
                   (\<lambda>final_result ev. return_to_parent m final_result ev)
             | None \<Rightarrow> return_to_parent m result ev)"

section \<open>CallFrom\<close>

text \<open>The ABI codec of \<open>callFrom\<close>, the gas price of a copied word and the empty bytecode.\<close>

record 'code call_from_env =
  cfe_decode :: "bytes \<Rightarrow> string + address \<times> address \<times> bytes"
  cfe_encode_returns :: "bool \<Rightarrow> bytes \<Rightarrow> bytes"
  cfe_copy_gas :: u64
  cfe_default_bytecode :: 'code

definition CALL_FROM_ADDRESS :: address where
  "CALL_FROM_ADDRESS = 0x1800000000000000000000000000000000000003"

definition ABI_DECODE_BASE_GAS :: u64 where
  "ABI_DECODE_BASE_GAS = 100"

definition ABI_ENCODE_BASE_GAS :: u64 where
  "ABI_ENCODE_BASE_GAS = 100"

definition words_of :: "nat \<Rightarrow> u64" where
  "words_of data_len =
     (let n = of_nat data_len :: u64 in if n mod 32 \<noteq> 0 then n div 32 + 1 else n div 32)"

definition abi_decode_gas :: "'code call_from_env \<Rightarrow> nat \<Rightarrow> u64" where
  "abi_decode_gas env data_len =
     saturating_add ABI_DECODE_BASE_GAS (saturating_mul (words_of data_len) (cfe_copy_gas env))"

definition abi_encode_gas :: "'code call_from_env \<Rightarrow> nat \<Rightarrow> u64" where
  "abi_encode_gas env data_len =
     saturating_add ABI_ENCODE_BASE_GAS (saturating_mul (words_of data_len) (cfe_copy_gas env))"

definition decode_child_call ::
  "'code call_from_env \<Rightarrow> 'code call_inputs \<Rightarrow> subcall_error + 'code call_inputs \<times> u64" where
  "decode_child_call env inputs =
     (case ci_input inputs of
        InputSharedBuffer _ \<Rightarrow> Inl (AbiDecodeError ''unexpected shared buffer input'')
      | InputBytes input_bytes \<Rightarrow>
          (case cfe_decode env input_bytes of
             Inl e \<Rightarrow> Inl (AbiDecodeError (''callFrom: '' @ e))
           | Inr (sender, target, calldata) \<Rightarrow>
               let overhead = abi_decode_gas env (length calldata)
               in case checked_sub (ci_gas_limit inputs) overhead of
                    None \<Rightarrow> Inl (InsufficientGas ''gas limit below ABI decode overhead'')
                  | Some available \<Rightarrow>
                      Inr (\<lparr>ci_scheme = SchemeCall, ci_target_address = target, ci_bytecode_address = target,
                            ci_known_bytecode = (0, cfe_default_bytecode env), ci_value = ValueTransfer 0,
                            ci_input = InputBytes calldata, ci_gas_limit = available - available div 64,
                            ci_is_static = False, ci_caller = sender, ci_return_memory_offset = (0, 0),
                            ci_reservoir = ci_reservoir inputs\<rparr>, overhead)))"

definition call_from_init ::
  "'code call_from_env \<Rightarrow> 'code call_inputs \<Rightarrow> subcall_error + ('code, unit) subcall_init_result" where
  "call_from_init env inputs =
     (case decode_child_call env inputs of
        Inl e \<Rightarrow> Inl e
      | Inr (child_inputs, overhead) \<Rightarrow>
          Inr \<lparr>sir_child_inputs = child_inputs, sir_continuation_data = (), sir_gas_overhead = overhead\<rparr>)"

definition call_from_complete ::
  "'code call_from_env \<Rightarrow> unit \<Rightarrow> 'g frame_result \<Rightarrow> subcall_error + subcall_completion_result" where
  "call_from_complete env data child_result =
     (case child_result of
        ResultCall outcome \<Rightarrow>
          let child_success = ir_is_ok (int_result (co_result outcome));
              child_output = int_output (co_result outcome)
          in Inr \<lparr>scr_output = cfe_encode_returns env child_success child_output, scr_success = True,
                  scr_gas_overhead = abi_encode_gas env (length child_output)\<rparr>
      | ResultCreate _ \<Rightarrow> Inl UnexpectedFrameResult)"

definition call_from_precompile :: "'code call_from_env \<Rightarrow> ('code, unit, 'g) subcall_precompile" where
  "call_from_precompile env =
     \<lparr>sp_init_subcall = call_from_init env, sp_complete_subcall = call_from_complete env\<rparr>"

definition MEMO_ADDRESS :: address where
  "MEMO_ADDRESS = 0x5294E9927c3306DcBaDb03fe70b92e01cCede505"

definition MULTICALL3_FROM_ADDRESS :: address where
  "MULTICALL3_FROM_ADDRESS = 0x522fAf9A91c41c443c66765030741e4AaCe147D0"

definition build_subcall_registry ::
  "'code call_from_env \<Rightarrow> arc_hardfork_flags \<Rightarrow> ('code, unit, 'g) subcall_registry" where
  "build_subcall_registry env fl =
     (if flags_is_active fl Zero7
      then registry_register CALL_FROM_ADDRESS (call_from_precompile env)
             (Only [MEMO_ADDRESS, MULTICALL3_FROM_ADDRESS]) []
      else [])"

section \<open>The transaction handler\<close>

text \<open>
  \<open>evm/src/handler.rs\<close>: the blocklist checks before a transaction and the fee credit after
  it. The standard pre-execution, the price of the transaction and the credit itself are
  arguments.
\<close>

datatype tx_kind = TxCreate | TxCall address

datatype 'e tx_error = TxDbError 'e | InvalidTransactionStr string

definition tx_db :: "('e + 'a) \<times> 's \<Rightarrow> ('e tx_error + 'a) \<times> 's" where
  "tx_db r = (map_sum TxDbError id (fst r), snd r)"

definition handler_is_address_blocklisted ::
  "('s, 'k, 'e, 'code, 'm, 'f, 'g) frame_machine \<Rightarrow> address \<Rightarrow> 's \<Rightarrow> ('e tx_error + bool) \<times> 's" where
  "handler_is_address_blocklisted m address s =
     and_then (tx_db (fm_sload m NATIVE_COIN_CONTROL_ADDRESS
                 (compute_is_blocklisted_storage_slot (fm_keccak256 m) address) s))
       (\<lambda>(data, _) s. (Inr (is_blocklisted_status data), s))"

definition check_blocklist ::
  "('s, 'k, 'e, 'code, 'm, 'f, 'g) frame_machine \<Rightarrow> address \<Rightarrow> tx_kind \<Rightarrow> u256 \<Rightarrow> 's
     \<Rightarrow> ('e tx_error + unit) \<times> 's" where
  "check_blocklist m caller kind tx_value s =
     and_then (handler_is_address_blocklisted m caller s) (\<lambda>blocked s.
     if blocked then (Inl (InvalidTransactionStr ''Blocked address''), s)
     else case kind of
       TxCall to_address \<Rightarrow>
         if tx_value \<noteq> 0
         then and_then (handler_is_address_blocklisted m to_address s) (\<lambda>blocked s.
                if blocked then (Inl (InvalidTransactionStr ''Blocked address''), s) else (Inr (), s))
         else (Inr (), s)
     | TxCreate \<Rightarrow> (Inr (), s))"

definition pre_execution ::
  "('s, 'k, 'e, 'code, 'm, 'f, 'g) frame_machine \<Rightarrow> ('s \<Rightarrow> ('e tx_error + u64) \<times> 's)
     \<Rightarrow> address \<Rightarrow> tx_kind \<Rightarrow> u256 \<Rightarrow> 's \<Rightarrow> ('e tx_error + u64) \<times> 's" where
  "pre_execution m mainnet_pre_execution caller kind tx_value s =
     and_then (tx_db (fm_load_account m NATIVE_COIN_CONTROL_ADDRESS s)) (\<lambda>_ s.
     and_then (check_blocklist m caller kind tx_value s) (\<lambda>_ s.
     mainnet_pre_execution s))"

definition reward_beneficiary ::
  "('s, 'k, 'e, 'code, 'm, 'f, 'g) frame_machine \<Rightarrow> arc_hardfork_flags
     \<Rightarrow> (address \<Rightarrow> u256 \<Rightarrow> 's \<Rightarrow> ('e tx_error + unit) \<times> 's) \<Rightarrow> (u128 \<Rightarrow> u128)
     \<Rightarrow> address \<Rightarrow> u64 \<Rightarrow> u64 \<Rightarrow> 's \<Rightarrow> ('e tx_error + unit) \<times> 's" where
  "reward_beneficiary m fl incr_balance effective_gas_price beneficiary basefee used s =
     (let price = effective_gas_price (ucast basefee);
          total_fee_amount = ucast price * ucast used
      in and_then (if flags_is_active fl Zero8
                   then and_then (tx_db (fm_load_account m beneficiary s)) (\<lambda>account s.
                          if la_is_selfdestructed account
                          then (Inl (InvalidTransactionStr ''Cannot increase the balance of selfdestructed account''), s)
                          else (Inr (), s))
                   else (Inr (), s))
           (\<lambda>_ s. incr_balance beneficiary total_fee_amount s))"

section \<open>Transactions\<close>

text \<open>
  The entry points around the handler: the handler's run is an argument, and what these
  functions add is the hardfork switch and what happens to the continuations. A state with the
  continuations dropped is what the next transaction starts from.
\<close>

definition arc_evm_new :: "'s \<Rightarrow> ('s, 'f, 'c) arc_evm" where
  "arc_evm_new ctx = \<lparr>ae_ctx = ctx, ae_frame_stack = [], ae_continuations = [], ae_completions = []\<rparr>"

definition clear_continuations :: "('s, 'f, 'c) arc_evm \<Rightarrow> ('s, 'f, 'c) arc_evm" where
  "clear_continuations ev = ev\<lparr>ae_continuations := []\<rparr>"

definition transact_one ::
  "('tx \<Rightarrow> 's \<Rightarrow> 's) \<Rightarrow> (('s, 'f, 'c) arc_evm \<Rightarrow> ('err + 'res) \<times> ('s, 'f, 'c) arc_evm) \<Rightarrow> 'tx
     \<Rightarrow> ('s, 'f, 'c) arc_evm \<Rightarrow> ('err + 'res) \<times> ('s, 'f, 'c) arc_evm" where
  "transact_one set_tx handler_run tx ev =
     (let (result, ev) = handler_run (ev\<lparr>ae_ctx := set_tx tx (ae_ctx ev)\<rparr>) in (result, clear_continuations ev))"

definition replay ::
  "(('s, 'f, 'c) arc_evm \<Rightarrow> ('err + 'res) \<times> ('s, 'f, 'c) arc_evm) \<Rightarrow> ('s \<Rightarrow> 'st \<times> 's)
     \<Rightarrow> ('s, 'f, 'c) arc_evm \<Rightarrow> ('err + 'res \<times> 'st) \<times> ('s, 'f, 'c) arc_evm" where
  "replay handler_run finalize ev =
     and_then (handler_run ev) (\<lambda>execution_result ev.
       let ev = clear_continuations ev;
           (state, s) = finalize (ae_ctx ev)
       in (Inr (execution_result, state), ev\<lparr>ae_ctx := s\<rparr>))"

definition transact_system_call ::
  "arc_hardfork_flags \<Rightarrow> (('s, 'f, 'c) arc_evm \<Rightarrow> ('e frame_error + 'res \<times> 'st) \<times> ('s, 'f, 'c) arc_evm)
     \<Rightarrow> ('s, 'k, 'e, 'code, 'm, 'f, 'g) frame_machine \<Rightarrow> ('s \<Rightarrow> 's)
     \<Rightarrow> (('s, 'f, 'c) arc_evm \<Rightarrow> ('e frame_error + 'res) \<times> ('s, 'f, 'c) arc_evm) \<Rightarrow> ('s \<Rightarrow> 'st \<times> 's)
     \<Rightarrow> ('s, 'f, 'c) arc_evm \<Rightarrow> ('e frame_error + 'res \<times> 'st) \<times> ('s, 'f, 'c) arc_evm" where
  "transact_system_call fl inner_system_call m set_system_tx run_system_call finalize ev =
     (if \<not> flags_is_active fl Zero7 then inner_system_call ev
      else and_then (on_ctx (fm_load_account m NATIVE_COIN_CONTROL_ADDRESS) ev) (\<lambda>_ ev.
        let (result, ev) = run_system_call (ev\<lparr>ae_ctx := set_system_tx (ae_ctx ev)\<rparr>);
            ev = clear_continuations ev
        in case result of
             Inl e \<Rightarrow> (Inl e, ev)
           | Inr r \<Rightarrow> (let (state, s) = finalize (ae_ctx ev) in (Inr (r, state), ev\<lparr>ae_ctx := s\<rparr>))))"

end
