(* ===== verification/Frame_Safety.thy ===== *)
theory Frame_Safety
  imports Evm_Frames
begin

text \<open>
  What the frames of \<open>Evm_Frames\<close> guarantee: transfers are screened before a frame starts, the
  frame stack and the stored continuations stay in step, a completed subcall accounts for its
  gas and rolls its child back when it fails, \<open>CallFrom\<close> only acts for the caller or the signer,
  and the transaction handler rejects blocked parties.
\<close>

section \<open>What the frames rely on\<close>

text \<open>
  The gas counter: a limit, what remains of it, and the amount spent. The journal: \<open>stor\<close>
  reads the storage of a state and \<open>dead\<close> its self-destructed accounts; loads and checkpoints
  leave both alone, and reverting to a checkpoint restores what it was taken in.
\<close>

definition gas_ops_laws :: "'g gas_ops \<Rightarrow> bool" where
  "gas_ops_laws ops \<longleftrightarrow>
     (\<forall>l. g_limit ops (g_new ops l) = l \<and> g_remaining ops (g_new ops l) = l)
     \<and> (\<forall>g. g_remaining ops g \<le> g_limit ops g \<and> g_spent ops g = g_limit ops g - g_remaining ops g)
     \<and> (\<forall>c g ok g'. g_record ops c g = (ok, g') \<longrightarrow> ok = (c \<le> g_remaining ops g)
          \<and> g_limit ops g' = g_limit ops g
          \<and> (ok \<longrightarrow> g_remaining ops g' = g_remaining ops g - c))
     \<and> (\<forall>g. g_limit ops (g_spend_all ops g) = g_limit ops g \<and> g_remaining ops (g_spend_all ops g) = 0)
     \<and> (\<forall>r g. g_limit ops (g_record_refund ops r g) = g_limit ops g
          \<and> g_remaining ops (g_record_refund ops r g) = g_remaining ops g)"

definition frame_load_laws ::
  "('s, 'k, 'e, 'code, 'm, 'f, 'g) frame_machine \<Rightarrow> ('s \<Rightarrow> address \<Rightarrow> storage_key \<Rightarrow> u256)
     \<Rightarrow> ('s \<Rightarrow> address \<Rightarrow> bool) \<Rightarrow> bool" where
  "frame_load_laws m stor dead \<longleftrightarrow>
     (\<forall>a k s r s'. fm_sload m a k s = (r, s') \<longrightarrow>
        stor s' = stor s \<and> dead s' = dead s \<and> (\<forall>v c. r = Inr (v, c) \<longrightarrow> v = stor s a k))
     \<and> (\<forall>a s r s'. fm_load_account m a s = (r, s') \<longrightarrow>
        stor s' = stor s \<and> dead s' = dead s \<and> (\<forall>i. r = Inr i \<longrightarrow> la_is_selfdestructed i = dead s a))
     \<and> (\<forall>s cp s1. fm_checkpoint m s = (cp, s1) \<longrightarrow>
        stor s1 = stor s \<and> dead s1 = dead s
        \<and> (\<forall>s2. stor (fm_checkpoint_revert m cp s2) = stor s \<and> dead (fm_checkpoint_revert m cp s2) = dead s))"

definition frame_blocked ::
  "('s, 'k, 'e, 'code, 'm, 'f, 'g) frame_machine \<Rightarrow> ('s \<Rightarrow> address \<Rightarrow> storage_key \<Rightarrow> u256) \<Rightarrow> 's \<Rightarrow> address \<Rightarrow> bool" where
  "frame_blocked m stor s a \<longleftrightarrow> is_blocklisted_status
     (stor s NATIVE_COIN_CONTROL_ADDRESS (compute_is_blocklisted_storage_slot (fm_keccak256 m) a))"

section \<open>Screening of value transfers\<close>

text \<open>The transfer a frame makes, and whether it may be made.\<close>

definition frame_transfer ::
  "('s, 'k, 'e, 'code, 'm, 'f, 'g) frame_machine \<Rightarrow> tx_context \<Rightarrow> ('code, 'm) frame_start_data
     \<Rightarrow> ('s, 'f, 'c) arc_evm \<Rightarrow> (address \<times> address \<times> u256) option" where
  "frame_transfer m tx fi ev =
     (case fi_input fi of
        FrameCall inputs \<Rightarrow> extract_call_transfer_params m inputs
      | FrameCreate inputs \<Rightarrow>
          (case fst (extract_and_normalize_create_transfer_params m tx inputs (fi_depth fi) ev) of
             Inr (params, _) \<Rightarrow> params | Inl _ \<Rightarrow> None)
      | FrameEmpty \<Rightarrow> None)"

definition transfer_permitted ::
  "('s, 'k, 'e, 'code, 'm, 'f, 'g) frame_machine \<Rightarrow> ('s \<Rightarrow> address \<Rightarrow> storage_key \<Rightarrow> u256)
     \<Rightarrow> ('s \<Rightarrow> address \<Rightarrow> bool) \<Rightarrow> 's \<Rightarrow> address \<Rightarrow> address \<Rightarrow> bool" where
  "transfer_permitted m stor dead s from to \<longleftrightarrow>
     from \<noteq> 0 \<and> to \<noteq> 0 \<and> \<not> frame_blocked m stor s from \<and> \<not> frame_blocked m stor s to \<and> \<not> dead s to"

definition same_accounts ::
  "('s \<Rightarrow> address \<Rightarrow> storage_key \<Rightarrow> u256) \<Rightarrow> ('s \<Rightarrow> address \<Rightarrow> bool)
     \<Rightarrow> ('s, 'f, 'c) arc_evm \<Rightarrow> ('s, 'f, 'c) arc_evm \<Rightarrow> bool" where
  "same_accounts stor dead ev ev' \<longleftrightarrow>
     stor (ae_ctx ev') = stor (ae_ctx ev) \<and> dead (ae_ctx ev') = dead (ae_ctx ev)
     \<and> ae_frame_stack ev' = ae_frame_stack ev \<and> ae_continuations ev' = ae_continuations ev"

lemma same_accounts_refl [simp]: "same_accounts stor dead ev ev"
  by (simp add: same_accounts_def)

lemma same_accounts_trans [trans]:
  "same_accounts stor dead a b \<Longrightarrow> same_accounts stor dead b c \<Longrightarrow> same_accounts stor dead a c"
  by (simp add: same_accounts_def)

lemma transfer_permitted_same:
  "same_accounts stor dead a b \<Longrightarrow>
     transfer_permitted m stor dead (ae_ctx b) from to = transfer_permitted m stor dead (ae_ctx a) from to"
  by (simp add: same_accounts_def transfer_permitted_def frame_blocked_def)

lemma on_ctx_Inr:
  "on_ctx f ev = (Inr a, ev') \<longleftrightarrow> (\<exists>s. f (ae_ctx ev) = (Inr a, s) \<and> ev' = ev\<lparr>ae_ctx := s\<rparr>)"
  by (auto simp: on_ctx_def split: prod.splits sum.splits)

lemma evm_is_address_blocklisted_Inr:
  assumes "frame_load_laws m stor dead" and "evm_is_address_blocklisted m a ev = (Inr (b, c), ev')"
  shows "b = frame_blocked m stor (ae_ctx ev) a \<and> same_accounts stor dead ev ev'"
  using assms unfolding evm_is_address_blocklisted_def frame_load_laws_def
  by (auto elim!: and_then_eq_InrE simp: on_ctx_Inr frame_blocked_def same_accounts_def)

lemma load_account_Inr:
  assumes "frame_load_laws m stor dead" and "on_ctx (fm_load_account m a) ev = (Inr i, ev')"
  shows "la_is_selfdestructed i = dead (ae_ctx ev) a \<and> same_accounts stor dead ev ev'"
  using assms unfolding frame_load_laws_def by (auto simp: on_ctx_Inr same_accounts_def)

lemma probe_selfdestructed_Inr:
  assumes "frame_load_laws m stor dead" and "probe_selfdestructed m fl a ev = (Inr b, ev')"
  shows "b = dead (ae_ctx ev) a \<and> same_accounts stor dead ev ev'"
proof (cases "flags_is_active fl Zero7")
  case True
  obtain cp s where cp: "fm_checkpoint m (ae_ctx ev) = (cp, s)" by fastforce
  obtain r s' where r: "fm_load_account m a s = (r, s')" by fastforce
  have "stor s = stor (ae_ctx ev)" "dead s = dead (ae_ctx ev)"
    "stor (fm_checkpoint_revert m cp s') = stor (ae_ctx ev)"
    "dead (fm_checkpoint_revert m cp s') = dead (ae_ctx ev)"
    using assms(1) cp unfolding frame_load_laws_def by blast+
  moreover have "\<And>i. r = Inr i \<Longrightarrow> la_is_selfdestructed i = dead s a"
    using assms(1) r unfolding frame_load_laws_def by blast
  ultimately show ?thesis
    using assms(2) True by (auto simp: probe_selfdestructed_def cp r same_accounts_def Let_def split: sum.splits)
next
  case False
  then show ?thesis
    using assms(2) load_account_Inr [OF assms(1)]
    by (auto simp: probe_selfdestructed_def elim!: and_then_eq_InrE)
qed

lemma create_frame_result_reverts:
  "create_frame_result m fi msg g = Inr r \<Longrightarrow> int_result (fr_interpreter_result r) = IrRevert
     \<and> \<not> should_emit_transfer_log_for_result r"
  by (auto simp: create_frame_result_def Let_def split: frame_input.splits)

lemma create_oog_frame_result_halts:
  "create_oog_frame_result m fi = Inr r \<Longrightarrow> int_result (fr_interpreter_result r) = IrOutOfGas"
  by (auto simp: create_oog_frame_result_def Let_def split: frame_input.splits)

lemma metered_revert_Inr:
  "metered_revert m fi meter cost msg = Inr b \<Longrightarrow>
     \<exists>r. b = BeforeReverted r \<and> \<not> ir_is_ok (int_result (fr_interpreter_result r))"
  by (auto simp: metered_revert_def Let_def map_sum_def
      dest: create_frame_result_reverts create_oog_frame_result_halts split: if_splits sum.splits)

lemma revert_not_ok [simp]: "int_result r = IrRevert \<Longrightarrow> \<not> ir_is_ok (int_result r)"
  by simp

lemma check_blocklist_screens:
  assumes laws: "frame_load_laws m stor dead"
    and run: "check_blocklist_and_create_log m fl from to amount fi ev = (Inr b, ev')"
  shows "same_accounts stor dead ev ev' \<and>
    (if transfer_permitted m stor dead (ae_ctx ev) from to
     then \<exists>c. b = (if from = to then BeforeChecked c else BeforeLog (create_eip7708_transfer_log m from to amount) c)
     else \<exists>r. b = BeforeReverted r \<and> \<not> ir_is_ok (int_result (fr_interpreter_result r)))"
proof (cases "from = 0 \<or> to = 0")
  case True
  then show ?thesis
    using run create_frame_result_reverts [of m fi _ 0]
    by (auto simp: check_blocklist_and_create_log_def Let_def transfer_permitted_def map_sum_def split: sum.splits)
next
  case False
  then obtain fb fc ev1 where f: "evm_is_address_blocklisted m from ev = (Inr (fb, fc), ev1)"
    using run by (auto simp: check_blocklist_and_create_log_def Let_def elim!: and_then_eq_InrE)
  note f' = evm_is_address_blocklisted_Inr [OF laws f]
  show ?thesis
  proof (cases fb)
    case True
    then show ?thesis
      using False run f f' metered_revert_Inr [of m fi False _ _ b]
      by (auto simp: check_blocklist_and_create_log_def Let_def transfer_permitted_def)
  next
    case nf: False
    then obtain tb tc ev2 where t: "evm_is_address_blocklisted m to ev1 = (Inr (tb, tc), ev2)"
      using run False f by (auto simp: check_blocklist_and_create_log_def Let_def elim!: and_then_eq_InrE)
    note t' = evm_is_address_blocklisted_Inr [OF laws t]
    have tb: "tb = frame_blocked m stor (ae_ctx ev) to" and same2: "same_accounts stor dead ev ev2"
      using t' f' by (auto simp: frame_blocked_def same_accounts_def)
    show ?thesis
    proof (cases tb)
      case True
      then show ?thesis
        using False nf run f t tb same2 metered_revert_Inr [of m fi False _ _ b]
        by (auto simp: check_blocklist_and_create_log_def Let_def transfer_permitted_def)
    next
      case nt: False
      then obtain d ev3 where d: "probe_selfdestructed m fl to ev2 = (Inr d, ev3)"
        using run False f nf t by (auto simp: check_blocklist_and_create_log_def Let_def elim!: and_then_eq_InrE)
      have "d = dead (ae_ctx ev) to" and "same_accounts stor dead ev ev3"
        using probe_selfdestructed_Inr [OF laws d] same2 by (auto simp: same_accounts_def)
      then show ?thesis
        using False nf nt run f t d tb f' metered_revert_Inr [of m fi False _ _ b]
        by (cases d) (auto simp: check_blocklist_and_create_log_def Let_def transfer_permitted_def split: if_splits)
    qed
  qed
qed

lemma create_params_Inr:
  assumes "frame_load_laws m stor dead"
    and "extract_and_normalize_create_transfer_params m tx inputs depth ev = (Inr (p, inputs'), ev')"
  shows "same_accounts stor dead ev ev'"
  using assms load_account_Inr [OF assms(1)]
  by (auto simp: extract_and_normalize_create_transfer_params_def Let_def
      elim!: and_then_eq_InrE split: if_splits create_scheme.splits)

lemma before_frame_init_screens:
  assumes laws: "frame_load_laws m stor dead"
    and run: "before_frame_init m fl tx fi ev = (Inr (b, fi'), ev')"
    and transfer: "frame_transfer m tx fi ev = Some (from, to, amount)" and moves: "amount \<noteq> 0"
  shows "same_accounts stor dead ev ev' \<and>
    (if transfer_permitted m stor dead (ae_ctx ev) from to
     then \<exists>c. b = (if from = to then BeforeChecked c else BeforeLog (create_eip7708_transfer_log m from to amount) c)
     else \<exists>r. b = BeforeReverted r \<and> \<not> ir_is_ok (int_result (fr_interpreter_result r)))"
proof -
  have "\<exists>fi1 ev1. same_accounts stor dead ev ev1
    \<and> check_blocklist_and_create_log m fl from to amount fi1 ev1 = (Inr b, ev')"
  proof (cases "fi_input fi")
    case (FrameCall inputs)
    then have "check_blocklist_and_create_log m fl from to amount fi ev = (Inr b, ev')"
      using run transfer moves
      by (auto simp: before_frame_init_def frame_transfer_def simp del: extract_call_transfer_params.simps
          elim!: and_then_eq_InrE)
    then show ?thesis using same_accounts_refl by blast
  next
    case (FrameCreate inputs)
    then obtain p inputs' ev1 where
      e: "extract_and_normalize_create_transfer_params m tx inputs (fi_depth fi) ev = (Inr (p, inputs'), ev1)"
      using run by (auto simp: before_frame_init_def elim!: and_then_eq_InrE)
    have "check_blocklist_and_create_log m fl from to amount (fi\<lparr>fi_input := FrameCreate inputs'\<rparr>) ev1 = (Inr b, ev')"
      using run transfer moves FrameCreate e
      by (auto simp: before_frame_init_def frame_transfer_def elim!: and_then_eq_InrE)
    then show ?thesis using create_params_Inr [OF laws e] by blast
  next
    case FrameEmpty
    then show ?thesis using transfer by (simp add: frame_transfer_def)
  qed
  then obtain fi1 ev1 where same: "same_accounts stor dead ev ev1"
    and check: "check_blocklist_and_create_log m fl from to amount fi1 ev1 = (Inr b, ev')" by blast
  show ?thesis
    using check_blocklist_screens [OF laws check] same_accounts_trans [OF same]
    unfolding transfer_permitted_same [OF same] by blast
qed

lemma init_subcall_revert_not_ok [simp]:
  "\<not> ir_is_ok (int_result (fr_interpreter_result (init_subcall_revert m msg inputs)))"
  by (simp add: init_subcall_revert_def precompile_call_result_def split: prod.splits)


section \<open>The frame stack and the continuations\<close>

text \<open>What only touches the journal leaves the stack and the continuations alone.\<close>

definition same_frames :: "('s, 'f, 'c) arc_evm \<Rightarrow> ('s, 'f, 'c) arc_evm \<Rightarrow> bool" where
  "same_frames ev ev' \<longleftrightarrow>
     ae_frame_stack ev' = ae_frame_stack ev \<and> ae_continuations ev' = ae_continuations ev"

definition keeps_frames :: "('s, 'f, 'c) arc_evm \<Rightarrow> 'a \<times> ('s, 'f, 'c) arc_evm \<Rightarrow> bool" where
  "keeps_frames ev x \<longleftrightarrow> same_frames ev (snd x)"

named_theorems frames

lemma same_frames_refl [simp]: "same_frames ev ev"
  by (simp add: same_frames_def)

lemma same_frames_ctx [simp]: "same_frames ev (ev1\<lparr>ae_ctx := s\<rparr>) = same_frames ev ev1"
  by (simp add: same_frames_def)

lemma keeps_frames_pair [simp]: "keeps_frames ev (r, ev1) = same_frames ev ev1"
  by (simp add: keeps_frames_def)

lemma keeps_and_then [frames]:
  "keeps_frames ev x \<Longrightarrow> (\<And>a ev1. same_frames ev ev1 \<Longrightarrow> keeps_frames ev (k a ev1)) \<Longrightarrow> keeps_frames ev (and_then x k)"
  by (cases x; cases "fst x") auto

lemma keeps_on_ctx [frames]: "same_frames ev ev1 \<Longrightarrow> keeps_frames ev (on_ctx f ev1)"
  by (auto simp: on_ctx_def split: prod.splits sum.splits)

lemma keeps_evm_is_address_blocklisted [frames]:
  "same_frames ev ev1 \<Longrightarrow> keeps_frames ev (evm_is_address_blocklisted m a ev1)"
  unfolding evm_is_address_blocklisted_def by (auto intro!: frames)

lemma keeps_probe_selfdestructed [frames]:
  "same_frames ev ev1 \<Longrightarrow> keeps_frames ev (probe_selfdestructed m fl a ev1)"
  unfolding probe_selfdestructed_def by (auto intro!: frames simp: Let_def split: prod.splits sum.splits)

lemma keeps_check_blocklist [frames]:
  "same_frames ev ev1 \<Longrightarrow> keeps_frames ev (check_blocklist_and_create_log m fl from to amount fi ev1)"
  unfolding check_blocklist_and_create_log_def by (auto intro!: frames simp: Let_def)

lemma keeps_create_params [frames]:
  "same_frames ev ev1 \<Longrightarrow>
     keeps_frames ev (extract_and_normalize_create_transfer_params m tx inputs depth ev1)"
  unfolding extract_and_normalize_create_transfer_params_def
  by (auto intro!: frames simp: Let_def split: create_scheme.splits)

lemma keeps_before_frame_init [frames]:
  "same_frames ev ev1 \<Longrightarrow> keeps_frames ev (before_frame_init m fl tx fi ev1)"
  unfolding before_frame_init_def
  by (auto intro!: frames split: frame_input.splits option.splits)

lemma before_frame_init_frames:
  assumes "before_frame_init m fl tx fi ev = (Inr (b, fi'), ev')"
  shows "same_frames ev ev'" and "fi_depth fi' = fi_depth fi"
    and "fi_input fi = FrameCall inputs \<Longrightarrow> fi' = fi"
  using assms keeps_before_frame_init [of ev ev m fl tx fi]
  by (auto simp: before_frame_init_def elim!: and_then_eq_InrE
      split: frame_input.splits option.splits if_splits)

lemma keeps_load_metered [frames]:
  "same_frames ev ev1 \<Longrightarrow> keeps_frames ev (load_account_with_code_metered m a gas ev1)"
  unfolding load_account_with_code_metered_def
  by (auto simp: Let_def split: prod.splits sum.splits skip_error.splits)

lemma keeps_load_child_bytecode [frames]:
  "same_frames ev ev1 \<Longrightarrow> keeps_frames ev (load_child_bytecode m inputs gas ev1)"
  unfolding load_child_bytecode_def by (auto intro!: frames split: option.splits)

lemma same_frames_rollback [simp]: "same_frames ev (rollback_child m b cp ev1) = same_frames ev ev1"
  by (simp add: rollback_child_def)

lemma keeps_complete_subcall [frames]:
  "same_frames ev ev1 \<Longrightarrow> keeps_frames ev (complete_subcall m r cont ev1)"
  unfolding complete_subcall_def by (auto simp: Let_def split: option.splits prod.splits sum.splits frame_result.splits)

lemma keeps_complete_and_notify [frames]:
  "same_frames ev ev1 \<Longrightarrow> keeps_frames ev (complete_and_notify m observed phase r cont ev1)"
  unfolding complete_and_notify_def by (auto intro!: frames simp: Let_def) (simp_all add: same_frames_def)

text \<open>A frame that has to run is on top of the stack.\<close>

definition frame_pushed ::
  "('s, 'k, 'e, 'code, 'm, 'f, 'g) frame_machine \<Rightarrow> ('code, 'm) frame_start_data
     \<Rightarrow> ('s, 'f, 'c) arc_evm \<Rightarrow> ('s, 'f, 'c) arc_evm \<Rightarrow> bool" where
  "frame_pushed m fi ev ev' \<longleftrightarrow>
     (\<exists>f s s'. fm_init_with_context m fi s = (Inr (Inl f), s')
        \<and> ae_frame_stack ev' = f # ae_frame_stack ev \<and> ae_continuations ev' = ae_continuations ev)"

definition frame_outcome ::
  "('s, 'k, 'e, 'code, 'm, 'f, 'g) frame_machine \<Rightarrow> ('code, 'm) frame_start_data \<Rightarrow> ('s, 'f, 'c) arc_evm
     \<Rightarrow> 'g frame_init_outcome \<Rightarrow> ('s, 'f, 'c) arc_evm \<Rightarrow> bool" where
  "frame_outcome m fi ev outcome ev' \<longleftrightarrow>
     (case outcome of Pushed \<Rightarrow> frame_pushed m fi ev ev' | Immediate _ \<Rightarrow> same_frames ev ev')"

lemma frame_outcome_ctx [simp]:
  "frame_outcome m fi ev outcome (ev'\<lparr>ae_ctx := s\<rparr>) = frame_outcome m fi ev outcome ev'"
  "frame_outcome m fi (ev\<lparr>ae_ctx := s\<rparr>) outcome ev' = frame_outcome m fi ev outcome ev'"
  by (auto simp: frame_outcome_def frame_pushed_def same_frames_def split: frame_init_outcome.splits)

lemma init_frame_outcome:
  "init_frame m fi ev = (Inr outcome, ev') \<Longrightarrow> frame_outcome m fi ev outcome ev'"
  by (fastforce simp: init_frame_def on_ctx_Inr frame_outcome_def frame_pushed_def same_frames_def
      elim!: and_then_eq_InrE split: sum.splits)

lemma init_with_log_outcome:
  "init_precompile_frame_with_transfer_log m fi l ev = (Inr outcome, ev') \<Longrightarrow> frame_outcome m fi ev outcome ev'"
  "init_deferred_frame_with_transfer_log m fi l ev = (Inr outcome, ev') \<Longrightarrow> frame_outcome m fi ev outcome ev'"
  by (auto simp: init_precompile_frame_with_transfer_log_def init_deferred_frame_with_transfer_log_def Let_def
      elim!: and_then_eq_InrE dest!: init_frame_outcome split: option.splits prod.splits if_splits)

lemma frame_outcome_same:
  "same_frames ev ev1 \<Longrightarrow> frame_outcome m fi ev1 outcome ev' \<Longrightarrow> frame_outcome m fi ev outcome ev'"
  by (auto simp: frame_outcome_def frame_pushed_def same_frames_def split: frame_init_outcome.splits)

lemma checked_frame_init_outcome:
  assumes "checked_frame_init m fl tx fi ev = (Inr outcome, ev')"
  obtains fi' where "fi_depth fi' = fi_depth fi" and "\<And>inputs. fi_input fi = FrameCall inputs \<Longrightarrow> fi' = fi"
    and "frame_outcome m fi' ev outcome ev'"
proof -
  obtain b fi' ev1 where before: "before_frame_init m fl tx fi ev = (Inr (b, fi'), ev1)"
    using assms by (auto simp: checked_frame_init_def elim!: and_then_eq_InrE)
  note fr = before_frame_init_frames [OF before]
  have "frame_outcome m fi' ev1 outcome ev' \<or> (\<exists>r. outcome = Immediate r \<and> same_frames ev1 ev')"
    using assms before
    by (auto simp: checked_frame_init_def Let_def dest!: init_with_log_outcome
        split: before_frame_init_result.splits if_splits)
  then have "frame_outcome m fi' ev1 outcome ev'"
    by (auto simp: frame_outcome_def)
  then show thesis
    using that fr frame_outcome_same by blast
qed

text \<open>
  A subcall has started its child: the child frame is on top of the stack one level below the
  precompile call, the continuation is stored at the depth of that call, and what was spent
  before the child plus the child's gas fits the gas of the call.
\<close>

definition child_pushed ::
  "('s, 'k, 'e, 'code, 'm, 'f, 'g) frame_machine \<Rightarrow> ('code, 'm) frame_start_data \<Rightarrow> 'code call_inputs
     \<Rightarrow> ('code, 'd, 'g) subcall_precompile \<Rightarrow> 'code call_inputs
     \<Rightarrow> ('s, 'f, 'code, 'd, 'g, 'k) arc_evm_state \<Rightarrow> ('s, 'f, 'code, 'd, 'g, 'k) arc_evm_state \<Rightarrow> bool" where
  "child_pushed m fi inputs precompile child ev ev' \<longleftrightarrow>
     (\<exists>f s s' cont.
        fm_init_with_context m
          \<lparr>fi_depth = fi_depth fi + 1, fi_memory = fi_memory fi, fi_input = FrameCall child\<rparr> s = (Inr (Inl f), s')
        \<and> ae_frame_stack ev' = f # ae_frame_stack ev
        \<and> ae_continuations ev' = AList.update (fi_depth fi) cont (ae_continuations ev)
        \<and> sc_precompile cont = precompile \<and> sc_gas_limit cont = ci_gas_limit inputs
        \<and> unat (sc_init_subcall_gas_overhead cont) + unat (ci_gas_limit child) \<le> unat (ci_gas_limit inputs))"

lemma unat_split_le: "b \<le> a \<Longrightarrow> unat (a - b) + unat b = unat a" for a b :: "'n::len word"
  by (simp add: unat_sub word_le_nat_alt)

lemma child_gas_fits:
  assumes "gas_ops_laws ops" and "g_limit ops gas = l"
  shows "unat (g_spent ops gas) + unat (child_gas_limit ops gas) \<le> unat l"
proof -
  let ?r = "g_remaining ops gas"
  have "?r \<le> l" and "g_spent ops gas = l - ?r"
    using assms unfolding gas_ops_laws_def by auto
  moreover have "?r div 64 \<le> ?r"
    by (simp add: word_le_nat_alt unat_div)
  then have "unat (child_gas_limit ops gas) \<le> unat ?r"
    by (simp add: child_gas_limit_def unat_sub word_le_nat_alt)
  ultimately show ?thesis
    using unat_split_le [of ?r l] by simp
qed

lemma dispatch_child_outcome:
  assumes gas: "gas_ops_laws (fm_gas m)" "g_limit (fm_gas m) gas = ci_gas_limit inputs"
    and run: "dispatch_child m fl tx observed fi inputs precompile data child gas ev = (Inr outcome, ev')"
  shows "case outcome of Immediate _ \<Rightarrow> same_frames ev ev'
    | Pushed \<Rightarrow> child_pushed m fi inputs precompile (child\<lparr>ci_gas_limit := child_gas_limit (fm_gas m) gas\<rparr>) ev ev'"
proof -
  let ?child = "\<lparr>fi_depth = fi_depth fi + 1, fi_memory = fi_memory fi,
    fi_input = FrameCall (child\<lparr>ci_gas_limit := child_gas_limit (fm_gas m) gas\<rparr>)\<rparr>"
  obtain cp s where cp: "fm_checkpoint m (ae_ctx ev) = (cp, s)" by fastforce
  obtain o1 ev1 where c: "checked_frame_init m fl tx ?child (ev\<lparr>ae_ctx := fm_checkpoint_commit m s\<rparr>) = (Inr o1, ev1)"
    using run by (auto simp: dispatch_child_def cp Let_def elim!: and_then_eq_InrE)
  then have o1: "frame_outcome m ?child ev o1 ev1"
    by (auto elim!: checked_frame_init_outcome)
  show ?thesis
  proof (cases o1)
    case Pushed
    then show ?thesis
      using run c o1 child_gas_fits [OF gas]
      by (fastforce simp: dispatch_child_def cp Let_def frame_outcome_def frame_pushed_def child_pushed_def)
  next
    case (Immediate r)
    then have "same_frames ev ev1" using o1 by (simp add: frame_outcome_def)
    then have "same_frames ev ev2"
      if "complete_and_notify m observed BeforeFrameEnd r cont ev1 = (Inr a, ev2)" for cont a ev2
      using that keeps_complete_and_notify [of ev ev1 m observed BeforeFrameEnd r cont] by simp
    then show ?thesis
      using run c Immediate by (auto simp: dispatch_child_def cp Let_def elim!: and_then_eq_InrE)
  qed
qed

lemma load_metered_limit:
  assumes "gas_ops_laws (fm_gas m)" and "load_account_with_code_metered m a gas ev = (Inr (r, gas'), ev')"
  shows "g_limit (fm_gas m) gas' = g_limit (fm_gas m) gas"
proof -
  have "\<And>c g ok g'. g_record (fm_gas m) c g = (ok, g') \<Longrightarrow> g_limit (fm_gas m) g' = g_limit (fm_gas m) g"
    using assms(1) unfolding gas_ops_laws_def by blast
  then show ?thesis
    using assms(2)
    by (auto simp: load_account_with_code_metered_def Let_def split: prod.splits sum.splits skip_error.splits)
qed

lemma load_child_bytecode_Inr:
  assumes "gas_ops_laws (fm_gas m)" and "load_child_bytecode m inputs gas ev = (Inr (Some child, gas'), ev')"
  shows "g_limit (fm_gas m) gas' = g_limit (fm_gas m) gas
    \<and> child = inputs\<lparr>ci_known_bytecode := ci_known_bytecode child\<rparr>"
  using assms(2)
  by (auto simp: load_child_bytecode_def elim!: and_then_eq_InrE
      dest!: load_metered_limit [OF assms(1)] split: option.splits)

lemma resolve_shared_buffer_simps [simp]:
  "ci_caller (resolve_shared_buffer m s inputs) = ci_caller inputs"
  "ci_gas_limit (resolve_shared_buffer m s inputs) = ci_gas_limit inputs"
  by (auto simp: resolve_shared_buffer_def split: call_input.splits)

text \<open>What a started child was asked for, and by whom.\<close>

definition subcall_child ::
  "('s, 'k, 'e, 'code, 'm, 'f, 'g) frame_machine \<Rightarrow> tx_context \<Rightarrow> ('code, 'd, 'g) subcall_precompile
     \<Rightarrow> 'code call_inputs \<Rightarrow> 'code call_inputs \<Rightarrow> bool" where
  "subcall_child m tx precompile inputs child \<longleftrightarrow>
     ci_scheme inputs = SchemeCall \<and> \<not> ci_is_static inputs \<and> \<not> fm_transfers_value m inputs
     \<and> ci_caller child \<in> {ci_caller inputs, txc_caller tx}
     \<and> (\<exists>s r. sp_init_subcall precompile (resolve_shared_buffer m s inputs) = Inr r
          \<and> child = (sir_child_inputs r)\<lparr>ci_known_bytecode := ci_known_bytecode child,
                                         ci_gas_limit := ci_gas_limit child\<rparr>)"

lemma child_pushed_resolve [simp]:
  "child_pushed m fi (resolve_shared_buffer m s inputs) = child_pushed m fi inputs"
  by (simp add: child_pushed_def fun_eq_iff)

lemma child_pushed_same:
  "same_frames ev ev1 \<Longrightarrow> child_pushed m fi inputs p child ev1 ev' \<Longrightarrow> child_pushed m fi inputs p child ev ev'"
  by (simp add: child_pushed_def same_frames_def)

lemma same_frames_trans: "same_frames a b \<Longrightarrow> same_frames b c \<Longrightarrow> same_frames a c"
  by (simp add: same_frames_def)

lemma on_ctx_same_frames: "on_ctx f ev = (r, ev') \<Longrightarrow> same_frames ev ev'"
  using keeps_on_ctx [of ev ev f] by simp

lemma load_child_same_frames: "load_child_bytecode m inputs gas ev = (r, ev') \<Longrightarrow> same_frames ev ev'"
  using keeps_load_child_bytecode [of ev ev m inputs gas] by simp

text \<open>Either a subcall is answered at once, or its child is dispatched with prepared inputs.\<close>

lemma init_subcall_cases:
  assumes laws: "gas_ops_laws (fm_gas m)" and call: "fi_input fi = FrameCall inputs"
    and run: "init_subcall m fl tx observed fi precompile ev = (Inr outcome, ev')"
  obtains r where "outcome = Immediate r" and "same_frames ev ev'"
  | s r child gas ev1 where "ci_scheme inputs = SchemeCall" and "\<not> ci_is_static inputs"
      and "\<not> fm_transfers_value m inputs"
      and "sp_init_subcall precompile (resolve_shared_buffer m s inputs) = Inr r"
      and "ci_caller (sir_child_inputs r) \<in> {ci_caller inputs, txc_caller tx}"
      and "child = (sir_child_inputs r)\<lparr>ci_known_bytecode := ci_known_bytecode child\<rparr>"
      and "g_limit (fm_gas m) gas = ci_gas_limit inputs" and "same_frames ev ev1"
      and "dispatch_child m fl tx observed fi (resolve_shared_buffer m s inputs) precompile
             (sir_continuation_data r) child gas ev1 = (Inr outcome, ev')"
proof -
  have limit: "g_limit (fm_gas m) gas = ci_gas_limit inputs"
    if "g_record (fm_gas m) c (g_new (fm_gas m) (ci_gas_limit inputs)) = (True, gas)" for c gas
    using laws that unfolding gas_ops_laws_def by metis
  have loaded: "same_frames ev2 ev3 \<and> (\<forall>c. loaded = Some c \<longrightarrow> g_limit (fm_gas m) gas' = g_limit (fm_gas m) gas
      \<and> c = child\<lparr>ci_known_bytecode := ci_known_bytecode c\<rparr>)"
    if "load_child_bytecode m child gas ev2 = (Inr (loaded, gas'), ev3)" for child gas ev2 loaded gas' ev3
    using load_child_same_frames [OF that] load_child_bytecode_Inr [OF laws, of child gas ev2 _ gas' ev3] that
    by blast
  have immediate: thesis if "outcome = Immediate r" "same_frames ev ev1" "same_frames ev1 ev'" for r ev1
    using that same_frames_trans \<open>\<And>r. outcome = Immediate r \<Longrightarrow> same_frames ev ev' \<Longrightarrow> thesis\<close> by blast
  show thesis
    using run call
    by (auto simp: init_subcall_def Let_def elim!: and_then_eq_InrE
        dest!: on_ctx_same_frames loaded
        split: if_splits sum.splits option.splits prod.splits
        intro: immediate same_frames_refl)
       ((erule that(1), assumption) | (erule immediate, assumption, assumption)
        | (rule that(2) [rotated 8], assumption,
           (assumption | simp only: limit insert_iff simp_thms | erule (1) same_frames_trans)+))+
qed

lemma init_subcall_outcome:
  assumes laws: "gas_ops_laws (fm_gas m)" and call: "fi_input fi = FrameCall inputs"
    and run: "init_subcall m fl tx observed fi precompile ev = (Inr outcome, ev')"
  shows "case outcome of Immediate _ \<Rightarrow> same_frames ev ev'
    | Pushed \<Rightarrow> (\<exists>child. subcall_child m tx precompile inputs child \<and> child_pushed m fi inputs precompile child ev ev')"
  using laws call run
proof (cases rule: init_subcall_cases)
  case (2 s r child gas ev1)
  let ?child = "child\<lparr>ci_gas_limit := child_gas_limit (fm_gas m) gas\<rparr>"
  have "ci_caller child = ci_caller (sir_child_inputs r)"
    by (subst 2(6)) simp
  moreover have "?child = (sir_child_inputs r)\<lparr>ci_known_bytecode := ci_known_bytecode ?child,
      ci_gas_limit := ci_gas_limit ?child\<rparr>"
    by (subst 2(6)) simp
  ultimately have "subcall_child m tx precompile inputs ?child"
    unfolding subcall_child_def using 2(1-5) by auto
  then show ?thesis
    using dispatch_child_outcome [OF laws _ 2(9)] 2(7,8)
    by (auto split: frame_init_outcome.splits intro: same_frames_trans child_pushed_same)
qed simp

text \<open>
  Every way \<open>frame_init\<close> can end: a plain frame on the stack, the child of a subcall with its
  continuation, or an immediate result that leaves both alone.
\<close>

lemma frame_init_outcome_cases:
  assumes laws: "gas_ops_laws (fm_gas m)"
    and run: "frame_init m fl tx observed registry fi ev = (Inr outcome, ev')"
  obtains (immediate) r where "outcome = Immediate r" and "same_frames ev ev'"
  | (frame) fi' where "outcome = Pushed" and "fi_depth fi' = fi_depth fi" and "frame_pushed m fi' ev ev'"
      and "\<And>inputs. fi_input fi = FrameCall inputs \<Longrightarrow> registry_get registry (ci_target_address inputs) = None"
  | (subcall) inputs precompile callers child where "outcome = Pushed" and "fi_input fi = FrameCall inputs"
      and "registry_get registry (ci_target_address inputs) = Some (precompile, callers)"
      and "is_allowed callers (ci_caller inputs)"
      and "subcall_child m tx precompile inputs child" and "child_pushed m fi inputs precompile child ev ev'"
proof (cases "\<exists>inputs p. fi_input fi = FrameCall inputs \<and> registry_get registry (ci_target_address inputs) = Some p")
  case True
  then obtain inputs p callers where hit: "fi_input fi = FrameCall inputs"
    "registry_get registry (ci_target_address inputs) = Some (p, callers)" by fastforce
  show thesis
  proof (cases "is_allowed callers (ci_caller inputs)")
    case False
    then show thesis using run hit immediate by (auto simp: frame_init_def)
  next
    case True
    then obtain b fi' ev1 where before: "before_frame_init m fl tx fi ev = (Inr (b, fi'), ev1)"
      using run hit by (auto simp: frame_init_def elim!: and_then_eq_InrE)
    have [simp]: "fi' = fi" and ev1: "same_frames ev ev1"
      using before_frame_init_frames [OF before] hit by auto
    show thesis
    proof (cases "\<exists>r. b = BeforeReverted r")
      case True
      then show thesis
        using run hit before ev1 immediate \<open>is_allowed callers _\<close> by (auto simp: frame_init_def)
    next
      case False
      then have "init_subcall m fl tx observed fi p ev1 = (Inr outcome, ev')"
        using run hit before \<open>is_allowed callers _\<close>
        by (auto simp: frame_init_def split: before_frame_init_result.splits)
      from init_subcall_outcome [OF laws hit(1) this] show thesis
        using immediate subcall [OF _ hit] True ev1
        by (auto split: frame_init_outcome.splits intro: same_frames_trans child_pushed_same)
    qed
  qed
next
  case False
  then have none: "\<And>inputs. fi_input fi = FrameCall inputs \<Longrightarrow> registry_get registry (ci_target_address inputs) = None"
    by fastforce
  then have "checked_frame_init m fl tx fi ev = (Inr outcome, ev')"
    using run by (auto simp: frame_init_def split: frame_input.splits)
  then show thesis
    using immediate frame none
    by (elim checked_frame_init_outcome) (auto simp: frame_outcome_def split: frame_init_outcome.splits)
qed

text \<open>
  A transaction as steps of the machine: a frame is initialised one level below the frame on
  top, the interpreter runs the top frame (the library's step, free to change the journal and
  the frame), and a result is handed back. Errors end the transaction.
\<close>

definition next_depth :: "('s, 'k, 'e, 'code, 'm, 'f, 'g) frame_machine \<Rightarrow> ('s, 'f, 'c) arc_evm \<Rightarrow> nat" where
  "next_depth m ev = (case ae_frame_stack ev of [] \<Rightarrow> 0 | f # _ \<Rightarrow> fm_frame_depth m f + 1)"

inductive evm_step ::
  "('s, 'k, 'e, 'code, 'm, 'f, 'g) frame_machine \<Rightarrow> arc_hardfork_flags \<Rightarrow> tx_context \<Rightarrow> bool
     \<Rightarrow> ('code, 'd, 'g) subcall_registry
     \<Rightarrow> ('s, 'f, 'code, 'd, 'g, 'k) arc_evm_state \<Rightarrow> ('s, 'f, 'code, 'd, 'g, 'k) arc_evm_state \<Rightarrow> bool"
  for m fl tx observed registry where
  init: "fi_depth fi = next_depth m ev \<Longrightarrow> frame_init m fl tx observed registry fi ev = (Inr outcome, ev')
    \<Longrightarrow> evm_step m fl tx observed registry ev ev'"
| run: "ae_frame_stack ev = f # rest \<Longrightarrow> fm_frame_depth m f' = fm_frame_depth m f
    \<Longrightarrow> evm_step m fl tx observed registry ev (ev\<lparr>ae_ctx := s, ae_frame_stack := f' # rest\<rparr>)"
| return: "frame_return_result m observed result ev = (Inr r, ev')
    \<Longrightarrow> evm_step m fl tx observed registry ev ev'"

definition frame_depth_laws :: "('s, 'k, 'e, 'code, 'm, 'f, 'g) frame_machine \<Rightarrow> bool" where
  "frame_depth_laws m \<longleftrightarrow>
     (\<forall>fi s f s'. fm_init_with_context m fi s = (Inr (Inl f), s') \<longrightarrow> fm_frame_depth m f = fi_depth fi)
     \<and> (\<forall>f r s f' s'. fm_return_result m f r s = (Inr f', s') \<longrightarrow> fm_frame_depth m f' = fm_frame_depth m f)"

definition continuations_wf ::
  "('s, 'k, 'e, 'code, 'm, 'f, 'g) frame_machine \<Rightarrow> ('s, 'f, 'c) arc_evm \<Rightarrow> bool" where
  "continuations_wf m ev \<longleftrightarrow>
     sorted_wrt (>) (map (fm_frame_depth m) (ae_frame_stack ev))
     \<and> distinct (map fst (ae_continuations ev))
     \<and> (\<forall>d \<in> fst ` set (ae_continuations ev). Suc d \<in> fm_frame_depth m ` set (ae_frame_stack ev))"

lemma continuations_wf_same: "same_frames ev ev' \<Longrightarrow> continuations_wf m ev' = continuations_wf m ev"
  by (simp add: continuations_wf_def same_frames_def)

lemma depths_below_next:
  "continuations_wf m ev \<Longrightarrow> f \<in> set (ae_frame_stack ev) \<Longrightarrow> fm_frame_depth m f < next_depth m ev"
  by (auto simp: continuations_wf_def next_depth_def less_Suc_eq split: list.splits)

lemma frame_pushed_wf:
  assumes "continuations_wf m ev" and "frame_pushed m fi ev ev'" and "fi_depth fi = next_depth m ev"
    and "frame_depth_laws m"
  shows "continuations_wf m ev'"
  using assms depths_below_next [OF assms(1)]
  by (fastforce simp: continuations_wf_def frame_pushed_def frame_depth_laws_def)

lemma child_pushed_wf:
  assumes "continuations_wf m ev" and "child_pushed m fi inputs p child ev ev'" and "fi_depth fi = next_depth m ev"
    and "frame_depth_laws m"
  shows "continuations_wf m ev'"
proof -
  obtain f cont where f: "ae_frame_stack ev' = f # ae_frame_stack ev" "fm_frame_depth m f = Suc (next_depth m ev)"
    and c: "ae_continuations ev' = AList.update (next_depth m ev) cont (ae_continuations ev)"
    using assms(2-4) by (fastforce simp: child_pushed_def frame_depth_laws_def)
  have "fst ` set (ae_continuations ev') = insert (next_depth m ev) (fst ` set (ae_continuations ev))"
    by (simp add: c dom_map_of_conv_image_fst [symmetric] update_conv')
  then show ?thesis
    using assms(1) depths_below_next [OF assms(1)] f c
    by (auto simp: continuations_wf_def less_Suc_eq distinct_update)
qed

lemma return_to_parent_wf:
  assumes "return_to_parent m r ev = (Inr x, ev')" and "continuations_wf m ev" and "frame_depth_laws m"
  shows "continuations_wf m ev'"
proof (cases "ae_frame_stack ev")
  case (Cons f rest)
  then obtain f' s where "fm_return_result m f r (ae_ctx ev) = (Inr f', s)"
    and ev': "ev' = ev\<lparr>ae_ctx := s, ae_frame_stack := f' # rest\<rparr>"
    using assms(1) by (auto simp: return_to_parent_def on_ctx_Inr elim!: and_then_eq_InrE)
  then have "fm_frame_depth m f' = fm_frame_depth m f"
    using assms(3) unfolding frame_depth_laws_def by blast
  then show ?thesis
    using assms(2) Cons ev' by (simp add: continuations_wf_def)
qed (use assms in \<open>auto simp: return_to_parent_def\<close>)

lemma complete_and_notify_same_frames:
  "complete_and_notify m observed phase r cont ev = (x, ev') \<Longrightarrow> same_frames ev ev'"
  using keeps_complete_and_notify [of ev ev m observed phase r cont] by simp

text \<open>
  Popping a finished frame together with its continuation, and popping one that has none,
  both keep every remaining continuation with its frame.
\<close>

lemma pop_with_continuation_wf:
  assumes "continuations_wf m ev" and "ae_frame_stack ev = f # rest"
  shows "continuations_wf m (ev\<lparr>ae_frame_stack := rest,
    ae_continuations := AList.delete (fm_frame_depth m f - 1) (ae_continuations ev)\<rparr>)"
  using assms by (auto simp: continuations_wf_def distinct_map_filter AList.delete_eq)

lemma pop_without_continuation_wf:
  assumes "continuations_wf m ev" and "ae_frame_stack ev = f # rest"
    and "fm_frame_depth m f = 0 \<or> map_of (ae_continuations ev) (fm_frame_depth m f - 1) = None"
  shows "continuations_wf m (ev\<lparr>ae_frame_stack := rest\<rparr>)"
proof -
  have "fm_frame_depth m f \<noteq> Suc d" if "d \<in> fst ` set (ae_continuations ev)" for d
    using assms(3) that by (force simp: map_of_eq_None_iff)
  then show ?thesis
    using assms(1,2) by (fastforce simp: continuations_wf_def)
qed

lemma frame_return_result_wf:
  assumes run: "frame_return_result m observed result ev = (Inr x, ev')"
    and wf: "continuations_wf m ev" and laws: "frame_depth_laws m"
  shows "continuations_wf m ev'"
proof -
  obtain f rest where st: "ae_frame_stack ev = f # rest"
    using run by (auto simp: frame_return_result_def split: list.splits)
  show ?thesis
  proof (cases "fm_frame_finished m f")
    case False
    then show ?thesis
      using run wf laws st by (auto simp: frame_return_result_def dest: return_to_parent_wf)
  next
    case True
    show ?thesis
    proof (cases "0 < fm_frame_depth m f \<and> map_of (ae_continuations ev) (fm_frame_depth m f - 1) \<noteq> None")
      case True
      then show ?thesis
        using run wf laws st \<open>fm_frame_finished m f\<close> pop_with_continuation_wf [OF wf st]
        by (auto simp: frame_return_result_def Let_def elim!: and_then_eq_InrE
            dest!: complete_and_notify_same_frames continuations_wf_same [of _ _ m] return_to_parent_wf)
    next
      case False
      then show ?thesis
        using run wf laws st True pop_without_continuation_wf [OF wf st]
        by (cases "0 < fm_frame_depth m f")
           (auto simp: frame_return_result_def Let_def elim: return_to_parent_wf)
    qed
  qed
qed

lemma evm_step_wf:
  assumes "evm_step m fl tx observed registry ev ev'" and "continuations_wf m ev"
    and "gas_ops_laws (fm_gas m)" and "frame_depth_laws m"
  shows "continuations_wf m ev'"
  using assms
proof (induction rule: evm_step.induct)
  case (init fi ev outcome ev')
  from init(4,2) show ?case
  proof (cases rule: frame_init_outcome_cases)
    case immediate
    then show ?thesis using init continuations_wf_same by blast
  next
    case (frame fi')
    then show ?thesis using init by (metis frame_pushed_wf)
  next
    case subcall
    then show ?thesis using init by (metis child_pushed_wf)
  qed
next
  case (run ev f rest f' s)
  then show ?case by (simp add: continuations_wf_def)
next
  case (return result ev r ev')
  then show ?case by (metis frame_return_result_wf)
qed

text \<open>
  No subcall is left behind (C33). However frames are initialised, run and returned, starting
  from an empty stack, every stored continuation belongs to a frame that is still on the
  stack, one level above it, and frame depths strictly decrease down the stack. So when the
  stack is empty again at the end of the transaction there is no continuation left, which is
  what the assertions \<open>stale subcall continuations\<close> of \<open>transact_one\<close>, \<open>replay\<close> and
  \<open>transact_system_call\<close> claim.
\<close>

theorem no_stale_continuations:
  assumes "(evm_step m fl tx observed registry)\<^sup>*\<^sup>* ev ev'"
    and "ae_frame_stack ev = []" and "ae_continuations ev = []"
    and "gas_ops_laws (fm_gas m)" and "frame_depth_laws m"
  shows "continuations_wf m ev' \<and> (ae_frame_stack ev' = [] \<longrightarrow> ae_continuations ev' = [])"
proof -
  have "continuations_wf m ev'"
    using assms(1)
  proof (induction rule: rtranclp_induct)
    case base
    then show ?case using assms(2,3) by (simp add: continuations_wf_def)
  next
    case (step y z)
    then show ?case using evm_step_wf assms(4,5) by blast
  qed
  then show ?thesis
    by (cases "ae_continuations ev'") (auto simp: continuations_wf_def)
qed

section \<open>Completion of a subcall\<close>

definition call_succeeded :: "'g frame_result \<Rightarrow> bool" where
  "call_succeeded r \<longleftrightarrow> (case r of ResultCall oc \<Rightarrow> ir_is_ok (int_result (co_result oc)) | ResultCreate _ \<Rightarrow> False)"

definition call_halted :: "'g frame_result \<Rightarrow> bool" where
  "call_halted r \<longleftrightarrow>
     (case r of ResultCall oc \<Rightarrow> \<not> ir_is_ok_or_revert (int_result (co_result oc)) | ResultCreate _ \<Rightarrow> True)"

definition completion_overhead :: "('code, 'd, 'g, 'k) subcall_continuation \<Rightarrow> 'g frame_result \<Rightarrow> u64" where
  "completion_overhead cont r =
     (case sp_complete_subcall (sc_precompile cont) (sc_continuation_data cont) r of
        Inr c \<Rightarrow> scr_gas_overhead c | Inl _ \<Rightarrow> 0)"

text \<open>What the gas laws give for a single charge on a fresh counter.\<close>

lemma gas_charge:
  assumes "gas_ops_laws ops" and "g_record ops c (g_new ops l) = (ok, g)"
  shows "ok = (c \<le> l)" and "g_limit ops g = l" and "ok \<Longrightarrow> g_spent ops g = c"
    and "g_limit ops (g_spend_all ops g) = l" and "g_spent ops (g_spend_all ops g) = l"
    and "g_limit ops (g_record_refund ops r g) = l" and "ok \<Longrightarrow> g_spent ops (g_record_refund ops r g) = c"
proof -
  have new: "g_limit ops (g_new ops l) = l" "g_remaining ops (g_new ops l) = l"
    and spent: "\<And>g. g_spent ops g = g_limit ops g - g_remaining ops g"
    and all: "\<And>g. g_limit ops (g_spend_all ops g) = g_limit ops g" "\<And>g. g_remaining ops (g_spend_all ops g) = 0"
    and refund: "\<And>r g. g_limit ops (g_record_refund ops r g) = g_limit ops g"
      "\<And>r g. g_remaining ops (g_record_refund ops r g) = g_remaining ops g"
    using assms(1) unfolding gas_ops_laws_def by blast+
  have charged: "ok = (c \<le> g_remaining ops (g_new ops l))" "g_limit ops g = g_limit ops (g_new ops l)"
    "ok \<longrightarrow> g_remaining ops g = g_remaining ops (g_new ops l) - c"
    using assms unfolding gas_ops_laws_def by blast+
  show "ok = (c \<le> l)" "g_limit ops g = l" "g_limit ops (g_spend_all ops g) = l"
    "g_spent ops (g_spend_all ops g) = l" "g_limit ops (g_record_refund ops r g) = l"
    using charged new spent all refund by simp_all
  show "g_spent ops g = c" "g_spent ops (g_record_refund ops r g) = c" if ok
    using charged new spent refund that by simp_all
qed

text \<open>The four ways a completion ends, once the sum of the gas is known not to overflow.\<close>

lemma complete_subcall_eq:
  assumes "checked_add (sc_init_subcall_gas_overhead cont) (g_spent (fm_gas m) (int_gas (fr_interpreter_result child)))
      = Some s" and "checked_add s (completion_overhead cont child) = Some metered"
    and "g_record (fm_gas m) (if call_halted child then max (sc_gas_limit cont) metered else metered)
           (g_new (fm_gas m) (sc_gas_limit cont)) = (ok, g)"
  shows "complete_subcall m child cont ev =
      (let failed = (\<lambda>r. (Inr r, rollback_child m (call_succeeded child) (sc_checkpoint cont) ev));
           offset = sc_return_memory_offset cont in
       if \<not> ok then failed (subcall_oog (g_spend_all (fm_gas m) g) offset)
       else case sp_complete_subcall (sc_precompile cont) (sc_continuation_data cont) child of
         Inl _ \<Rightarrow> failed (precompile_call_result IrRevert [] (g_spend_all (fm_gas m) g) offset)
       | Inr c \<Rightarrow>
           if scr_success c
           then (Inr (precompile_call_result IrReturn (scr_output c)
                   (if call_succeeded child
                    then g_record_refund (fm_gas m) (g_refunded (fm_gas m) (int_gas (fr_interpreter_result child))) g
                    else g) offset), ev)
           else failed (precompile_call_result IrRevert (scr_output c) g offset))"
  using assms
  by (cases child)
     (auto simp: complete_subcall_def Let_def call_succeeded_def call_halted_def completion_overhead_def
      split: sum.splits)

text \<open>
  Gas and state of a completed subcall (C34). If what was spent before the child plus the
  child's gas limit fits the gas of the call, and the overhead of the completion does not
  overflow on top of it, then completing the subcall always returns a result, on the gas
  limit of the call and never spending more; a child that halted costs all of it, and
  otherwise a successful result costs exactly overhead, child and completion. The journal is
  rolled back to the checkpoint exactly when the child had succeeded and the subcall as a
  whole did not; the frames are left alone.
\<close>

theorem subcall_completion:
  assumes "gas_ops_laws (fm_gas m)"
    and "unat (sc_init_subcall_gas_overhead cont) + unat (g_limit (fm_gas m) (int_gas (fr_interpreter_result child)))
           \<le> unat (sc_gas_limit cont)"
    and "unat (sc_gas_limit cont) + unat (completion_overhead cont child) < 2 ^ 64"
  shows "\<exists>final ev'. complete_subcall m child cont ev = (Inr final, ev')
    \<and> (let g = int_gas (fr_interpreter_result final); ok = ir_is_ok (int_result (fr_interpreter_result final)) in
         g_limit (fm_gas m) g = sc_gas_limit cont
         \<and> g_spent (fm_gas m) g \<le> sc_gas_limit cont
         \<and> (call_halted child \<longrightarrow> g_spent (fm_gas m) g = sc_gas_limit cont)
         \<and> (ok \<and> \<not> call_halted child \<longrightarrow>
              unat (g_spent (fm_gas m) g) = unat (sc_init_subcall_gas_overhead cont)
                + unat (g_spent (fm_gas m) (int_gas (fr_interpreter_result child)))
                + unat (completion_overhead cont child))
         \<and> ev' = (if call_succeeded child \<and> \<not> ok
                  then ev\<lparr>ae_ctx := revert_subcall_checkpoint m (sc_checkpoint cont) (ae_ctx ev)\<rparr> else ev))"
proof -
  let ?cg = "int_gas (fr_interpreter_result child)"
  let ?spent = "g_spent (fm_gas m) ?cg"
  have "unat ?spent \<le> unat (g_limit (fm_gas m) ?cg)"
    using assms(1) unfolding gas_ops_laws_def by (metis unat_split_le le_add1)
  then have fits: "unat (sc_init_subcall_gas_overhead cont) + unat ?spent + unat (completion_overhead cont child) < 2 ^ 64"
    using assms(2,3) by linarith
  define metered where "metered = sc_init_subcall_gas_overhead cont + ?spent + completion_overhead cont child"
  have add1: "checked_add (sc_init_subcall_gas_overhead cont) ?spent = Some (sc_init_subcall_gas_overhead cont + ?spent)"
    and add2: "checked_add (sc_init_subcall_gas_overhead cont + ?spent) (completion_overhead cont child) = Some metered"
    and metered: "unat metered = unat (sc_init_subcall_gas_overhead cont) + unat ?spent + unat (completion_overhead cont child)"
    using fits by (simp_all add: checked_add_def metered_def unat_word_ariths)
  define used where "used = (if call_halted child then max (sc_gas_limit cont) metered else metered)"
  obtain ok g where rec: "g_record (fm_gas m) used (g_new (fm_gas m) (sc_gas_limit cont)) = (ok, g)" by fastforce
  note charge = gas_charge [OF assms(1) rec]
  note eq = complete_subcall_eq [OF add1 add2, of ok g ev, folded used_def, OF rec]
  have spent: "ok \<Longrightarrow> used \<le> sc_gas_limit cont" "call_halted child \<Longrightarrow> ok \<Longrightarrow> used = sc_gas_limit cont"
    "\<not> call_halted child \<Longrightarrow> unat used = unat metered"
    using charge(1) by (auto simp: used_def max_def split: if_splits)
  show ?thesis
    unfolding eq using charge spent metered
    by (auto simp: Let_def subcall_oog_def precompile_call_result_def rollback_child_def split: sum.splits)
qed

section \<open>CallFrom\<close>

lemma decode_child_call_Inr:
  assumes "decode_child_call env inputs = Inr (child, overhead)"
  obtains bytes where "ci_input inputs = InputBytes bytes"
    and "\<exists>calldata. cfe_decode env bytes = Inr (ci_caller child, ci_target_address child, calldata)
           \<and> ci_input child = InputBytes calldata \<and> overhead = abi_decode_gas env (length calldata)"
    and "ci_scheme child = SchemeCall \<and> ci_value child = ValueTransfer 0 \<and> \<not> ci_is_static child
           \<and> ci_bytecode_address child = ci_target_address child"
  using assms
  by (auto simp: decode_child_call_def Let_def split: call_input.splits sum.splits option.splits)

lemma build_subcall_registry_get:
  "registry_get (build_subcall_registry env fl) a = Some (p, callers) \<longleftrightarrow>
     flags_is_active fl Zero7 \<and> a = CALL_FROM_ADDRESS \<and> p = call_from_precompile env
     \<and> callers = Only [MEMO_ADDRESS, MULTICALL3_FROM_ADDRESS]"
  by (auto simp: build_subcall_registry_def registry_get_def registry_register_def)

text \<open>
  Who may act for whom through \<open>CallFrom\<close> (C13). With the registry the node builds, a call
  to the \<open>CallFrom\<close> address starts a child frame only from Zero7 on, only when it comes
  from the Memo or the Multicall3From contract by a plain, non-static \<open>CALL\<close> without value,
  and only on behalf of the calling contract itself or of the signer of the transaction. The
  child is a call without value to the decoded target with the decoded call data, and it is
  stored with a continuation whose gas accounting fits the gas of the call.
\<close>

theorem call_from_acts_for_origin_only:
  assumes "gas_ops_laws (fm_gas m)"
    and "frame_init m fl tx observed (build_subcall_registry env fl) fi ev = (Inr Pushed, ev')"
    and "fi_input fi = FrameCall inputs" and "ci_target_address inputs = CALL_FROM_ADDRESS"
    and "flags_is_active fl Zero7"
  shows "ci_caller inputs \<in> {MEMO_ADDRESS, MULTICALL3_FROM_ADDRESS}
    \<and> ci_scheme inputs = SchemeCall \<and> \<not> ci_is_static inputs \<and> \<not> fm_transfers_value m inputs
    \<and> (\<exists>child s bytes calldata.
         ci_input (resolve_shared_buffer m s inputs) = InputBytes bytes
         \<and> cfe_decode env bytes = Inr (ci_caller child, ci_target_address child, calldata)
         \<and> ci_caller child \<in> {ci_caller inputs, txc_caller tx}
         \<and> ci_input child = InputBytes calldata
         \<and> ci_scheme child = SchemeCall \<and> ci_value child = ValueTransfer 0
         \<and> child_pushed m fi inputs (call_from_precompile env) child ev ev')"
  using assms(1,2)
proof (cases rule: frame_init_outcome_cases)
  case (frame fi')
  then show ?thesis
    using frame(4) [OF assms(3)] assms(4,5)
    by (simp add: build_subcall_registry_def registry_get_def registry_register_def)
next
  case (subcall inputs' p callers child)
  then have [simp]: "inputs' = inputs" and p: "p = call_from_precompile env"
    and caller: "ci_caller inputs \<in> {MEMO_ADDRESS, MULTICALL3_FROM_ADDRESS}"
    using assms(3) by (auto simp: build_subcall_registry_get)
  obtain s r where r: "call_from_init env (resolve_shared_buffer m s inputs) = Inr r"
    and child: "child = (sir_child_inputs r)\<lparr>ci_known_bytecode := ci_known_bytecode child,
                           ci_gas_limit := ci_gas_limit child\<rparr>"
    using subcall(5) by (auto simp: subcall_child_def p call_from_precompile_def)
  then have "decode_child_call env (resolve_shared_buffer m s inputs) = Inr (sir_child_inputs r, sir_gas_overhead r)"
    by (auto simp: call_from_init_def split: sum.splits)
  then obtain bytes calldata where d: "ci_input (resolve_shared_buffer m s inputs) = InputBytes bytes"
    "cfe_decode env bytes = Inr (ci_caller (sir_child_inputs r), ci_target_address (sir_child_inputs r), calldata)"
    "ci_input (sir_child_inputs r) = InputBytes calldata"
    "ci_scheme (sir_child_inputs r) = SchemeCall" "ci_value (sir_child_inputs r) = ValueTransfer 0"
    by (elim decode_child_call_Inr) blast
  have same: "ci_caller child = ci_caller (sir_child_inputs r)"
    "ci_target_address child = ci_target_address (sir_child_inputs r)"
    "ci_input child = ci_input (sir_child_inputs r)" "ci_scheme child = ci_scheme (sir_child_inputs r)"
    "ci_value child = ci_value (sir_child_inputs r)"
    by (subst child, simp)+
  have guards: "ci_scheme inputs = SchemeCall" "\<not> ci_is_static inputs" "\<not> fm_transfers_value m inputs"
    "ci_caller child \<in> {ci_caller inputs, txc_caller tx}"
    using subcall(5) by (simp_all add: subcall_child_def)
  show ?thesis
    by (intro conjI exI [of _ child] exI [of _ s] exI [of _ bytes] exI [of _ calldata])
       (use caller guards d same subcall(6) p in \<open>simp_all\<close>)
qed simp

text \<open>
  What \<open>CallFrom\<close> returns (C31). A completed call of a \<open>CallFrom\<close> child is never a revert: it is
  either the encoding of whether the child succeeded and what it returned, whatever that was,
  with the child's effects kept, or out of gas with the whole gas limit spent and the child's
  effects rolled back.
\<close>

theorem call_from_reports_child:
  assumes "gas_ops_laws (fm_gas m)" and "sc_precompile cont = call_from_precompile env"
    and "complete_subcall m (ResultCall oc) cont ev = (Inr final, ev')"
  shows "let ok = ir_is_ok (int_result (co_result oc)); r = fr_interpreter_result final in
    (int_result r = IrReturn \<and> int_output r = cfe_encode_returns env ok (int_output (co_result oc)) \<and> ev' = ev)
    \<or> (int_result r = IrOutOfGas \<and> int_output r = [] \<and> g_spent (fm_gas m) (int_gas r) = sc_gas_limit cont
       \<and> ev' = rollback_child m ok (sc_checkpoint cont) ev)"
proof -
  let ?child = "ResultCall oc"
  obtain s metered where a: "checked_add (sc_init_subcall_gas_overhead cont)
      (g_spent (fm_gas m) (int_gas (fr_interpreter_result ?child))) = Some s"
      "checked_add s (completion_overhead cont ?child) = Some metered"
    using assms(3)
    by (auto simp: complete_subcall_def Let_def completion_overhead_def split: option.splits sum.splits)
  obtain ok g where r: "g_record (fm_gas m)
      (if call_halted ?child then max (sc_gas_limit cont) metered else metered)
      (g_new (fm_gas m) (sc_gas_limit cont)) = (ok, g)" by fastforce
  show ?thesis
    using assms(2,3) gas_charge(5) [OF assms(1) r] unfolding complete_subcall_eq [OF a r]
    by (auto simp: Let_def call_from_precompile_def call_from_complete_def subcall_oog_def
        precompile_call_result_def call_succeeded_def split: if_splits)
qed

section \<open>The transaction handler\<close>

lemma sload_law:
  assumes "frame_load_laws m stor dead" and "fm_sload m a k s = (r, s')"
  shows "stor s' = stor s \<and> dead s' = dead s \<and> (\<forall>v c. r = Inr (v, c) \<longrightarrow> v = stor s a k)"
  using assms(1) [unfolded frame_load_laws_def, THEN conjunct1] assms(2) by blast

lemma load_account_law:
  assumes "frame_load_laws m stor dead" and "fm_load_account m a s = (r, s')"
  shows "stor s' = stor s \<and> dead s' = dead s \<and> (\<forall>i. r = Inr i \<longrightarrow> la_is_selfdestructed i = dead s a)"
  using assms(1) [unfolded frame_load_laws_def, THEN conjunct2, THEN conjunct1] assms(2) by blast

lemma handler_is_address_blocklisted_cases:
  assumes "frame_load_laws m stor dead" and "handler_is_address_blocklisted m a s = (r, s')"
  shows "stor s' = stor s \<and> dead s' = dead s
    \<and> (case r of Inr b \<Rightarrow> b = frame_blocked m stor s a | Inl e \<Rightarrow> \<exists>d. e = TxDbError d)"
proof -
  obtain q t where q: "fm_sload m NATIVE_COIN_CONTROL_ADDRESS
      (compute_is_blocklisted_storage_slot (fm_keccak256 m) a) s = (q, t)" by fastforce
  then have t: "stor t = stor s" "dead t = dead s"
    and loaded: "\<forall>v c. q = Inr (v, c) \<longrightarrow> v = stor s NATIVE_COIN_CONTROL_ADDRESS
       (compute_is_blocklisted_storage_slot (fm_keccak256 m) a)"
    using sload_law [OF assms(1)] by simp_all
  show ?thesis
  proof (cases q)
    case (Inl e)
    then show ?thesis using assms(2) q t by (auto simp: handler_is_address_blocklisted_def tx_db_def)
  next
    case (Inr p)
    then have "fst p = stor s NATIVE_COIN_CONTROL_ADDRESS (compute_is_blocklisted_storage_slot (fm_keccak256 m) a)"
      using loaded by (cases p) simp
    then show ?thesis
      using assms(2) q t Inr
      by (auto simp: handler_is_address_blocklisted_def tx_db_def frame_blocked_def split_beta)
  qed
qed

lemma check_blocklist_cases:
  assumes "frame_load_laws m stor dead" and "check_blocklist m caller kind v s = (r, s')"
  shows "stor s' = stor s \<and> dead s' = dead s
    \<and> (case r of
         Inr _ \<Rightarrow> \<not> frame_blocked m stor s caller \<and> (\<forall>to. kind = TxCall to \<and> v \<noteq> 0 \<longrightarrow> \<not> frame_blocked m stor s to)
       | Inl e \<Rightarrow> (\<exists>d. e = TxDbError d) \<or> e = InvalidTransactionStr ''Blocked address''
           \<and> (frame_blocked m stor s caller \<or> (\<exists>to. kind = TxCall to \<and> v \<noteq> 0 \<and> frame_blocked m stor s to)))"
proof -
  obtain q t where q: "handler_is_address_blocklisted m caller s = (q, t)" by fastforce
  note first = handler_is_address_blocklisted_cases [OF assms(1) q]
  show ?thesis
  proof (cases "\<exists>to. q = Inr False \<and> kind = TxCall to \<and> v \<noteq> 0")
    case True
    then obtain to where to: "q = Inr False" "kind = TxCall to" "v \<noteq> 0" by blast
    obtain q2 t2 where q2: "handler_is_address_blocklisted m to t = (q2, t2)" by fastforce
    note second = handler_is_address_blocklisted_cases [OF assms(1) q2]
    show ?thesis
      using assms(2) to q first q2 second
      by (cases q2) (auto simp: check_blocklist_def frame_blocked_def split: if_splits)
  next
    case False
    then show ?thesis
      using assms(2) q first
      by (cases q) (auto simp: check_blocklist_def split: if_splits tx_kind.splits)
  qed
qed


lemma unat_fee: "unat (ucast p * ucast u :: u256) = unat p * unat u" for p :: u128 and u :: u64
proof -
  have p: "unat p < 2 ^ 128" and u: "unat u < 2 ^ 64"
    using unat_lt2p [of p] unat_lt2p [of u] by simp_all
  have widen: "unat (ucast p :: u256) = unat p" "unat (ucast u :: u256) = unat u"
    by (rule unat_ucast_fits, rule less_trans [OF p], simp, rule unat_ucast_fits, rule less_trans [OF u], simp)
  have "unat p * unat u < 2 ^ 128 * 2 ^ 64"
    by (rule mult_strict_mono [OF p u]) simp_all
  then have "unat p * unat u < 2 ^ LENGTH(256)"
    by (rule less_trans) simp
  then show ?thesis
    using unat_mult_lem [of "ucast p :: u256" "ucast u"] by (simp only: widen)
qed


section \<open>Continuations between transactions\<close>

text \<open>
  A transaction or a system call hands no continuation on, whatever its outcome. A replay that
  fails does: it returns before the continuations are cleared.
\<close>

lemma transact_one_clears: "ae_continuations (snd (transact_one set_tx run tx ev)) = []"
  by (simp add: transact_one_def clear_continuations_def split: prod.splits)

lemma transact_system_call_clears:
  assumes "flags_is_active fl Zero7" and "ae_continuations ev = []"
  shows "ae_continuations (snd (transact_system_call fl inner m set_tx run finalize ev)) = []"
  using assms
  by (auto simp: transact_system_call_def clear_continuations_def on_ctx_def and_then_def Let_def
      split: prod.splits sum.splits)

lemma replay_error_keeps_continuations:
  "run ev = (Inl e, ev') \<Longrightarrow> replay run finalize ev = (Inl e, ev')"
  by (simp add: replay_def)

end
