(* ===== verification/Frame_Instance.thy ===== *)
theory Frame_Instance
  imports Frame_Safety
begin

text \<open>
  A concrete machine on which the laws of \<open>Frame_Safety\<close> hold, and the properties of the frames
  at work on it.
\<close>

section \<open>A concrete machine\<close>

text \<open>
  A machine in memory: storage, self-destructed accounts and logs as the state, a checkpoint
  as a copy of it, frames as their depth and a flag, and a gas counter of limit, remaining gas
  and refund. Every call pushes a frame that has finished.
\<close>

type_synonym mem_gas_counter = "u64 \<times> u64 \<times> int"
type_synonym mem_journal = "(address \<Rightarrow> storage_key \<Rightarrow> u256) \<times> (address \<Rightarrow> bool) \<times> evm_log list"
type_synonym mem_frame_machine = "(mem_journal, mem_journal, string, nat, unit, nat \<times> bool, mem_gas_counter) frame_machine"

definition mem_gas :: "mem_gas_counter gas_ops" where
  "mem_gas = \<lparr>
     g_new = (\<lambda>l. (l, l, 0)),
     g_record = (\<lambda>c (l, r, f). if c \<le> min r l then (True, (l, min r l - c, f)) else (False, (l, r, f))),
     g_spend_all = (\<lambda>(l, r, f). (l, 0, f)),
     g_set_spent = (\<lambda>n (l, r, f). (l, l - n, f)),
     g_remaining = (\<lambda>(l, r, f). min r l),
     g_spent = (\<lambda>(l, r, f). l - min r l),
     g_limit = fst,
     g_refunded = (\<lambda>(l, r, f). f),
     g_record_refund = (\<lambda>x (l, r, f). (l, r, f + x))\<rparr>"

definition mem_frames :: mem_frame_machine where
  "mem_frames = \<lparr>
     fm_gas = mem_gas,
     fm_sload = (\<lambda>a k (st, d, l). (Inr (st a k, False), (st, d, l))),
     fm_load_account = (\<lambda>a (st, d, l). (Inr \<lparr>la_nonce = 0, la_is_selfdestructed = d a\<rparr>, (st, d, l))),
     fm_load_code = (\<lambda>a skip s. (Inr \<lparr>lc_is_cold = True, lc_code_hash = 0, lc_code = Some 1\<rparr>, s)),
     fm_checkpoint = (\<lambda>s. (s, s)),
     fm_checkpoint_commit = (\<lambda>s. s),
     fm_checkpoint_revert = (\<lambda>cp s. cp),
     fm_log = (\<lambda>lg (st, d, l). (st, d, l @ [lg])),
     fm_log_count = (\<lambda>(st, d, l). length l),
     fm_init_with_context = (\<lambda>fi s. (Inr (Inl (fi_depth fi, True)), s)),
     fm_return_result = (\<lambda>f r s. (Inr f, s)),
     fm_frame_finished = snd,
     fm_frame_depth = fst,
     fm_shared_bytes = (\<lambda>r s. []),
     fm_transfer_from = ci_caller,
     fm_transfer_to = ci_target_address,
     fm_transfer_value = (\<lambda>ci. case ci_value ci of ValueTransfer v \<Rightarrow> Some v | ValueApparent v \<Rightarrow> None),
     fm_transfers_value = (\<lambda>ci. case ci_value ci of ValueTransfer v \<Rightarrow> v \<noteq> 0 | ValueApparent v \<Rightarrow> False),
     fm_created_address = (\<lambda>cr n. 77),
     fm_is_precompile = (\<lambda>a. a = 1),
     fm_eip7702_address = (\<lambda>c. None),
     fm_keccak256 = (\<lambda>b. of_nat (length b)),
     fm_abi_string = (\<lambda>t. []),
     fm_enc_Transfer = (\<lambda>a b v. \<lparr>ld_topics = [], ld_data = []\<rparr>),
     fm_system_address = 99,
     fm_cold_sload_cost = 2100,
     fm_warm_storage_read_cost = 100,
     fm_cold_account_access_cost = 2600\<rparr>"

lemma mem_gas_laws: "gas_ops_laws (fm_gas mem_frames)"
proof -
  have "min (min r l - c) l = min r l - c" if "c \<le> min r l" for r l c :: u64
    using order_trans [OF word_sub_le [OF that] min.cobounded2] by (rule min_absorb1)
  then show ?thesis
    by (auto simp: gas_ops_laws_def mem_frames_def mem_gas_def split: if_splits)
qed

lemma mem_frame_load_laws: "frame_load_laws mem_frames fst (\<lambda>s. fst (snd s))"
  by (auto simp: frame_load_laws_def mem_frames_def split: prod.splits)

lemma mem_depth_laws: "frame_depth_laws mem_frames"
  by (simp add: frame_depth_laws_def mem_frames_def)

type_synonym mem_evm =
  "(mem_journal, nat \<times> bool, nat, unit, mem_gas_counter, mem_journal) arc_evm_state"

definition ex_evm :: "u256 \<Rightarrow> mem_evm" where
  "ex_evm v = \<lparr>ae_ctx = (\<lambda>a k. v, \<lambda>a. False, []), ae_frame_stack = [], ae_continuations = [], ae_completions = []\<rparr>"

definition ex_inputs :: "address \<Rightarrow> address \<Rightarrow> u256 \<Rightarrow> nat call_inputs" where
  "ex_inputs from to v =
     \<lparr>ci_scheme = SchemeCall, ci_target_address = to, ci_bytecode_address = to, ci_known_bytecode = (0, 0),
      ci_value = ValueTransfer v, ci_input = InputBytes [1, 2], ci_gas_limit = 100000, ci_is_static = False,
      ci_caller = from, ci_return_memory_offset = (0, 0), ci_reservoir = 0\<rparr>"

definition ex_frame :: "address \<Rightarrow> address \<Rightarrow> u256 \<Rightarrow> (nat, unit) frame_start_data" where
  "ex_frame from to v = \<lparr>fi_depth = 0, fi_memory = (), fi_input = FrameCall (ex_inputs from to v)\<rparr>"

definition ex_tx_context :: tx_context where
  "ex_tx_context = \<lparr>txc_caller = 42, txc_nonce = 0\<rparr>"

definition ex_call_from_env :: "nat call_from_env" where
  "ex_call_from_env = \<lparr>cfe_decode = (\<lambda>b. Inr (42, 9, b)), cfe_encode_returns = (\<lambda>ok b. (if ok then 1 else 0) # b),
     cfe_copy_gas = 3, cfe_default_bytecode = 0\<rparr>"

definition zero7_flags :: arc_hardfork_flags where
  "zero7_flags = no_hardforks\<lparr>zero7 := True\<rparr>"

lemma mem_gas_simps [simp]:
  "fm_gas mem_frames = mem_gas" "g_new mem_gas l = (l, l, 0)" "g_limit mem_gas (l, r, f) = l"
  "g_remaining mem_gas (l, r, f) = min r l" "g_spent mem_gas (l, r, f) = l - min r l"
  "g_record mem_gas c (l, r, f) = (if c \<le> min r l then (True, (l, min r l - c, f)) else (False, (l, r, f)))"
  "g_refunded mem_gas (l, r, f) = f" "g_record_refund mem_gas x (l, r, f) = (l, r, f + x)"
  by (simp_all add: mem_frames_def mem_gas_def)

lemma ex_before:
  "before_frame_init mem_frames fl tx \<lparr>fi_depth = d, fi_memory = (), fi_input = FrameCall inputs\<rparr> ev
     = (Inr (BeforeNone, \<lparr>fi_depth = d, fi_memory = (), fi_input = FrameCall inputs\<rparr>), ev)"
  if "ci_value inputs = ValueTransfer 0"
  using that by (simp add: before_frame_init_def mem_frames_def split: call_scheme.splits)

lemma ex_checked:
  "checked_frame_init mem_frames fl tx \<lparr>fi_depth = d, fi_memory = (), fi_input = FrameCall inputs\<rparr> ev
     = (Inr Pushed, ev\<lparr>ae_frame_stack := (d, True) # ae_frame_stack ev\<rparr>)"
  if "ci_value inputs = ValueTransfer 0"
  using that
  by (simp add: checked_frame_init_def ex_before init_deferred_frame_with_transfer_log_def
      init_precompile_frame_with_transfer_log_def init_frame_def on_ctx_def Let_def)
     (simp add: mem_frames_def)

lemma ex_decode:
  "call_from_init ex_call_from_env (ex_inputs a b 0) = Inr
     \<lparr>sir_child_inputs = (ex_inputs 42 9 0)\<lparr>ci_gas_limit := 98337\<rparr>, sir_continuation_data = (), sir_gas_overhead = 103\<rparr>"
  by (simp add: call_from_init_def decode_child_call_def abi_decode_gas_def words_of_def ABI_DECODE_BASE_GAS_def
      saturating_add_def saturating_mul_def checked_add_def checked_mul_def checked_sub_def ex_inputs_def ex_call_from_env_def Let_def)


text \<open>A call of \<open>CallFrom\<close> by Memo on behalf of the signer, and the return of its child.\<close>

definition ex_cont :: "(nat, unit, mem_gas_counter, mem_journal) subcall_continuation" where
  "ex_cont = \<lparr>sc_precompile = call_from_precompile ex_call_from_env, sc_gas_limit = 100000,
     sc_init_subcall_gas_overhead = 2703, sc_return_memory_offset = (0, 0), sc_continuation_data = (),
     sc_checkpoint = ae_ctx (ex_evm 0)\<rparr>"

definition ex_child_pushed :: mem_evm where
  "ex_child_pushed = (ex_evm 0)\<lparr>ae_frame_stack := [(1, True)], ae_continuations := [(0, ex_cont)]\<rparr>"

definition ex_child_result :: "mem_gas_counter frame_result" where
  "ex_child_result = ResultCall \<lparr>co_result = \<lparr>int_result = IrReturn, int_output = [7], int_gas = (95777, 90000, 0)\<rparr>,
     co_memory_offset = (0, 0), co_was_precompile_called = False\<rparr>"

lemma ex_dispatch:
  assumes "ci_value child = ValueTransfer 0"
  shows "dispatch_child mem_frames fl tx True \<lparr>fi_depth = 0, fi_memory = (), fi_input = fi\<rparr> (ex_inputs a b 0)
     (call_from_precompile ex_call_from_env) () child (100000, 97297, 0) (ex_evm 0)
   = (Inr Pushed, ex_child_pushed)"
  using assms
  by (simp add: dispatch_child_def ex_checked ex_inputs_def Let_def)
     (simp add: mem_frames_def ex_evm_def ex_child_pushed_def ex_cont_def)

lemma ex_load_child:
  "load_child_bytecode mem_frames child (100000, 99897, 0) ev
   = (Inr (Some (child\<lparr>ci_known_bytecode := (0, 1)\<rparr>), (100000, 97297, 0)), ev)"
  by (simp add: load_child_bytecode_def load_account_with_code_metered_def Let_def)
     (simp add: mem_frames_def)

lemma ex_inputs_simps [simp]:
  "ci_scheme (ex_inputs a b v) = SchemeCall" "ci_is_static (ex_inputs a b v) = False" "ci_caller (ex_inputs a b v) = a"
  "ci_target_address (ex_inputs a b v) = b" "ci_gas_limit (ex_inputs a b v) = 100000"
  "ci_value (ex_inputs a b v) = ValueTransfer v" "fm_transfers_value mem_frames (ex_inputs a b v) = (v \<noteq> 0)"
  "resolve_shared_buffer mem_frames s (ex_inputs a b v) = ex_inputs a b v"
  by (simp_all add: ex_inputs_def mem_frames_def resolve_shared_buffer_def)

lemma ex_init_subcall:
  "init_subcall mem_frames fl ex_tx_context True \<lparr>fi_depth = 0, fi_memory = (), fi_input = FrameCall (ex_inputs a b 0)\<rparr>
     (call_from_precompile ex_call_from_env) (ex_evm 0) = (Inr Pushed, ex_child_pushed)"
proof -
  have "on_ctx (fm_load_account mem_frames x) (ex_evm 0) =
      (Inr \<lparr>la_nonce = 0, la_is_selfdestructed = False\<rparr>, ex_evm 0)" for x
    by (simp add: on_ctx_def mem_frames_def ex_evm_def)
  moreover have "sp_init_subcall (call_from_precompile ex_call_from_env :: (nat, unit, mem_gas_counter) subcall_precompile)
      (ex_inputs a b 0) = Inr
      \<lparr>sir_child_inputs = (ex_inputs 42 9 0)\<lparr>ci_gas_limit := 98337\<rparr>, sir_continuation_data = (), sir_gas_overhead = 103\<rparr>"
    by (simp add: call_from_precompile_def ex_decode)
  moreover have "txc_caller ex_tx_context = 42" by (simp add: ex_tx_context_def)
  ultimately show ?thesis
    by (simp add: init_subcall_def ex_load_child ex_dispatch Let_def)
qed

lemma ex_call_from_starts:
  "frame_init mem_frames zero7_flags ex_tx_context True (build_subcall_registry ex_call_from_env zero7_flags)
     (ex_frame MEMO_ADDRESS CALL_FROM_ADDRESS 0) (ex_evm 0) = (Inr Pushed, ex_child_pushed)"
  by (simp add: frame_init_def ex_frame_def ex_before ex_init_subcall build_subcall_registry_def registry_register_def
      registry_get_def zero7_flags_def)

lemma ex_completes:
  "complete_subcall mem_frames ex_child_result ex_cont ev =
     (Inr (precompile_call_result IrReturn [1, 7] (100000, 91417, 0) (0, 0)), ev)"
  by (simp add: complete_subcall_def ex_child_result_def ex_cont_def call_from_precompile_def call_from_complete_def
      ex_call_from_env_def abi_encode_gas_def words_of_def ABI_ENCODE_BASE_GAS_def saturating_add_def saturating_mul_def
      checked_add_def checked_mul_def Let_def)

lemma ex_returns:
  "\<exists>r ev'. frame_return_result mem_frames True ex_child_result ex_child_pushed = (Inr r, ev')
     \<and> ae_frame_stack ev' = [] "
  by (simp add: frame_return_result_def ex_child_pushed_def complete_and_notify_def ex_completes return_to_parent_def
      ex_evm_def Let_def)
     (simp add: mem_frames_def)


theorem no_stale_continuations_witness:
  "\<exists>ev'. (evm_step mem_frames zero7_flags ex_tx_context True (build_subcall_registry ex_call_from_env zero7_flags))\<^sup>*\<^sup>*
      (ex_evm 0) ev' \<and> ae_frame_stack ev' = [] \<and> ae_continuations ev' = []"
proof -
  let ?step = "evm_step mem_frames zero7_flags ex_tx_context True (build_subcall_registry ex_call_from_env zero7_flags)"
  have "?step (ex_evm 0) ex_child_pushed"
    by (rule evm_step.init [OF _ ex_call_from_starts]) (simp add: ex_frame_def next_depth_def ex_evm_def)
  moreover obtain r ev' where ret: "frame_return_result mem_frames True ex_child_result ex_child_pushed = (Inr r, ev')"
    and stack: "ae_frame_stack ev' = []"
    using ex_returns by blast
  have "?step ex_child_pushed ev'" by (rule evm_step.return [OF ret])
  ultimately have steps: "?step\<^sup>*\<^sup>* (ex_evm 0) ev'" by simp
  have "ae_frame_stack (ex_evm 0) = []" "ae_continuations (ex_evm 0) = []" by (simp_all add: ex_evm_def)
  from no_stale_continuations [OF steps this mem_gas_laws mem_depth_laws] show ?thesis
    using steps stack by blast
qed

theorem subcall_completion_witness:
  "\<exists>final ev'. complete_subcall mem_frames ex_child_result ex_cont (ex_evm 0) = (Inr final, ev')
     \<and> g_limit mem_gas (int_gas (fr_interpreter_result final)) = 100000
     \<and> g_spent mem_gas (int_gas (fr_interpreter_result final)) \<le> 100000"
proof -
  have "completion_overhead ex_cont ex_child_result = 103"
    by (simp add: completion_overhead_def ex_child_result_def ex_cont_def call_from_precompile_def
        call_from_complete_def ex_call_from_env_def abi_encode_gas_def words_of_def ABI_ENCODE_BASE_GAS_def
        saturating_add_def saturating_mul_def checked_add_def checked_mul_def Let_def)
  then have fits: "unat (sc_gas_limit ex_cont) + unat (completion_overhead ex_cont ex_child_result) < 2 ^ 64"
    by (simp add: ex_cont_def)
  have "unat (sc_init_subcall_gas_overhead ex_cont)
      + unat (g_limit (fm_gas mem_frames) (int_gas (fr_interpreter_result ex_child_result)))
      \<le> unat (sc_gas_limit ex_cont)"
    by (simp add: ex_cont_def ex_child_result_def)
  from subcall_completion [OF mem_gas_laws this fits] obtain final ev' where
    "complete_subcall mem_frames ex_child_result ex_cont (ex_evm 0) = (Inr final, ev')"
    "g_limit mem_gas (int_gas (fr_interpreter_result final)) = sc_gas_limit ex_cont"
    "g_spent mem_gas (int_gas (fr_interpreter_result final)) \<le> sc_gas_limit ex_cont"
    unfolding Let_def mem_gas_simps by blast
  moreover have "sc_gas_limit ex_cont = 100000" by (simp add: ex_cont_def)
  ultimately show ?thesis by simp
qed

theorem call_from_acts_for_origin_only_witness:
  "\<exists>child. ci_caller child = 42
     \<and> child_pushed mem_frames (ex_frame MEMO_ADDRESS CALL_FROM_ADDRESS 0) (ex_inputs MEMO_ADDRESS CALL_FROM_ADDRESS 0)
         (call_from_precompile ex_call_from_env) child (ex_evm 0) ex_child_pushed"
proof -
  have "fi_input (ex_frame MEMO_ADDRESS CALL_FROM_ADDRESS 0) = FrameCall (ex_inputs MEMO_ADDRESS CALL_FROM_ADDRESS 0)"
    by (simp add: ex_frame_def)
  from call_from_acts_for_origin_only [OF mem_gas_laws ex_call_from_starts this] show ?thesis
    by (auto simp: zero7_flags_def ex_call_from_env_def)
qed

theorem call_from_reports_child_witness:
  "\<exists>final. complete_subcall mem_frames ex_child_result ex_cont (ex_evm 0) = (Inr final, ex_evm 0)
     \<and> int_output (fr_interpreter_result final) \<in> {[1, 7], []}"
proof -
  obtain oc where oc: "ex_child_result = ResultCall oc" "ir_is_ok (int_result (co_result oc))" "int_output (co_result oc) = [7]"
    by (simp add: ex_child_result_def)
  have "sc_precompile ex_cont = call_from_precompile ex_call_from_env" by (simp add: ex_cont_def)
  from call_from_reports_child [OF mem_gas_laws this ex_completes [of "ex_evm 0", unfolded oc(1)]]
  have "int_output (fr_interpreter_result (precompile_call_result IrReturn [1, 7] (100000 :: u64, 91417 :: u64, 0 :: int) (0, 0)))
      \<in> {[1, 7], []}"
    using oc(2,3) by (auto simp: ex_call_from_env_def Let_def)
  then show ?thesis
    using ex_completes [of "ex_evm 0"] by blast
qed



end
