(* ===== verification/Proposal_Monitor.thy ===== *)
theory Proposal_Monitor
  imports Proposal_Parts
begin

text \<open>
  The monitoring record of a height's round-0 proposal, \<open>types/src/proposal_monitor.rs\<close>. The
  clock is an argument of the operation that reads it.
\<close>

datatype proposal_success_state = SuccessUnknown | Unsuccessful | Successful

fun success_to_bool :: "proposal_success_state \<Rightarrow> bool option" where
  "success_to_bool SuccessUnknown = None"
| "success_to_bool Unsuccessful = Some False"
| "success_to_bool Successful = Some True"

fun success_as_u32 :: "proposal_success_state \<Rightarrow> u32" where
  "success_as_u32 SuccessUnknown = 0"
| "success_as_u32 Unsuccessful = 1"
| "success_as_u32 Successful = 2"

definition success_from_u32 :: "u32 \<Rightarrow> proposal_success_state" where
  "success_from_u32 value =
     (if value = 0 then SuccessUnknown
      else if value = 1 then Unsuccessful
      else if value = 2 then Successful
      else SuccessUnknown)"

record proposal_monitor =
  pm_height :: height
  pm_proposer :: address
  pm_start_time :: int
  pm_proposal_receive_time :: "int option"
  pm_value_id :: "block_hash option"
  pm_successful :: proposal_success_state
  pm_synced :: bool

definition monitor_new :: "height \<Rightarrow> address \<Rightarrow> int \<Rightarrow> proposal_monitor" where
  "monitor_new height proposer start_time =
     \<lparr>pm_height = height, pm_proposer = proposer, pm_start_time = start_time, pm_proposal_receive_time = None,
      pm_value_id = None, pm_successful = SuccessUnknown, pm_synced = False\<rparr>"

definition record_proposal :: "int \<Rightarrow> block_hash \<Rightarrow> proposal_monitor \<Rightarrow> proposal_monitor" where
  "record_proposal now value_id pm =
     (if pm_value_id pm \<noteq> None \<and> \<not> pm_synced pm then pm
      else pm\<lparr>pm_proposal_receive_time := Some now, pm_value_id := Some value_id, pm_synced := False\<rparr>)"

definition attach_assembled_value_id :: "block_hash \<Rightarrow> proposal_monitor \<Rightarrow> proposal_monitor" where
  "attach_assembled_value_id value_id pm =
     (if pm_synced pm then pm
      else case pm_value_id pm of
        None \<Rightarrow> pm\<lparr>pm_value_id := Some value_id\<rparr>
      | Some existing \<Rightarrow> pm)"

definition monitor_is_successful :: "proposal_monitor \<Rightarrow> block_hash \<Rightarrow> bool" where
  "monitor_is_successful pm decided_value_id =
     (case pm_value_id pm of Some v \<Rightarrow> v = decided_value_id | None \<Rightarrow> False)"

definition mark_decided :: "block_hash \<Rightarrow> proposal_monitor \<Rightarrow> proposal_monitor" where
  "mark_decided decided_value_id pm =
     pm\<lparr>pm_successful := (if monitor_is_successful pm decided_value_id then Successful else Unsuccessful)\<rparr>"

definition mark_synced :: "proposal_monitor \<Rightarrow> proposal_monitor" where
  "mark_synced pm = pm\<lparr>pm_synced := True\<rparr>"

lemma success_u32_roundtrip [simp]: "success_from_u32 (success_as_u32 s) = s"
  by (cases s) (simp_all add: success_from_u32_def)

text \<open>
  The first proposal of a height wins: what is recorded first stays, whatever is recorded or
  attached later, as long as the height is not synced.
\<close>

lemma first_value_kept:
  assumes "pm_value_id pm = Some v" and "\<not> pm_synced pm"
  shows "record_proposal now w pm = pm" and "attach_assembled_value_id w pm = pm"
  using assms by (simp_all add: record_proposal_def attach_assembled_value_id_def)

end
