(* ===== verification/Consensus_Store.thy ===== *)
theory Consensus_Store
  imports Proposal_Monitor "HOL-Library.Product_Lexorder"
begin

text \<open>
  The consensus database, \<open>consensus-db/src/store.rs\<close>: seven ordered tables of encoded records,
  the operations on them, pruning and rollback. The embedded database is a set of ordered maps
  with transactions: a write transaction runs on a copy that replaces the tables when it
  commits, and any failure leaves them as they were. Which transactions fail is up to the
  environment. The encoding of the records is the record \<open>store_codec\<close>.
\<close>

section \<open>Records and tables\<close>

datatype commit_certificate_type = CertUnknown | CertMinimal | CertExtended

record 'sig commit_certificate =
  cc_height :: height
  cc_round :: round
  cc_value_id :: block_hash
  cc_commit_signatures :: "(address \<times> 'sig) list"

record 'sig stored_commit_certificate =
  scc_certificate :: "'sig commit_certificate"
  scc_certificate_type :: commit_certificate_type
  scc_proposer :: "address option"

record 'sig decided_block =
  dcb_execution_payload :: exec_payload
  dcb_certificate :: "'sig commit_certificate"

record 'ev stored_misbehavior_evidence =
  sme_height :: height
  sme_validators :: "'ev list"

definition empty_evidence :: "height \<Rightarrow> 'ev stored_misbehavior_evidence" where
  "empty_evidence height = \<lparr>sme_height = height, sme_validators = []\<rparr>"

record invalid_payload =
  ip_height :: height
  ip_round :: round
  ip_proposer_address :: address
  ip_payload :: "exec_payload option"
  ip_reason :: string

definition new_from_block :: "'sig consensus_block \<Rightarrow> string \<Rightarrow> invalid_payload" where
  "new_from_block block with_reason =
     \<lparr>ip_height = cb_height block, ip_round = cb_round block, ip_proposer_address = cb_proposer block,
      ip_payload = Some (cb_payload block), ip_reason = with_reason\<rparr>"

definition new_from_parts :: "'sig proposal_parts \<Rightarrow> string \<Rightarrow> invalid_payload" where
  "new_from_parts parts with_reason =
     \<lparr>ip_height = pp_height parts, ip_round = pp_round parts, ip_proposer_address = pp_proposer parts,
      ip_payload = None, ip_reason = with_reason\<rparr>"

definition new_without_payload :: "height \<Rightarrow> round \<Rightarrow> address \<Rightarrow> string \<Rightarrow> invalid_payload" where
  "new_without_payload height round proposer_address reason =
     \<lparr>ip_height = height, ip_round = round, ip_proposer_address = proposer_address, ip_payload = None,
      ip_reason = reason\<rparr>"

record stored_invalid_payloads =
  sip_height :: height
  sip_payloads :: "invalid_payload list"

definition empty_payloads :: "height \<Rightarrow> stored_invalid_payloads" where
  "empty_payloads height = \<lparr>sip_height = height, sip_payloads = []\<rparr>"

definition add_invalid_payload :: "invalid_payload \<Rightarrow> stored_invalid_payloads \<Rightarrow> stored_invalid_payloads" where
  "add_invalid_payload payload sip = sip\<lparr>sip_payloads := sip_payloads sip @ [payload]\<rparr>"

text \<open>
  Keys compare as the key types of \<open>keys.rs\<close> do: heights as unsigned numbers, rounds as signed
  ones with \<open>Nil\<close> as \<open>-1\<close>, hashes as big-endian numbers, and composite keys lexicographically.
\<close>

type_synonym composite_key = "height \<times> int \<times> block_hash"
type_synonym height_table = "(height, bytes) btree_map"
type_synonym composite_table = "(composite_key, bytes) btree_map"

record tables =
  certificates :: height_table
  decided_blocks :: height_table
  undecided_blocks :: composite_table
  pending_proposal_parts :: composite_table
  misbehavior_evidence :: height_table
  invalid_payloads :: height_table
  proposal_monitor_data :: height_table

record ('sig, 'ev) store_codec =
  enc_payload :: "exec_payload \<Rightarrow> bytes"
  dec_payload :: "bytes \<Rightarrow> string + exec_payload"
  enc_certificate :: "'sig stored_commit_certificate \<Rightarrow> string + bytes"
  dec_certificate :: "bytes \<Rightarrow> string + 'sig stored_commit_certificate"
  enc_evidence :: "'ev stored_misbehavior_evidence \<Rightarrow> string + bytes"
  dec_evidence :: "bytes \<Rightarrow> string + 'ev stored_misbehavior_evidence"
  enc_monitor :: "proposal_monitor \<Rightarrow> string + bytes"
  dec_monitor :: "bytes \<Rightarrow> string + proposal_monitor"
  enc_invalid :: "stored_invalid_payloads \<Rightarrow> string + bytes"
  dec_invalid :: "bytes \<Rightarrow> string + stored_invalid_payloads"
  enc_block :: "'sig consensus_block \<Rightarrow> bytes"
  dec_block :: "bytes \<Rightarrow> string + 'sig consensus_block"
  enc_parts :: "'sig proposal_parts \<Rightarrow> string + bytes"
  dec_parts :: "bytes \<Rightarrow> string + 'sig proposal_parts"
  codec_keccak256 :: "bytes \<Rightarrow> bytes"
  codec_sig_to_bytes :: "'sig \<Rightarrow> bytes"

datatype store_error =
    DatabaseFailure string
  | ProtobufError string
  | DecodeError string
  | StoreOther string
  | StorePanic string

section \<open>Transactions\<close>

record redb_env =
  re_begin_read :: "tables \<Rightarrow> string option"
  re_begin_write :: "tables \<Rightarrow> string option"
  re_commit :: "tables \<Rightarrow> string option"

definition read_tx :: "redb_env \<Rightarrow> (tables \<Rightarrow> store_error + 'a) \<Rightarrow> tables \<Rightarrow> store_error + 'a" where
  "read_tx env f db = (case re_begin_read env db of Some e \<Rightarrow> Inl (DatabaseFailure e) | None \<Rightarrow> f db)"

definition write_tx ::
  "redb_env \<Rightarrow> (tables \<Rightarrow> store_error + 'a \<times> tables) \<Rightarrow> tables \<Rightarrow> (store_error + 'a) \<times> tables" where
  "write_tx env f db =
     (case re_begin_write env db of
        Some e \<Rightarrow> (Inl (DatabaseFailure e), db)
      | None \<Rightarrow>
          (case f db of
             Inl e \<Rightarrow> (Inl e, db)
           | Inr (a, db') \<Rightarrow>
               (case re_commit env db' of
                  Some e \<Rightarrow> (Inl (DatabaseFailure e), db)
                | None \<Rightarrow> (Inr a, db'))))"

text \<open>Decoding a row, and sequencing of fallible computations.\<close>

definition bind_result :: "'e + 'a \<Rightarrow> ('a \<Rightarrow> 'e + 'b) \<Rightarrow> 'e + 'b" where
  "bind_result r k = (case r of Inl e \<Rightarrow> Inl e | Inr a \<Rightarrow> k a)"

definition decoded :: "(bytes \<Rightarrow> string + 'a) \<Rightarrow> bytes \<Rightarrow> store_error + 'a" where
  "decoded dec b = map_sum DecodeError id (dec b)"

definition decoded_row :: "(bytes \<Rightarrow> string + 'a) \<Rightarrow> bytes option \<Rightarrow> store_error + 'a option" where
  "decoded_row dec row =
     (case row of None \<Rightarrow> Inr None | Some b \<Rightarrow> map_sum id Some (decoded dec b))"

definition right_or_none :: "'e + 'a \<Rightarrow> 'a option" where
  "right_or_none r = (case r of Inl _ \<Rightarrow> None | Inr a \<Rightarrow> Some a)"

definition bt_first :: "('k, 'v) btree_map \<Rightarrow> ('k \<times> 'v) option" where
  "bt_first m = (case m of [] \<Rightarrow> None | e # _ \<Rightarrow> Some e)"

definition bt_last :: "('k, 'v) btree_map \<Rightarrow> ('k \<times> 'v) option" where
  "bt_last m = (if m = [] then None else Some (last m))"

section \<open>Decided blocks and certificates\<close>

definition get_payload ::
  "redb_env \<Rightarrow> ('sig, 'ev) store_codec \<Rightarrow> height \<Rightarrow> tables \<Rightarrow> store_error + exec_payload option" where
  "get_payload env codec height =
     read_tx env (\<lambda>db. decoded_row (dec_payload codec) (bt_get (decided_blocks db) height))"

definition get_certificate ::
  "redb_env \<Rightarrow> ('sig, 'ev) store_codec \<Rightarrow> height option \<Rightarrow> tables
     \<Rightarrow> store_error + 'sig stored_commit_certificate option" where
  "get_certificate env codec height =
     read_tx env (\<lambda>db.
       let bytes = (case height of
                      Some height \<Rightarrow> bt_get (certificates db) height
                    | None \<Rightarrow> map_option snd (bt_last (certificates db)))
       in Inr (Option.bind bytes (\<lambda>b. right_or_none (dec_certificate codec b))))"

text \<open>\<open>DecidedBlock::new\<close> asserts that the hash of the payload is the one of the certificate.\<close>

definition decided_block_new :: "exec_payload \<Rightarrow> 'sig commit_certificate \<Rightarrow> store_error + 'sig decided_block" where
  "decided_block_new execution_payload certificate =
     (if pl_block_hash execution_payload \<noteq> cc_value_id certificate
      then Inl (StorePanic ''Block hash in the execution payload does not match the hash in the commit certificate'')
      else Inr \<lparr>dcb_execution_payload = execution_payload, dcb_certificate = certificate\<rparr>)"

definition get_decided_block ::
  "redb_env \<Rightarrow> ('sig, 'ev) store_codec \<Rightarrow> height \<Rightarrow> tables \<Rightarrow> store_error + 'sig decided_block option" where
  "get_decided_block env codec height =
     read_tx env (\<lambda>db.
       bind_result (decoded_row (dec_payload codec) (bt_get (decided_blocks db) height)) (\<lambda>payload.
       let certificate = Option.bind (bt_get (certificates db) height) (\<lambda>b. right_or_none (dec_certificate codec b))
       in case (payload, certificate) of
            (Some execution_payload, Some cert) \<Rightarrow>
              map_sum id Some (decided_block_new execution_payload (scc_certificate cert))
          | _ \<Rightarrow> Inr None))"

definition insert_certificate ::
  "('sig, 'ev) store_codec \<Rightarrow> 'sig commit_certificate \<Rightarrow> commit_certificate_type \<Rightarrow> address option \<Rightarrow> tables
     \<Rightarrow> store_error + tables" where
  "insert_certificate codec certificate certificate_type proposer db =
     (let stored = \<lparr>scc_certificate = certificate, scc_certificate_type = certificate_type, scc_proposer = proposer\<rparr>
      in case enc_certificate codec stored of
           Inl e \<Rightarrow> Inl (ProtobufError e)
         | Inr encoded \<Rightarrow>
             Inr (db\<lparr>certificates := bt_insert (cc_height certificate) encoded (certificates db)\<rparr>))"

definition insert_decided_block ::
  "redb_env \<Rightarrow> ('sig, 'ev) store_codec \<Rightarrow> 'sig decided_block \<Rightarrow> address \<Rightarrow> tables \<Rightarrow> (store_error + unit) \<times> tables" where
  "insert_decided_block env codec decided_block proposer =
     write_tx env (\<lambda>db.
       let height = cc_height (dcb_certificate decided_block);
           block_bytes = enc_payload codec (dcb_execution_payload decided_block);
           db = db\<lparr>decided_blocks := bt_insert height block_bytes (decided_blocks db)\<rparr>
       in map_sum id (Pair ())
            (insert_certificate codec (dcb_certificate decided_block) CertMinimal (Some proposer) db))"

definition store_decided_block ::
  "redb_env \<Rightarrow> ('sig, 'ev) store_codec \<Rightarrow> 'sig commit_certificate \<Rightarrow> exec_payload \<Rightarrow> address \<Rightarrow> tables
     \<Rightarrow> (store_error + unit) \<times> tables" where
  "store_decided_block env codec certificate execution_payload proposer db =
     (case decided_block_new execution_payload certificate of
        Inl e \<Rightarrow> (Inl e, db)
      | Inr decided_block \<Rightarrow> insert_decided_block env codec decided_block proposer db)"

definition extend_certificate ::
  "redb_env \<Rightarrow> ('sig, 'ev) store_codec \<Rightarrow> 'sig commit_certificate \<Rightarrow> tables \<Rightarrow> (store_error + unit) \<times> tables" where
  "extend_certificate env codec certificate =
     write_tx env (\<lambda>db.
       case bt_get (certificates db) (cc_height certificate) of
         None \<Rightarrow> Inl (StoreOther ''no existing certificate was found'')
       | Some bytes \<Rightarrow>
           (case dec_certificate codec bytes of
              Inl e \<Rightarrow> Inl (StoreOther ''Failed to decode existing certificate'')
            | Inr existing \<Rightarrow>
                if cc_height certificate \<noteq> cc_height (scc_certificate existing)
                then Inl (StoreOther ''existing certificate has different height'')
                else if cc_round certificate \<noteq> cc_round (scc_certificate existing)
                then Inl (StoreOther ''existing certificate has different round'')
                else if cc_value_id certificate \<noteq> cc_value_id (scc_certificate existing)
                then Inl (StoreOther ''existing certificate has different value_id'')
                else if \<exists>signature \<in> set (cc_commit_signatures (scc_certificate existing)).
                          signature \<notin> set (cc_commit_signatures certificate)
                then Inl (StoreOther ''existing commit signature is missing in the new certificate'')
                else map_sum id (Pair ())
                       (insert_certificate codec certificate CertExtended (scc_proposer existing) db)))"

section \<open>Evidence, monitoring data and invalid payloads\<close>

definition limit_height :: "redb_env \<Rightarrow> bool \<Rightarrow> tables \<Rightarrow> store_error + height option" where
  "limit_height env mn =
     read_tx env (\<lambda>db. Inr (map_option fst (if mn then bt_first (certificates db) else bt_last (certificates db))))"

definition min_height :: "redb_env \<Rightarrow> tables \<Rightarrow> store_error + height option" where
  "min_height env = limit_height env True"

definition max_height :: "redb_env \<Rightarrow> tables \<Rightarrow> store_error + height option" where
  "max_height env = limit_height env False"

definition insert_misbehavior_evidence ::
  "redb_env \<Rightarrow> ('sig, 'ev) store_codec \<Rightarrow> 'ev stored_misbehavior_evidence \<Rightarrow> tables
     \<Rightarrow> (store_error + unit) \<times> tables" where
  "insert_misbehavior_evidence env codec evidence =
     write_tx env (\<lambda>db.
       case enc_evidence codec evidence of
         Inl e \<Rightarrow> Inl (ProtobufError e)
       | Inr encoded \<Rightarrow>
           Inr ((), db\<lparr>misbehavior_evidence := bt_insert (sme_height evidence) encoded (misbehavior_evidence db)\<rparr>))"

definition insert_proposal_monitor_data ::
  "redb_env \<Rightarrow> ('sig, 'ev) store_codec \<Rightarrow> proposal_monitor \<Rightarrow> tables \<Rightarrow> (store_error + unit) \<times> tables" where
  "insert_proposal_monitor_data env codec data =
     write_tx env (\<lambda>db.
       case enc_monitor codec data of
         Inl e \<Rightarrow> Inl (ProtobufError e)
       | Inr encoded \<Rightarrow>
           Inr ((), db\<lparr>proposal_monitor_data := bt_insert (pm_height data) encoded (proposal_monitor_data db)\<rparr>))"

definition get_proposal_monitor_data ::
  "redb_env \<Rightarrow> ('sig, 'ev) store_codec \<Rightarrow> height option \<Rightarrow> tables \<Rightarrow> store_error + proposal_monitor option" where
  "get_proposal_monitor_data env codec height =
     read_tx env (\<lambda>db.
       decoded_row (dec_monitor codec)
         (case height of
            Some height \<Rightarrow> bt_get (proposal_monitor_data db) height
          | None \<Rightarrow> map_option snd (bt_last (proposal_monitor_data db))))"

text \<open>
  Evidence and invalid payloads are reported for finalised heights only, the latest one by
  default, and a height without a record has the empty one.
\<close>

definition get_finalized_record ::
  "redb_env \<Rightarrow> (tables \<Rightarrow> height_table) \<Rightarrow> (bytes \<Rightarrow> string + 'a) \<Rightarrow> (height \<Rightarrow> 'a) \<Rightarrow> height option \<Rightarrow> tables
     \<Rightarrow> store_error + 'a option" where
  "get_finalized_record env table dec empty_of height db =
     bind_result (max_height env db) (\<lambda>latest.
       case latest of
         None \<Rightarrow> Inr None
       | Some mx \<Rightarrow>
           let read = (\<lambda>height. read_tx env (\<lambda>db.
                 bind_result (decoded_row dec (bt_get (table db) height)) (\<lambda>r.
                   Inr (Some (case r of Some a \<Rightarrow> a | None \<Rightarrow> empty_of height)))) db)
           in case height of
                Some height \<Rightarrow> if mx < height then Inr None else read height
              | None \<Rightarrow> read mx)"

definition get_misbehavior_evidence ::
  "redb_env \<Rightarrow> ('sig, 'ev) store_codec \<Rightarrow> height option \<Rightarrow> tables
     \<Rightarrow> store_error + 'ev stored_misbehavior_evidence option" where
  "get_misbehavior_evidence env codec = get_finalized_record env misbehavior_evidence (dec_evidence codec) empty_evidence"

definition get_invalid_payloads ::
  "redb_env \<Rightarrow> ('sig, 'ev) store_codec \<Rightarrow> height option \<Rightarrow> tables
     \<Rightarrow> store_error + stored_invalid_payloads option" where
  "get_invalid_payloads env codec = get_finalized_record env invalid_payloads (dec_invalid codec) empty_payloads"

definition append_invalid_payload ::
  "redb_env \<Rightarrow> ('sig, 'ev) store_codec \<Rightarrow> invalid_payload \<Rightarrow> tables \<Rightarrow> (store_error + unit) \<times> tables" where
  "append_invalid_payload env codec invalid_payload =
     write_tx env (\<lambda>db.
       let height = ip_height invalid_payload in
       bind_result (case bt_get (invalid_payloads db) height of
                      Some v \<Rightarrow> decoded (dec_invalid codec) v
                    | None \<Rightarrow> Inr (empty_payloads height)) (\<lambda>stored.
       case enc_invalid codec (add_invalid_payload invalid_payload stored) of
         Inl e \<Rightarrow> Inl (ProtobufError e)
       | Inr encoded \<Rightarrow> Inr ((), db\<lparr>invalid_payloads := bt_insert height encoded (invalid_payloads db)\<rparr>)))"

section \<open>Reading ranges of heights\<close>

datatype range_failure_reason = AboveCurrentHead | Pruned | NotRecorded | RangeInternal

datatype 'a range_query_result = Complete "'a list" | Unavailable range_failure_reason "height list"

text \<open>One height of the loop: the item it yields, or why it failed.\<close>

definition read_height ::
  "height \<Rightarrow> height \<Rightarrow> height_table \<Rightarrow> (bytes \<Rightarrow> string + 'a) \<Rightarrow> (height \<Rightarrow> range_failure_reason + 'a) \<Rightarrow> height
     \<Rightarrow> range_failure_reason + 'a" where
  "read_height earliest head table decode on_missing height =
     (if height < earliest then Inl Pruned
      else if head < height then Inl AboveCurrentHead
      else case bt_get table height of
        Some bytes \<Rightarrow> (case decode bytes of Inr item \<Rightarrow> Inr item | Inl _ \<Rightarrow> Inl RangeInternal)
      | None \<Rightarrow> on_missing height)"

fun read_heights ::
  "(height \<Rightarrow> range_failure_reason + 'a) \<Rightarrow> height list \<Rightarrow> 'a list \<Rightarrow> (height \<times> range_failure_reason) list
     \<Rightarrow> 'a list \<times> (height \<times> range_failure_reason) list" where
  "read_heights visit [] items failures = (items, failures)"
| "read_heights visit (h # hs) items failures =
     (case visit h of
        Inr item \<Rightarrow> read_heights visit hs (items @ [item]) failures
      | Inl reason \<Rightarrow> read_heights visit hs items (failures @ [(h, reason)]))"

definition height_interval :: "height \<Rightarrow> height \<Rightarrow> height list" where
  "height_interval from to = map of_nat [unat from..<Suc (unat to)]"

definition read_height_range ::
  "redb_env \<Rightarrow> (tables \<Rightarrow> height_table) \<Rightarrow> height \<Rightarrow> u64 \<Rightarrow> (bytes \<Rightarrow> string + 'a)
     \<Rightarrow> (height \<Rightarrow> range_failure_reason + 'a) \<Rightarrow> tables \<Rightarrow> store_error + 'a range_query_result option" where
  "read_height_range env table from count decode on_missing db =
     (case Option.bind (checked_sub count 1) (checked_add from) of
        None \<Rightarrow> Inl (StoreOther ''invalid height range'')
      | Some to \<Rightarrow>
          read_tx env (\<lambda>db.
            case (bt_first (certificates db), bt_last (certificates db)) of
              (Some (earliest, _), Some (head, _)) \<Rightarrow>
                let (items, failures) =
                      read_heights (read_height earliest head (table db) decode on_missing) (height_interval from to) [] []
                in Inr (Some (case failures of
                     [] \<Rightarrow> Complete items
                   | (_, reason) # _ \<Rightarrow>
                       Unavailable reason (map fst (filter (\<lambda>(_, r). r = reason) failures))))
            | _ \<Rightarrow> Inr None) db)"

definition get_certificate_range ::
  "redb_env \<Rightarrow> ('sig, 'ev) store_codec \<Rightarrow> height \<Rightarrow> u64 \<Rightarrow> tables
     \<Rightarrow> store_error + 'sig stored_commit_certificate range_query_result option" where
  "get_certificate_range env codec from count =
     read_height_range env certificates from count (dec_certificate codec) (\<lambda>_. Inl RangeInternal)"

definition get_misbehavior_evidence_range ::
  "redb_env \<Rightarrow> ('sig, 'ev) store_codec \<Rightarrow> height \<Rightarrow> u64 \<Rightarrow> tables
     \<Rightarrow> store_error + 'ev stored_misbehavior_evidence range_query_result option" where
  "get_misbehavior_evidence_range env codec from count =
     read_height_range env misbehavior_evidence from count (dec_evidence codec) (\<lambda>height. Inr (empty_evidence height))"

definition get_proposal_monitor_data_range ::
  "redb_env \<Rightarrow> ('sig, 'ev) store_codec \<Rightarrow> height \<Rightarrow> u64 \<Rightarrow> tables
     \<Rightarrow> store_error + proposal_monitor range_query_result option" where
  "get_proposal_monitor_data_range env codec from count =
     read_height_range env proposal_monitor_data from count (dec_monitor codec) (\<lambda>_. Inl NotRecorded)"

definition get_invalid_payloads_range ::
  "redb_env \<Rightarrow> ('sig, 'ev) store_codec \<Rightarrow> height \<Rightarrow> u64 \<Rightarrow> tables
     \<Rightarrow> store_error + stored_invalid_payloads range_query_result option" where
  "get_invalid_payloads_range env codec from count =
     read_height_range env invalid_payloads from count (dec_invalid codec) (\<lambda>height. Inr (empty_payloads height))"

section \<open>Undecided blocks and pending parts\<close>

definition block_key :: "'sig consensus_block \<Rightarrow> composite_key" where
  "block_key block = (cb_height block, round_as_i64 (cb_round block), self_reported_block_hash block)"

definition parts_key :: "('sig, 'ev) store_codec \<Rightarrow> 'sig proposal_parts \<Rightarrow> composite_key" where
  "parts_key codec parts =
     (let (height, round, hash) = pending_key (codec_keccak256 codec) (codec_sig_to_bytes codec) parts
      in (height, round_as_i64 round, from_be_bytes hash))"

text \<open>A failure of the lookup itself is reported as absence.\<close>

definition get_undecided_block ::
  "redb_env \<Rightarrow> ('sig, 'ev) store_codec \<Rightarrow> height \<Rightarrow> round \<Rightarrow> block_hash \<Rightarrow> tables
     \<Rightarrow> store_error + 'sig consensus_block option" where
  "get_undecided_block env codec height round block_hash =
     read_tx env (\<lambda>db.
       decoded_row (dec_block codec) (bt_get (undecided_blocks db) (height, round_as_i64 round, block_hash)))"

definition get_undecided_block_by_height_and_block_hash ::
  "redb_env \<Rightarrow> ('sig, 'ev) store_codec \<Rightarrow> height \<Rightarrow> block_hash \<Rightarrow> tables
     \<Rightarrow> store_error + 'sig consensus_block option" where
  "get_undecided_block_by_height_and_block_hash env codec height block_hash =
     read_tx env (\<lambda>db.
       decoded_row (dec_block codec)
         (map_option snd (find (\<lambda>((key_height, _, key_block_hash), _). key_height = height \<and> key_block_hash = block_hash)
                            (undecided_blocks db))))"

fun decode_all :: "(bytes \<Rightarrow> string + 'a) \<Rightarrow> bytes list \<Rightarrow> store_error + 'a list" where
  "decode_all dec [] = Inr []"
| "decode_all dec (b # bs) =
     bind_result (decoded dec b) (\<lambda>a. bind_result (decode_all dec bs) (\<lambda>as. Inr (a # as)))"

definition bt_range :: "'k::linorder \<Rightarrow> 'k \<Rightarrow> ('k, 'v) btree_map \<Rightarrow> ('k, 'v) btree_map" where
  "bt_range lo hi m = filter (\<lambda>(k, _). lo \<le> k \<and> k < hi) m"

definition get_undecided_blocks ::
  "redb_env \<Rightarrow> ('sig, 'ev) store_codec \<Rightarrow> (int \<Rightarrow> round) \<Rightarrow> height \<Rightarrow> round \<Rightarrow> tables
     \<Rightarrow> store_error + 'sig consensus_block list" where
  "get_undecided_blocks env codec round_from height round =
     read_tx env (\<lambda>db.
       let range_start = (height, round_as_i64 round, 0);
           range_end = (height, round_as_i64 (round_from (round_as_i64 round + 1)), 0)
       in decode_all (dec_block codec)
            (map snd (filter (\<lambda>((h, r, _), _). h = height \<and> r = round_as_i64 round)
               (bt_range range_start range_end (undecided_blocks db)))))"

definition insert_undecided_block :: "('sig, 'ev) store_codec \<Rightarrow> 'sig consensus_block \<Rightarrow> tables \<Rightarrow> tables" where
  "insert_undecided_block codec block db =
     db\<lparr>undecided_blocks := bt_insert (block_key block) (enc_block codec block) (undecided_blocks db)\<rparr>"

definition remove_pending_proposal_parts :: "('sig, 'ev) store_codec \<Rightarrow> 'sig proposal_parts \<Rightarrow> tables \<Rightarrow> tables" where
  "remove_pending_proposal_parts codec parts db =
     db\<lparr>pending_proposal_parts := bt_remove (parts_key codec parts) (pending_proposal_parts db)\<rparr>"

definition store_undecided_block ::
  "redb_env \<Rightarrow> ('sig, 'ev) store_codec \<Rightarrow> 'sig consensus_block \<Rightarrow> tables \<Rightarrow> (store_error + unit) \<times> tables" where
  "store_undecided_block env codec block = write_tx env (\<lambda>db. Inr ((), insert_undecided_block codec block db))"

definition remove_pending_parts_and_store_undecided_block ::
  "redb_env \<Rightarrow> ('sig, 'ev) store_codec \<Rightarrow> 'sig proposal_parts \<Rightarrow> 'sig consensus_block \<Rightarrow> tables
     \<Rightarrow> (store_error + unit) \<times> tables" where
  "remove_pending_parts_and_store_undecided_block env codec parts block =
     write_tx env (\<lambda>db.
       Inr ((), insert_undecided_block codec block (remove_pending_proposal_parts codec parts db)))"

definition get_pending_proposal_parts ::
  "redb_env \<Rightarrow> ('sig, 'ev) store_codec \<Rightarrow> height \<Rightarrow> round \<Rightarrow> tables \<Rightarrow> store_error + 'sig proposal_parts list" where
  "get_pending_proposal_parts env codec height round =
     read_tx env (\<lambda>db.
       decode_all (dec_parts codec)
         (map snd (filter (\<lambda>((h, r, _), _). h = height \<and> r = round_as_i64 round) (pending_proposal_parts db))))"

definition get_pending_proposal_parts_count :: "redb_env \<Rightarrow> tables \<Rightarrow> store_error + nat" where
  "get_pending_proposal_parts_count env = read_tx env (\<lambda>db. Inr (length (pending_proposal_parts db)))"

definition count_height :: "(height, nat) btree_map \<Rightarrow> composite_key \<times> bytes \<Rightarrow> (height, nat) btree_map" where
  "count_height counts row =
     (let height = fst (fst row)
      in bt_insert height (Suc (case bt_get counts height of Some n \<Rightarrow> n | None \<Rightarrow> 0)) counts)"

definition get_pending_proposal_parts_counts :: "redb_env \<Rightarrow> tables \<Rightarrow> store_error + (height \<times> nat) list" where
  "get_pending_proposal_parts_counts env =
     read_tx env (\<lambda>db. Inr (foldl count_height [] (pending_proposal_parts db)))"

text \<open>The last height a pending proposal may have, and the panics on the way to it.\<close>

definition max_allowed_height :: "nat \<Rightarrow> height \<Rightarrow> store_error + height" where
  "max_allowed_height max_pending_parts current_height =
     (if max_pending_parts = 0 then Inl (StorePanic ''max_pending_parts must be > 0'')
      else case height_increment_by current_height (of_nat (max_pending_parts - 1)) of
        None \<Rightarrow> Inl (StorePanic ''block height overflow'')
      | Some h \<Rightarrow> Inr h)"

definition insert_pending_proposal_parts ::
  "redb_env \<Rightarrow> ('sig, 'ev) store_codec \<Rightarrow> 'sig proposal_parts \<Rightarrow> nat \<Rightarrow> height \<Rightarrow> tables
     \<Rightarrow> (store_error + bool) \<times> tables" where
  "insert_pending_proposal_parts env codec parts max_pending_parts current_height db =
     (case max_allowed_height max_pending_parts current_height of
        Inl e \<Rightarrow> (Inl e, db)
      | Inr max_allowed \<Rightarrow>
          if max_allowed < pp_height parts then (Inr False, db)
          else case enc_parts codec parts of
            Inl e \<Rightarrow> (Inl (ProtobufError e), db)
          | Inr value \<Rightarrow>
              write_tx env (\<lambda>db.
                if length (pending_proposal_parts db) < max_pending_parts
                then Inr (True, db\<lparr>pending_proposal_parts :=
                        bt_insert (parts_key codec parts) value (pending_proposal_parts db)\<rparr>)
                else Inr (False, db)) db)"

definition keys_to_remove :: "nat \<Rightarrow> height \<Rightarrow> height \<Rightarrow> composite_table \<Rightarrow> composite_key list" where
  "keys_to_remove max_pending_proposals current_height max_allowed table =
     (let keys = map fst table;
          stale = filter (\<lambda>(height, _). height < current_height) keys;
          within_range = filter (\<lambda>(height, _). \<not> height < current_height \<and> height \<le> max_allowed) keys;
          too_far = filter (\<lambda>(height, _). \<not> height < current_height \<and> \<not> height \<le> max_allowed) keys
      in stale @ too_far
           @ (if max_pending_proposals < length within_range then drop max_pending_proposals within_range else []))"

definition enforce_pending_proposals_limit ::
  "redb_env \<Rightarrow> nat \<Rightarrow> height \<Rightarrow> tables \<Rightarrow> (store_error + composite_key list) \<times> tables" where
  "enforce_pending_proposals_limit env max_pending_proposals current_height =
     write_tx env (\<lambda>db.
       bind_result (max_allowed_height max_pending_proposals current_height) (\<lambda>max_allowed.
         let removed = keys_to_remove max_pending_proposals current_height max_allowed (pending_proposal_parts db)
         in Inr (removed, db\<lparr>pending_proposal_parts :=
                  foldl (\<lambda>table key. bt_remove key table) (pending_proposal_parts db) removed\<rparr>)))"

definition clean_stale_consensus_data :: "redb_env \<Rightarrow> height \<Rightarrow> tables \<Rightarrow> (store_error + unit) \<times> tables" where
  "clean_stale_consensus_data env current_height =
     write_tx env (\<lambda>db.
       Inr ((), db\<lparr>undecided_blocks := bt_retain (\<lambda>k _. current_height < fst k) (undecided_blocks db),
                   pending_proposal_parts := bt_retain (\<lambda>k _. current_height < fst k) (pending_proposal_parts db)\<rparr>))"

section \<open>Pruning\<close>

definition PRUNE_BATCH_LIMIT :: nat where
  "PRUNE_BATCH_LIMIT = 300"

definition RETH_AMNESIA_HEIGHT_COUNT :: u64 where
  "RETH_AMNESIA_HEIGHT_COUNT = 10000"

text \<open>A table by its name: how it is read and replaced.\<close>

datatype height_table_name =
  CERTIFICATES_TABLE | DECIDED_BLOCKS_TABLE | MISBEHAVIOR_EVIDENCE_TABLE | INVALID_PAYLOADS_TABLE
  | PROPOSAL_MONITOR_DATA_TABLE

fun open_table :: "height_table_name \<Rightarrow> tables \<Rightarrow> height_table" where
  "open_table CERTIFICATES_TABLE db = certificates db"
| "open_table DECIDED_BLOCKS_TABLE db = decided_blocks db"
| "open_table MISBEHAVIOR_EVIDENCE_TABLE db = misbehavior_evidence db"
| "open_table INVALID_PAYLOADS_TABLE db = invalid_payloads db"
| "open_table PROPOSAL_MONITOR_DATA_TABLE db = proposal_monitor_data db"

fun set_table :: "height_table_name \<Rightarrow> height_table \<Rightarrow> tables \<Rightarrow> tables" where
  "set_table CERTIFICATES_TABLE t db = db\<lparr>certificates := t\<rparr>"
| "set_table DECIDED_BLOCKS_TABLE t db = db\<lparr>decided_blocks := t\<rparr>"
| "set_table MISBEHAVIOR_EVIDENCE_TABLE t db = db\<lparr>misbehavior_evidence := t\<rparr>"
| "set_table INVALID_PAYLOADS_TABLE t db = db\<lparr>invalid_payloads := t\<rparr>"
| "set_table PROPOSAL_MONITOR_DATA_TABLE t db = db\<lparr>proposal_monitor_data := t\<rparr>"

definition height_range :: "height_table \<Rightarrow> height \<Rightarrow> nat \<Rightarrow> height list" where
  "height_range table below limit = take limit (filter (\<lambda>h. h < below) (map fst table))"

definition prune_height_table_batch ::
  "redb_env \<Rightarrow> height \<Rightarrow> height_table_name \<Rightarrow> tables \<Rightarrow> (store_error + height list) \<times> tables" where
  "prune_height_table_batch env retain_height table db =
     and_then (max_height env db, db) (\<lambda>_ db.
     and_then (read_tx env (\<lambda>db. Inr (height_range (open_table table db) retain_height PRUNE_BATCH_LIMIT)) db, db)
       (\<lambda>keys db.
     if keys = [] then (Inr keys, db)
     else write_tx env (\<lambda>db.
            Inr (keys, set_table table (foldl (\<lambda>t h. bt_remove h t) (open_table table db) keys) db)) db))"

definition prune_historical_certs :: "redb_env \<Rightarrow> height \<Rightarrow> tables \<Rightarrow> (store_error + height list) \<times> tables" where
  "prune_historical_certs env retain_height = prune_height_table_batch env retain_height CERTIFICATES_TABLE"

definition prune_blocks :: "redb_env \<Rightarrow> tables \<Rightarrow> (store_error + height list) \<times> tables" where
  "prune_blocks env db =
     and_then (max_height env db, db) (\<lambda>curr db.
       let curr_height = (case curr of Some h \<Rightarrow> h | None \<Rightarrow> 0);
           retain_height = height_saturating_sub curr_height RETH_AMNESIA_HEIGHT_COUNT
       in prune_height_table_batch env retain_height DECIDED_BLOCKS_TABLE db)"

definition prune_proposal_monitor_data :: "redb_env \<Rightarrow> height \<Rightarrow> tables \<Rightarrow> (store_error + height list) \<times> tables" where
  "prune_proposal_monitor_data env retain_height = prune_height_table_batch env retain_height PROPOSAL_MONITOR_DATA_TABLE"

definition prune_misbehavior_evidence :: "redb_env \<Rightarrow> height \<Rightarrow> tables \<Rightarrow> (store_error + height list) \<times> tables" where
  "prune_misbehavior_evidence env retain_height = prune_height_table_batch env retain_height MISBEHAVIOR_EVIDENCE_TABLE"

definition prune_invalid_payloads :: "redb_env \<Rightarrow> height \<Rightarrow> tables \<Rightarrow> (store_error + height list) \<times> tables" where
  "prune_invalid_payloads env retain_height = prune_height_table_batch env retain_height INVALID_PAYLOADS_TABLE"

section \<open>Rollback\<close>

record rollback_report =
  rr_certificates :: nat
  rr_decided_blocks :: nat
  rr_invalid_payloads :: nat
  rr_misbehavior_evidence :: nat
  rr_proposal_monitor_data :: nat
  rr_undecided_blocks :: nat
  rr_pending_proposal_parts :: nat

definition rollback_report_default :: rollback_report where
  "rollback_report_default =
     \<lparr>rr_certificates = 0, rr_decided_blocks = 0, rr_invalid_payloads = 0, rr_misbehavior_evidence = 0,
      rr_proposal_monitor_data = 0, rr_undecided_blocks = 0, rr_pending_proposal_parts = 0\<rparr>"

definition ROLLBACK_BATCH_SIZE :: u64 where
  "ROLLBACK_BATCH_SIZE = 1000"

text \<open>\<open>retain_in\<close> asks the closure about the rows of a range only; the closure counts its calls.\<close>

definition retain_in :: "'k::linorder \<Rightarrow> 'k \<Rightarrow> bool \<Rightarrow> ('k, 'v) btree_map \<Rightarrow> ('k, 'v) btree_map" where
  "retain_in lo hi keep m = filter (\<lambda>(k, _). lo \<le> k \<and> k < hi \<longrightarrow> keep) m"

definition retain_calls :: "'k::linorder \<Rightarrow> 'k \<Rightarrow> ('k, 'v) btree_map \<Rightarrow> nat" where
  "retain_calls lo hi m = length (bt_range lo hi m)"

definition rollback_batch :: "height \<Rightarrow> height \<Rightarrow> bool \<Rightarrow> rollback_report \<Rightarrow> tables \<Rightarrow> rollback_report \<times> tables" where
  "rollback_batch range_low range_high dry_run report db =
     (let composite_start = (range_low, round_as_i64 RoundNil, 0);
          composite_end = (range_high, round_as_i64 RoundNil, 0)
      in (\<lparr>rr_certificates = rr_certificates report + retain_calls range_low range_high (certificates db),
           rr_decided_blocks = rr_decided_blocks report + retain_calls range_low range_high (decided_blocks db),
           rr_invalid_payloads = rr_invalid_payloads report + retain_calls range_low range_high (invalid_payloads db),
           rr_misbehavior_evidence =
             rr_misbehavior_evidence report + retain_calls range_low range_high (misbehavior_evidence db),
           rr_proposal_monitor_data =
             rr_proposal_monitor_data report + retain_calls range_low range_high (proposal_monitor_data db),
           rr_undecided_blocks =
             rr_undecided_blocks report + retain_calls composite_start composite_end (undecided_blocks db),
           rr_pending_proposal_parts =
             rr_pending_proposal_parts report + retain_calls composite_start composite_end (pending_proposal_parts db)\<rparr>,
          \<lparr>certificates = retain_in range_low range_high dry_run (certificates db),
           decided_blocks = retain_in range_low range_high dry_run (decided_blocks db),
           undecided_blocks = retain_in composite_start composite_end dry_run (undecided_blocks db),
           pending_proposal_parts = retain_in composite_start composite_end dry_run (pending_proposal_parts db),
           misbehavior_evidence = retain_in range_low range_high dry_run (misbehavior_evidence db),
           invalid_payloads = retain_in range_low range_high dry_run (invalid_payloads db),
           proposal_monitor_data = retain_in range_low range_high dry_run (proposal_monitor_data db)\<rparr>))"

text \<open>The loop over the batches, from the tip downward; not returning is the value \<open>None\<close>.\<close>

partial_function (option) rollback_loop ::
  "redb_env \<Rightarrow> height \<Rightarrow> u64 \<Rightarrow> bool \<Rightarrow> height \<Rightarrow> rollback_report \<Rightarrow> tables
     \<Rightarrow> ((store_error + rollback_report) \<times> tables) option" where
  "rollback_loop env stop batch_size dry_run range_high report db =
     (if range_high = stop then Some (Inr report, db)
      else
        let range_low = max (height_saturating_sub range_high batch_size) stop in
        case re_begin_write env db of
          Some e \<Rightarrow> Some (Inl (DatabaseFailure e), db)
        | None \<Rightarrow>
            let (report, db') = rollback_batch range_low range_high dry_run report db in
            if dry_run then rollback_loop env stop batch_size dry_run range_low report db
            else case re_commit env db' of
              Some e \<Rightarrow> Some (Inl (DatabaseFailure e), db)
            | None \<Rightarrow> rollback_loop env stop batch_size dry_run range_low report db')"

definition rollback_to_height ::
  "redb_env \<Rightarrow> height \<Rightarrow> u64 \<Rightarrow> bool \<Rightarrow> tables \<Rightarrow> ((store_error + rollback_report) \<times> tables) option" where
  "rollback_to_height env target_height batch_size dry_run db =
     (if batch_size = 0 then Some (Inl (StorePanic ''batch_size must be > 0''), db)
      else case re_begin_read env db of
        Some e \<Rightarrow> Some (Inl (DatabaseFailure e), db)
      | None \<Rightarrow>
          (case bt_last (certificates db) of
             None \<Rightarrow> Some (Inr rollback_report_default, db)
           | Some (current_height, _) \<Rightarrow>
               if current_height \<le> target_height then Some (Inr rollback_report_default, db)
               else case (height_increment target_height, height_increment current_height) of
                 (Some stop, Some range_high) \<Rightarrow>
                   rollback_loop env stop batch_size dry_run range_high rollback_report_default db
               | _ \<Rightarrow> Some (Inl (StorePanic ''block height overflow''), db)))"

end
