(* ===== verification/Store_Safety.thy ===== *)
theory Store_Safety
  imports Consensus_Store
begin

text \<open>
  What the consensus database guarantees: rows decode to the record their key says, a decided
  block reads back as stored and never trips the assertion of \<open>DecidedBlock::new\<close>, certificates
  only grow, pruning and the pending limit stay within their bounds, and a rollback removes
  exactly the heights between its target and the tip.
\<close>

section \<open>Ordered tables\<close>

lemma bt_wf_range: "bt_wf m \<Longrightarrow> bt_wf (bt_range lo hi m)"
  by (simp add: bt_range_def bt_wf_filter)

lemma bt_wf_retain_in: "bt_wf m \<Longrightarrow> bt_wf (retain_in lo hi keep m)"
  by (simp add: retain_in_def bt_wf_filter)

lemma retain_in_True [simp]: "retain_in lo hi True m = m"
  by (simp add: retain_in_def)

lemma bt_get_filter_key: "bt_get (filter (\<lambda>(k, _). P k) m) k = (if P k then bt_get m k else None)"
  by (induction m) (auto simp: bt_get_def)

lemma bt_get_retain_in:
  "bt_get (retain_in lo hi keep m) k = (if lo \<le> k \<and> k < hi \<and> \<not> keep then None else bt_get m k)"
  unfolding retain_in_def by (subst bt_get_filter_key) simp

lemma foldl_bt_remove: "foldl (\<lambda>t k. bt_remove k t) m ks = filter (\<lambda>(k, _). k \<notin> set ks) m"
proof (induction ks arbitrary: m)
  case (Cons k ks)
  show ?case by (simp only: foldl.simps Cons) (auto simp: bt_remove_def intro: filter_cong)
qed simp

lemma bt_get_removed: "bt_get (foldl (\<lambda>t k. bt_remove k t) m ks) k = (if k \<in> set ks then None else bt_get m k)"
  by (simp add: foldl_bt_remove bt_get_filter_key)

lemma bt_wf_removed: "bt_wf m \<Longrightarrow> bt_wf (foldl (\<lambda>t k. bt_remove k t) m ks)"
  by (simp add: foldl_bt_remove bt_wf_filter)

lemma bt_last_max:
  assumes "bt_wf m" and "bt_last m = Some (k, v)"
  shows "bt_get m k = Some v" and "j \<in> bt_keys m \<Longrightarrow> j \<le> k"
proof -
  obtain ms where m: "m = ms @ [(k, v)]"
    using assms(2) by (cases m rule: rev_cases) (auto simp: bt_last_def)
  then show "bt_get m k = Some v"
    using assms(1) bt_in_set_get [of m k v] by simp
  show "j \<le> k" if "j \<in> bt_keys m"
    using assms(1) that by (auto simp: m bt_wf_def bt_keys_def sorted_wrt_append)
qed

lemma bt_last_Nil [simp]: "bt_last [] = None"
  by (simp add: bt_last_def)

lemma bt_last_None_iff [simp]: "bt_last m = None \<longleftrightarrow> m = []"
  by (simp add: bt_last_def)

section \<open>Transactions\<close>

text \<open>A write transaction either commits what its body made or changes nothing.\<close>

lemma write_tx_cases:
  assumes "write_tx env f db = (r, db')"
  obtains (failed) e where "r = Inl e" and "db' = db"
  | (committed) a where "r = Inr a" and "f db = Inr (a, db')" and "re_commit env db' = None"
  using assms by (auto simp: write_tx_def split: option.splits sum.splits)

lemma write_tx_inv:
  assumes "J db" and "\<And>a db'. f db = Inr (a, db') \<Longrightarrow> J db'"
  shows "J (snd (write_tx env f db))"
  using assms by (auto simp: write_tx_def split: option.splits sum.splits)

section \<open>Rows\<close>

text \<open>Decoding undoes encoding, for every kind of record.\<close>

definition store_codec_laws :: "('sig, 'ev) store_codec \<Rightarrow> bool" where
  "store_codec_laws codec \<longleftrightarrow>
     (\<forall>p. dec_payload codec (enc_payload codec p) = Inr p)
     \<and> (\<forall>c b. enc_certificate codec c = Inr b \<longrightarrow> dec_certificate codec b = Inr c)
     \<and> (\<forall>e b. enc_evidence codec e = Inr b \<longrightarrow> dec_evidence codec b = Inr e)
     \<and> (\<forall>m b. enc_monitor codec m = Inr b \<longrightarrow> dec_monitor codec b = Inr m)
     \<and> (\<forall>i b. enc_invalid codec i = Inr b \<longrightarrow> dec_invalid codec b = Inr i)
     \<and> (\<forall>k. dec_block codec (enc_block codec k) = Inr k)
     \<and> (\<forall>p b. enc_parts codec p = Inr b \<longrightarrow> dec_parts codec b = Inr p)"

definition rows_keyed :: "('k::linorder, bytes) btree_map \<Rightarrow> (bytes \<Rightarrow> string + 'a) \<Rightarrow> ('a \<Rightarrow> 'k) \<Rightarrow> bool" where
  "rows_keyed table dec key \<longleftrightarrow>
     bt_wf table \<and> (\<forall>k b. bt_get table k = Some b \<longrightarrow> (\<exists>a. dec b = Inr a \<and> key a = k))"

definition certificate_at :: "('sig, 'ev) store_codec \<Rightarrow> tables \<Rightarrow> height \<Rightarrow> 'sig stored_commit_certificate option" where
  "certificate_at codec db h = Option.bind (bt_get (certificates db) h) (\<lambda>b. right_or_none (dec_certificate codec b))"

definition payload_at :: "('sig, 'ev) store_codec \<Rightarrow> tables \<Rightarrow> height \<Rightarrow> exec_payload option" where
  "payload_at codec db h = Option.bind (bt_get (decided_blocks db) h) (\<lambda>b. right_or_none (dec_payload codec b))"

text \<open>
  The database is sound: every row decodes, to a record that carries the key of the row, and
  the payload stored for a height is the one its certificate decided.
\<close>

definition store_inv :: "('sig, 'ev) store_codec \<Rightarrow> tables \<Rightarrow> bool" where
  "store_inv codec db \<longleftrightarrow>
     rows_keyed (certificates db) (dec_certificate codec) (\<lambda>c. cc_height (scc_certificate c))
     \<and> bt_wf (decided_blocks db)
     \<and> (\<forall>h b. bt_get (decided_blocks db) h = Some b \<longrightarrow> (\<exists>p. dec_payload codec b = Inr p))
     \<and> rows_keyed (undecided_blocks db) (dec_block codec) block_key
     \<and> rows_keyed (pending_proposal_parts db) (dec_parts codec) (parts_key codec)
     \<and> rows_keyed (misbehavior_evidence db) (dec_evidence codec) sme_height
     \<and> rows_keyed (invalid_payloads db) (dec_invalid codec) sip_height
     \<and> rows_keyed (proposal_monitor_data db) (dec_monitor codec) pm_height
     \<and> (\<forall>h p c. payload_at codec db h = Some p \<and> certificate_at codec db h = Some c
          \<longrightarrow> pl_block_hash p = cc_value_id (scc_certificate c))"

lemma rows_keyed_Nil [simp]: "rows_keyed [] dec key"
  by (simp add: rows_keyed_def bt_get_def)

lemma rows_keyed_insert:
  "rows_keyed t dec key \<Longrightarrow> dec b = Inr a \<Longrightarrow> rows_keyed (bt_insert (key a) b t) dec key"
  by (auto simp: rows_keyed_def bt_wf_insert bt_get_insert)

lemma rows_keyed_filter:
  assumes "rows_keyed t dec key"
  shows "rows_keyed (filter (\<lambda>(k, _). P k) t) dec key"
  using assms by (auto simp: rows_keyed_def bt_wf_filter bt_get_filter_key)

lemma rows_keyed_remove: "rows_keyed t dec key \<Longrightarrow> rows_keyed (bt_remove k t) dec key"
  by (auto simp: rows_keyed_def bt_wf_remove bt_get_remove)

lemma rows_keyed_retain:
  "rows_keyed t dec key \<Longrightarrow> rows_keyed (bt_retain (\<lambda>k _. P k) t) dec key"
  by (auto simp: rows_keyed_def bt_wf_retain bt_get_retain split: option.splits)

lemma rows_keyed_removed:
  "rows_keyed t dec key \<Longrightarrow> rows_keyed (foldl (\<lambda>t k. bt_remove k t) t ks) dec key"
  by (simp add: foldl_bt_remove rows_keyed_filter)

lemma rows_keyed_retain_in: "rows_keyed t dec key \<Longrightarrow> rows_keyed (retain_in lo hi keep t) dec key"
  unfolding retain_in_def by (rule rows_keyed_filter)

lemmas rows_keyed_ops = rows_keyed_insert rows_keyed_filter rows_keyed_remove rows_keyed_retain
  rows_keyed_removed rows_keyed_retain_in

text \<open>Dropping rows never hurts.\<close>

definition sub_table :: "('k::linorder, bytes) btree_map \<Rightarrow> ('k, bytes) btree_map \<Rightarrow> bool" where
  "sub_table t' t \<longleftrightarrow> bt_wf t' \<and> (\<forall>k b. bt_get t' k = Some b \<longrightarrow> bt_get t k = Some b)"

lemma sub_table_refl: "bt_wf t \<Longrightarrow> sub_table t t"
  by (simp add: sub_table_def)

lemma sub_table_filter: "bt_wf t \<Longrightarrow> sub_table (filter (\<lambda>(k, _). P k) t) t"
  by (auto simp: sub_table_def bt_wf_filter bt_get_filter_key split: if_splits)

lemma sub_table_removed: "bt_wf t \<Longrightarrow> sub_table (foldl (\<lambda>t k. bt_remove k t) t ks) t"
  by (simp add: foldl_bt_remove sub_table_filter)

lemma sub_table_retain_in: "bt_wf t \<Longrightarrow> sub_table (retain_in lo hi keep t) t"
  unfolding retain_in_def by (rule sub_table_filter)

lemma sub_table_retain: "bt_wf t \<Longrightarrow> sub_table (bt_retain (\<lambda>k _. P k) t) t"
  by (auto simp: sub_table_def bt_wf_retain bt_get_retain split: option.splits if_splits)

lemma sub_table_remove: "bt_wf t \<Longrightarrow> sub_table (bt_remove k t) t"
  by (auto simp: sub_table_def bt_wf_remove bt_get_remove split: if_splits)

lemmas sub_tables = sub_table_refl sub_table_removed sub_table_retain_in sub_table_retain sub_table_remove

definition sub_tables_of :: "tables \<Rightarrow> tables \<Rightarrow> bool" where
  "sub_tables_of db' db \<longleftrightarrow>
     sub_table (certificates db') (certificates db) \<and> sub_table (decided_blocks db') (decided_blocks db)
     \<and> sub_table (undecided_blocks db') (undecided_blocks db)
     \<and> sub_table (pending_proposal_parts db') (pending_proposal_parts db)
     \<and> sub_table (misbehavior_evidence db') (misbehavior_evidence db)
     \<and> sub_table (invalid_payloads db') (invalid_payloads db)
     \<and> sub_table (proposal_monitor_data db') (proposal_monitor_data db)"

lemma rows_keyed_sub: "rows_keyed t dec key \<Longrightarrow> sub_table t' t \<Longrightarrow> rows_keyed t' dec key"
  unfolding rows_keyed_def sub_table_def by blast

lemma certificate_at_sub:
  "sub_table (certificates db') (certificates db) \<Longrightarrow> certificate_at codec db' h = Some c \<Longrightarrow> certificate_at codec db h = Some c"
  by (auto simp: certificate_at_def sub_table_def bind_eq_Some_conv)

lemma payload_at_sub:
  "sub_table (decided_blocks db') (decided_blocks db) \<Longrightarrow> payload_at codec db' h = Some p \<Longrightarrow> payload_at codec db h = Some p"
  by (auto simp: payload_at_def sub_table_def bind_eq_Some_conv)

lemma store_inv_wf:
  assumes "store_inv codec db"
  shows "bt_wf (certificates db)" "bt_wf (decided_blocks db)" "bt_wf (undecided_blocks db)"
    "bt_wf (pending_proposal_parts db)" "bt_wf (misbehavior_evidence db)" "bt_wf (invalid_payloads db)"
    "bt_wf (proposal_monitor_data db)"
  using assms by (simp_all add: store_inv_def rows_keyed_def)

lemma store_inv_sub:
  assumes inv: "store_inv codec db" and sub: "sub_tables_of db' db"
  shows "store_inv codec db'"
proof -
  have "rows_keyed (certificates db') (dec_certificate codec) (\<lambda>c. cc_height (scc_certificate c))"
    "rows_keyed (undecided_blocks db') (dec_block codec) block_key"
    "rows_keyed (pending_proposal_parts db') (dec_parts codec) (parts_key codec)"
    "rows_keyed (misbehavior_evidence db') (dec_evidence codec) sme_height"
    "rows_keyed (invalid_payloads db') (dec_invalid codec) sip_height"
    "rows_keyed (proposal_monitor_data db') (dec_monitor codec) pm_height"
    using inv sub unfolding store_inv_def sub_tables_of_def by (blast intro: rows_keyed_sub)+
  moreover have "bt_wf (decided_blocks db')"
    "\<forall>h b. bt_get (decided_blocks db') h = Some b \<longrightarrow> (\<exists>p. dec_payload codec b = Inr p)"
    using inv sub unfolding store_inv_def sub_tables_of_def sub_table_def by blast+
  moreover have "pl_block_hash p = cc_value_id (scc_certificate c)"
    if "payload_at codec db' h = Some p" "certificate_at codec db' h = Some c" for h p c
    using inv sub that payload_at_sub certificate_at_sub unfolding store_inv_def sub_tables_of_def by blast
  ultimately show ?thesis unfolding store_inv_def by blast
qed

section \<open>Every operation keeps the database sound\<close>

lemma certificate_at_height:
  "store_inv codec db \<Longrightarrow> certificate_at codec db h = Some c \<Longrightarrow> cc_height (scc_certificate c) = h"
  by (fastforce simp: store_inv_def rows_keyed_def certificate_at_def right_or_none_def bind_eq_Some_conv split: sum.splits)

lemma certificate_at_insert:
  assumes "bt_wf (certificates db)"
  shows "certificate_at codec (db\<lparr>certificates := bt_insert h b (certificates db)\<rparr>) k =
    (if k = h then right_or_none (dec_certificate codec b) else certificate_at codec db k)"
  using assms by (simp add: certificate_at_def bt_get_insert)

lemma payload_at_insert:
  assumes "bt_wf (decided_blocks db)"
  shows "payload_at codec (db\<lparr>decided_blocks := bt_insert h b (decided_blocks db)\<rparr>) k =
    (if k = h then right_or_none (dec_payload codec b) else payload_at codec db k)"
  using assms by (simp add: payload_at_def bt_get_insert)

lemma store_inv_insert_certificate:
  assumes inv: "store_inv codec db" and dec: "dec_certificate codec b = Inr c"
    and pl: "\<And>p. payload_at codec db (cc_height (scc_certificate c)) = Some p
      \<Longrightarrow> pl_block_hash p = cc_value_id (scc_certificate c)"
  shows "store_inv codec (db\<lparr>certificates := bt_insert (cc_height (scc_certificate c)) b (certificates db)\<rparr>)"
proof -
  have "rows_keyed (bt_insert (cc_height (scc_certificate c)) b (certificates db)) (dec_certificate codec)
      (\<lambda>c. cc_height (scc_certificate c))"
    using inv dec rows_keyed_insert [of "certificates db" "dec_certificate codec" "\<lambda>c. cc_height (scc_certificate c)" b c]
    by (simp add: store_inv_def)
  moreover have "payload_at codec (db\<lparr>certificates := t\<rparr>) h = payload_at codec db h" for t h
    by (simp add: payload_at_def)
  ultimately show ?thesis
    using inv dec pl by (auto simp: store_inv_def certificate_at_insert [OF store_inv_wf(1) [OF inv]]
        right_or_none_def split: if_splits)
qed

lemma insert_decided_block_tables:
  assumes laws: "store_codec_laws codec"
    and run: "insert_decided_block env codec dcb proposer db = (Inr (), db')"
  obtains b where "dec_certificate codec b = Inr \<lparr>scc_certificate = dcb_certificate dcb,
      scc_certificate_type = CertMinimal, scc_proposer = Some proposer\<rparr>"
    and "db' = db\<lparr>decided_blocks := bt_insert (cc_height (dcb_certificate dcb))
        (enc_payload codec (dcb_execution_payload dcb)) (decided_blocks db),
      certificates := bt_insert (cc_height (dcb_certificate dcb)) b (certificates db)\<rparr>"
  using run laws that unfolding insert_decided_block_def store_codec_laws_def
  by (elim write_tx_cases) (auto simp: insert_certificate_def Let_def split: sum.splits)

lemma insert_decided_block_eq:
  assumes laws: "store_codec_laws codec" and inv: "store_inv codec db"
    and run: "insert_decided_block env codec dcb proposer db = (Inr (), db')"
  shows "payload_at codec db' (cc_height (dcb_certificate dcb)) = Some (dcb_execution_payload dcb)" and
    "certificate_at codec db' (cc_height (dcb_certificate dcb)) =
      Some \<lparr>scc_certificate = dcb_certificate dcb, scc_certificate_type = CertMinimal, scc_proposer = Some proposer\<rparr>" and
    "h \<noteq> cc_height (dcb_certificate dcb) \<Longrightarrow>
      payload_at codec db' h = payload_at codec db h \<and> certificate_at codec db' h = certificate_at codec db h"
proof -
  let ?h = "cc_height (dcb_certificate dcb)"
  let ?c = "\<lparr>scc_certificate = dcb_certificate dcb, scc_certificate_type = CertMinimal, scc_proposer = Some proposer\<rparr>"
  obtain b where dec: "dec_certificate codec b = Inr ?c"
    and db': "db' = db\<lparr>decided_blocks := bt_insert ?h (enc_payload codec (dcb_execution_payload dcb)) (decided_blocks db),
      certificates := bt_insert ?h b (certificates db)\<rparr>"
    using insert_decided_block_tables [OF laws run] by blast
  have "dec_payload codec (enc_payload codec (dcb_execution_payload dcb)) = Inr (dcb_execution_payload dcb)"
    using laws unfolding store_codec_laws_def by blast
  note dec = this dec
  note wf = store_inv_wf [OF inv]
  show "payload_at codec db' ?h = Some (dcb_execution_payload dcb)"
    "certificate_at codec db' ?h = Some ?c"
    using dec wf by (simp_all add: db' payload_at_def certificate_at_def bt_get_insert right_or_none_def)
  show "payload_at codec db' h = payload_at codec db h \<and> certificate_at codec db' h = certificate_at codec db h"
    if "h \<noteq> ?h"
    using that wf by (simp add: db' payload_at_def certificate_at_def bt_get_insert)
qed

lemma store_inv_insert_decided_block:
  assumes laws: "store_codec_laws codec" and inv: "store_inv codec db"
    and match: "pl_block_hash (dcb_execution_payload dcb) = cc_value_id (dcb_certificate dcb)"
    and run: "insert_decided_block env codec dcb proposer db = (Inr (), db')"
  shows "store_inv codec db'"
proof -
  let ?h = "cc_height (dcb_certificate dcb)" and ?p = "enc_payload codec (dcb_execution_payload dcb)"
  obtain b where b: "dec_certificate codec b = Inr \<lparr>scc_certificate = dcb_certificate dcb,
      scc_certificate_type = CertMinimal, scc_proposer = Some proposer\<rparr>"
    and db': "db' = db\<lparr>decided_blocks := bt_insert ?h ?p (decided_blocks db),
      certificates := bt_insert ?h b (certificates db)\<rparr>"
    using insert_decided_block_tables [OF laws run] by blast
  have dec: "dec_payload codec ?p = Inr (dcb_execution_payload dcb)"
    using laws unfolding store_codec_laws_def by blast
  note wf = store_inv_wf [OF inv]
  have rows: "rows_keyed (certificates db') (dec_certificate codec) (\<lambda>c. cc_height (scc_certificate c))"
    using inv b rows_keyed_insert [of "certificates db" "dec_certificate codec" "\<lambda>c. cc_height (scc_certificate c)" b]
    by (simp add: store_inv_def db')
  have pay: "payload_at codec db' k = (if k = ?h then Some (dcb_execution_payload dcb) else payload_at codec db k)"
    and cert: "certificate_at codec db' k = (if k = ?h then Some \<lparr>scc_certificate = dcb_certificate dcb,
      scc_certificate_type = CertMinimal, scc_proposer = Some proposer\<rparr> else certificate_at codec db k)" for k
    using wf dec b by (simp_all add: db' payload_at_def certificate_at_def bt_get_insert right_or_none_def)
  have "bt_wf (decided_blocks db')" "\<forall>h b. bt_get (decided_blocks db') h = Some b \<longrightarrow> (\<exists>p. dec_payload codec b = Inr p)"
    using inv wf dec by (auto simp: db' store_inv_def bt_wf_insert bt_get_insert)
  then show ?thesis
    using inv rows match unfolding store_inv_def pay cert by (auto simp: db' split: if_splits)
qed

lemma store_inv_extend_certificate:
  assumes laws: "store_codec_laws codec" and inv: "store_inv codec db"
    and run: "extend_certificate env codec certificate db = (Inr (), db')"
  shows "store_inv codec db'"
    and "\<exists>old. certificate_at codec db (cc_height certificate) = Some old
      \<and> cc_round (scc_certificate old) = cc_round certificate
      \<and> cc_value_id (scc_certificate old) = cc_value_id certificate
      \<and> set (cc_commit_signatures (scc_certificate old)) \<subseteq> set (cc_commit_signatures certificate)
      \<and> certificate_at codec db' (cc_height certificate) = Some \<lparr>scc_certificate = certificate,
          scc_certificate_type = CertExtended, scc_proposer = scc_proposer old\<rparr>
      \<and> (\<forall>h. h \<noteq> cc_height certificate \<longrightarrow> certificate_at codec db' h = certificate_at codec db h)
      \<and> (\<forall>h. payload_at codec db' h = payload_at codec db h)"
proof -
  let ?h = "cc_height certificate"
  obtain bytes old b where old: "bt_get (certificates db) ?h = Some bytes" "dec_certificate codec bytes = Inr old"
    and eqs: "cc_height certificate = cc_height (scc_certificate old)" "cc_round (scc_certificate old) = cc_round certificate"
      "cc_value_id (scc_certificate old) = cc_value_id certificate"
      "set (cc_commit_signatures (scc_certificate old)) \<subseteq> set (cc_commit_signatures certificate)"
    and b: "enc_certificate codec \<lparr>scc_certificate = certificate, scc_certificate_type = CertExtended,
      scc_proposer = scc_proposer old\<rparr> = Inr b"
    and db': "db' = db\<lparr>certificates := bt_insert ?h b (certificates db)\<rparr>"
    using run unfolding extend_certificate_def
    by (elim write_tx_cases)
       (auto simp: insert_certificate_def Let_def split: sum.splits option.splits if_splits)
  have dec: "dec_certificate codec b = Inr \<lparr>scc_certificate = certificate, scc_certificate_type = CertExtended,
      scc_proposer = scc_proposer old\<rparr>"
    using laws b unfolding store_codec_laws_def by blast
  have at: "certificate_at codec db ?h = Some old"
    using old by (simp add: certificate_at_def right_or_none_def)
  then have "pl_block_hash p = cc_value_id certificate" if "payload_at codec db ?h = Some p" for p
    using inv that eqs(3) unfolding store_inv_def by metis
  then show "store_inv codec db'"
    using store_inv_insert_certificate [OF inv dec] by (simp add: db')
  have "payload_at codec db' h = payload_at codec db h" for h
    by (simp add: db' payload_at_def)
  then show "\<exists>old. certificate_at codec db ?h = Some old
      \<and> cc_round (scc_certificate old) = cc_round certificate
      \<and> cc_value_id (scc_certificate old) = cc_value_id certificate
      \<and> set (cc_commit_signatures (scc_certificate old)) \<subseteq> set (cc_commit_signatures certificate)
      \<and> certificate_at codec db' ?h = Some \<lparr>scc_certificate = certificate,
          scc_certificate_type = CertExtended, scc_proposer = scc_proposer old\<rparr>
      \<and> (\<forall>h. h \<noteq> ?h \<longrightarrow> certificate_at codec db' h = certificate_at codec db h)
      \<and> (\<forall>h. payload_at codec db' h = payload_at codec db h)"
    using at eqs dec by (auto simp: db' certificate_at_insert [OF store_inv_wf(1) [OF inv]] right_or_none_def)
qed

text \<open>The other operations touch one table each, or only drop rows.\<close>

lemma store_inv_put_rows:
  assumes "store_inv codec db"
  shows "dec_evidence codec b = Inr e \<Longrightarrow>
      store_inv codec (db\<lparr>misbehavior_evidence := bt_insert (sme_height e) b (misbehavior_evidence db)\<rparr>)"
    and "dec_monitor codec b = Inr pm \<Longrightarrow>
      store_inv codec (db\<lparr>proposal_monitor_data := bt_insert (pm_height pm) b (proposal_monitor_data db)\<rparr>)"
    and "dec_invalid codec b = Inr i \<Longrightarrow>
      store_inv codec (db\<lparr>invalid_payloads := bt_insert (sip_height i) b (invalid_payloads db)\<rparr>)"
    and "dec_block codec b = Inr k \<Longrightarrow>
      store_inv codec (db\<lparr>undecided_blocks := bt_insert (block_key k) b (undecided_blocks db)\<rparr>)"
    and "dec_parts codec b = Inr p \<Longrightarrow>
      store_inv codec (db\<lparr>pending_proposal_parts := bt_insert (parts_key codec p) b (pending_proposal_parts db)\<rparr>)"
  using assms by (auto simp: store_inv_def payload_at_def certificate_at_def rows_keyed_insert)

lemma store_inv_insert_undecided_block:
  "store_codec_laws codec \<Longrightarrow> store_inv codec db \<Longrightarrow> store_inv codec (insert_undecided_block codec block db)"
  unfolding insert_undecided_block_def store_codec_laws_def by (intro store_inv_put_rows(4)) auto

lemma store_inv_remove_pending:
  "store_inv codec db \<Longrightarrow> store_inv codec (remove_pending_proposal_parts codec parts db)"
  unfolding remove_pending_proposal_parts_def
  by (auto simp: store_inv_def payload_at_def certificate_at_def rows_keyed_remove)

lemma sub_tables_of_set_table:
  "store_inv codec db \<Longrightarrow> sub_table t (open_table name db) \<Longrightarrow> sub_tables_of (set_table name t db) db"
  by (cases name) (auto simp: sub_tables_of_def sub_table_refl store_inv_wf)

lemma open_table_wf: "store_inv codec db \<Longrightarrow> bt_wf (open_table name db)"
  by (cases name) (simp_all add: store_inv_wf)

lemma prune_batch_sub:
  assumes "store_inv codec db" and "prune_height_table_batch env retain table db = (r, db')"
  shows "sub_tables_of db' db"
proof -
  have refl: "sub_tables_of db db"
    using assms(1) by (simp add: sub_tables_of_def sub_table_refl store_inv_wf)
  have "sub_tables_of (set_table table (foldl (\<lambda>t h. bt_remove h t) (open_table table db) ks) db) db" for ks
    using assms(1) by (intro sub_tables_of_set_table sub_table_removed open_table_wf)
  then show ?thesis
    using assms(2) refl
    by (auto simp: prune_height_table_batch_def and_then_def write_tx_def split: sum.splits option.splits if_splits)
qed

lemma rollback_batch_sub:
  "store_inv codec db \<Longrightarrow> sub_tables_of (snd (rollback_batch lo hi dry report db)) db"
  by (simp add: rollback_batch_def sub_tables_of_def Let_def sub_table_retain_in store_inv_wf)

section \<open>Rollback\<close>

text \<open>Removing one range after another is removing their union, and the counts add up.\<close>

lemma retain_in_join:
  "lo \<le> m \<Longrightarrow> m \<le> hi \<Longrightarrow> retain_in lo m keep (retain_in m hi keep t) = retain_in lo hi keep t"
  by (auto simp: retain_in_def intro!: filter_cong)

lemma retain_in_empty [simp]: "retain_in lo lo keep t = t"
  by (auto simp: retain_in_def intro!: filter_True)

lemma retain_calls_join:
  assumes "lo \<le> m" and "m \<le> hi"
  shows "retain_calls m hi t + retain_calls lo m t = retain_calls lo hi t"
  using assms by (induction t) (auto simp: retain_calls_def bt_range_def)

lemma retain_calls_retain_in [simp]: "retain_calls lo m (retain_in m hi keep t) = retain_calls lo m t"
  by (induction t) (auto simp: retain_calls_def bt_range_def retain_in_def)

lemma retain_calls_empty [simp]: "retain_calls lo lo t = 0"
  by (auto simp: retain_calls_def bt_range_def filter_empty_conv)

lemma retain_calls_card:
  assumes "bt_wf t"
  shows "retain_calls lo hi t = card {k \<in> bt_keys t. lo \<le> k \<and> k < hi}"
proof -
  have "bt_keys (bt_range lo hi t) = {k \<in> bt_keys t. lo \<le> k \<and> k < hi}"
    by (auto simp: bt_keys_def bt_range_def image_iff)
  then show ?thesis
    using card_bt_keys [OF bt_wf_range [OF assms]] by (metis retain_calls_def)
qed

definition rolled_back :: "height \<Rightarrow> height \<Rightarrow> tables \<Rightarrow> tables" where
  "rolled_back lo hi db = snd (rollback_batch lo hi False rollback_report_default db)"

lemma rollback_batch_tables:
  "snd (rollback_batch lo hi dry report db) = (if dry then db else rolled_back lo hi db)"
  by (simp add: rolled_back_def rollback_batch_def Let_def)

lemma rolled_back_join: "lo \<le> m \<Longrightarrow> m \<le> hi \<Longrightarrow> rolled_back lo m (rolled_back m hi db) = rolled_back lo hi db"
  by (simp add: rolled_back_def rollback_batch_def Let_def retain_in_join)

lemma rolled_back_empty [simp]: "rolled_back lo lo db = db"
  by (simp add: rolled_back_def rollback_batch_def Let_def)

lemma rollback_report_join:
  "lo \<le> m \<Longrightarrow> m \<le> hi \<Longrightarrow>
   fst (rollback_batch lo m dry (fst (rollback_batch m hi dry report db)) (if dry then db else rolled_back m hi db))
     = fst (rollback_batch lo hi dry report db)"
  by (cases dry) (simp_all add: rolled_back_def rollback_batch_def Let_def add.assoc retain_calls_join)

lemma rollback_report_empty [simp]: "fst (rollback_batch lo lo dry report db) = report"
  by (simp add: rollback_batch_def Let_def)

lemma checked_add_one_None: "checked_add (h :: u64) 1 = None \<Longrightarrow> h = - 1"
  using unat_lt2p [of h] by (auto simp: checked_add_def word_unat_eq_iff unsigned_minus_1_eq_mask mask_eq_exp_minus_1 split: if_splits)

lemma height_saturating_sub_less: "0 < n \<Longrightarrow> 0 < h \<Longrightarrow> height_saturating_sub h n < h"
  by (auto simp: height_saturating_sub_def word_less_nat_alt unat_saturating_sub)

definition write_may_fail :: "redb_env \<Rightarrow> bool" where
  "write_may_fail env \<longleftrightarrow> (\<exists>db. re_begin_write env db \<noteq> None \<or> re_commit env db \<noteq> None)"

text \<open>
  The loop returns for every batch size above zero: each round moves its upper bound down. On an
  error the batches that committed stay removed, a dry run changes nothing.
\<close>

lemma rollback_loop_returns:
  assumes "0 < batch_size" and "stop \<le> hi"
  shows "\<exists>r lo. rollback_loop env stop batch_size dry hi report db = Some (r, if dry then db else rolled_back lo hi db)
    \<and> stop \<le> lo \<and> lo \<le> hi
    \<and> (\<forall>final. r = Inr final \<longrightarrow> lo = stop \<and> final = fst (rollback_batch stop hi dry report db))
    \<and> (\<forall>e. r = Inl e \<longrightarrow> write_may_fail env)"
  using assms(2)
proof (induction "unat hi" arbitrary: hi report db rule: less_induct)
  case less
  let ?low = "max (height_saturating_sub hi batch_size) stop"
  show ?case
  proof (cases "hi = stop")
    case True
    then show ?thesis by (subst rollback_loop.simps) auto
  next
    case False
    with less.prems have "stop < hi" by simp
    moreover from this have "0 < hi" using word_zero_le [of stop] by (rule le_less_trans [rotated])
    ultimately have low: "stop \<le> ?low" "?low < hi"
      using assms(1) height_saturating_sub_less [of batch_size hi] by (auto simp: max_def)
    then have small: "unat ?low < unat hi" by (simp add: word_less_nat_alt)
    let ?rep = "fst (rollback_batch ?low hi dry report db)" and ?db = "if dry then db else rolled_back ?low hi db"
    have step: "rollback_loop env stop batch_size dry hi report db =
        (case re_begin_write env db of Some e \<Rightarrow> Some (Inl (DatabaseFailure e), db)
         | None \<Rightarrow> if dry then rollback_loop env stop batch_size dry ?low ?rep db
           else case re_commit env ?db of Some e \<Rightarrow> Some (Inl (DatabaseFailure e), db)
             | None \<Rightarrow> rollback_loop env stop batch_size dry ?low ?rep ?db)"
      using False by (subst rollback_loop.simps) (simp add: Let_def case_prod_beta rollback_batch_tables cong: option.case_cong)
    have failed: "?thesis" if "rollback_loop env stop batch_size dry hi report db = Some (Inl e, db)"
      "write_may_fail env" for e
      using that less.prems by (intro exI [of _ "Inl e"] exI [of _ hi]) simp
    have next_round: "?thesis"
      if "rollback_loop env stop batch_size dry hi report db = rollback_loop env stop batch_size dry ?low ?rep ?db"
    proof -
      obtain r lo where "rollback_loop env stop batch_size dry ?low ?rep ?db =
          Some (r, if dry then ?db else rolled_back lo ?low ?db)"
        and lo: "stop \<le> lo" "lo \<le> ?low"
        and fin: "\<forall>final. r = Inr final \<longrightarrow> lo = stop \<and> final = fst (rollback_batch stop ?low dry ?rep ?db)"
          "\<forall>e. r = Inl e \<longrightarrow> write_may_fail env"
        using less.hyps [OF small low(1), of ?rep ?db] by blast
      moreover have "rolled_back lo ?low (rolled_back ?low hi db) = rolled_back lo hi db"
        using lo low by (intro rolled_back_join) auto
      moreover have "fst (rollback_batch stop ?low dry ?rep ?db) = fst (rollback_batch stop hi dry report db)"
        using low by (intro rollback_report_join) auto
      ultimately show ?thesis
        using that order_trans [OF lo(2) less_imp_le [OF low(2)]] by (intro exI [of _ r] exI [of _ lo]) auto
    qed
    show ?thesis
    proof (cases "re_begin_write env db")
      case None
      show ?thesis
      proof (cases "dry \<or> re_commit env ?db = None")
        case True
        then show ?thesis using None by (intro next_round) (auto simp: step)
      next
        case False
        then obtain e where "re_commit env ?db = Some e" by blast
        then show ?thesis using None False by (intro failed [of "DatabaseFailure e"]) (subst step, simp, auto simp: write_may_fail_def)
      qed
    next
      case (Some e)
      then show ?thesis by (intro failed [of "DatabaseFailure e"]) (simp add: step, auto simp: write_may_fail_def)
    qed
  qed
qed

lemma rolled_back_sub: "store_inv codec db \<Longrightarrow> sub_tables_of (rolled_back lo hi db) db"
  unfolding rolled_back_def by (rule rollback_batch_sub)

text \<open>The keys of the composite tables carry a round, so a range of heights is a range of keys.\<close>

lemma round_as_i64_ge: "- 1 \<le> round_as_i64 r"
  by (cases r) (auto intro: order_trans [OF _ uint_ge_0])

lemma composite_in_range:
  "(lo, - 1, 0) \<le> (h :: height, round_as_i64 r, x :: 256 word) \<longleftrightarrow> lo \<le> h"
  "(h, round_as_i64 r, x) < (hi, - 1, 0) \<longleftrightarrow> h < hi"
  using round_as_i64_ge [of r] by (auto simp: less_prod_def less_eq_prod_def)

text \<open>The heights a rollback to \<open>target\<close> is about: above the target, up to the last certificate.\<close>

definition rollback_range :: "height \<Rightarrow> tables \<Rightarrow> height \<Rightarrow> bool" where
  "rollback_range target db h \<longleftrightarrow>
     (case bt_last (certificates db) of None \<Rightarrow> False | Some (tip, _) \<Rightarrow> target < h \<and> h \<le> tip)"

definition rows_dropped :: "('k::linorder \<Rightarrow> bool) \<Rightarrow> ('k, bytes) btree_map \<Rightarrow> ('k, bytes) btree_map \<Rightarrow> nat \<Rightarrow> bool" where
  "rows_dropped P t t' n \<longleftrightarrow>
     bt_wf t' \<and> (\<forall>k. bt_get t' k = (if P k then None else bt_get t k)) \<and> n = card {k \<in> bt_keys t. P k}"

text \<open>What a rollback promises: those rows, and no other, are gone from every table, and counted.\<close>

definition rollback_done :: "height \<Rightarrow> tables \<Rightarrow> tables \<Rightarrow> rollback_report \<Rightarrow> bool" where
  "rollback_done target db db' report \<longleftrightarrow>
     (let P = rollback_range target db in
      rows_dropped P (certificates db) (certificates db') (rr_certificates report)
      \<and> rows_dropped P (decided_blocks db) (decided_blocks db') (rr_decided_blocks report)
      \<and> rows_dropped P (invalid_payloads db) (invalid_payloads db') (rr_invalid_payloads report)
      \<and> rows_dropped P (misbehavior_evidence db) (misbehavior_evidence db') (rr_misbehavior_evidence report)
      \<and> rows_dropped P (proposal_monitor_data db) (proposal_monitor_data db') (rr_proposal_monitor_data report)
      \<and> rows_dropped (P \<circ> fst) (undecided_blocks db) (undecided_blocks db') (rr_undecided_blocks report)
      \<and> rows_dropped (P \<circ> fst) (pending_proposal_parts db) (pending_proposal_parts db') (rr_pending_proposal_parts report))"

lemma rows_dropped_retain_in:
  assumes wf: "bt_wf t" and P: "\<And>k. k \<in> bt_keys t \<Longrightarrow> P k \<longleftrightarrow> lo \<le> k \<and> k < hi"
  shows "rows_dropped P t (retain_in lo hi False t) (retain_calls lo hi t)"
proof -
  have "{k \<in> bt_keys t. P k} = {k \<in> bt_keys t. lo \<le> k \<and> k < hi}" using P by blast
  moreover have "bt_get (retain_in lo hi False t) k = (if P k then None else bt_get t k)" for k
    using P [of k] wf bt_get_None_iff [of t k] by (cases "k \<in> bt_keys t") (auto simp: bt_get_retain_in)
  ultimately show ?thesis
    using wf by (simp add: rows_dropped_def bt_wf_retain_in retain_calls_card)
qed

lemma rows_dropped_none:
  assumes "bt_wf t" and "\<And>k. \<not> P k"
  shows "rows_dropped P t t 0"
  using assms by (simp add: rows_dropped_def)

lemma bt_keys_getE:
  assumes "k \<in> bt_keys t"
  obtains b where "bt_get t k = Some b"
  using assms bt_get_None_iff [of t k] by blast

lemma rows_keyed_range: "rows_keyed t dec key \<Longrightarrow> k \<in> bt_keys t \<Longrightarrow> k \<in> range key"
  by (fastforce simp: rows_keyed_def elim!: bt_keys_getE)

lemma composite_keys_in_range:
  fixes codec :: "('sig, 'ev) store_codec"
  assumes inv: "store_inv codec db" and k: "k \<in> bt_keys (undecided_blocks db) \<union> bt_keys (pending_proposal_parts db)"
  shows "(lo, - 1, 0) \<le> k \<and> k < (hi, - 1, 0) \<longleftrightarrow> lo \<le> fst k \<and> fst k < hi"
proof -
  have "k \<in> range (block_key :: 'sig consensus_block \<Rightarrow> composite_key) \<union> range (parts_key codec)"
    using k inv unfolding store_inv_def by (blast dest: rows_keyed_range)
  then have "\<exists>h r x. k = (h, round_as_i64 r, x)"
    by (auto simp: block_key_def parts_key_def case_prod_beta)
  then show ?thesis by (elim exE) (simp only: composite_in_range fst_conv)
qed

lemma rollback_done_rolled_back:
  assumes inv: "store_inv codec db" and tip: "bt_last (certificates db) = Some (tip, v)" and above: "target < tip"
    and stop: "height_increment target = Some stop" and hi: "height_increment tip = Some hi"
  shows "rollback_done target db (rolled_back stop hi db) (fst (rollback_batch stop hi dry rollback_report_default db))"
proof -
  have P: "rollback_range target db h \<longleftrightarrow> stop \<le> h \<and> h < hi" for h
    using stop hi tip by (auto simp: rollback_range_def height_increment_iff word_less_nat_alt word_le_nat_alt)
  note wf = store_inv_wf [OF inv]
  have "rows_dropped (rollback_range target db) t (retain_in stop hi False t) (retain_calls stop hi t)" if "bt_wf t" for t
    using that by (intro rows_dropped_retain_in) (simp_all add: P)
  moreover have "rows_dropped (rollback_range target db \<circ> fst) t (retain_in (stop, - 1, 0) (hi, - 1, 0) False t)
      (retain_calls (stop, - 1, 0) (hi, - 1, 0) t)" if "t \<in> {undecided_blocks db, pending_proposal_parts db}" for t
    using that wf composite_keys_in_range [OF inv, of _ stop hi]
    by (intro rows_dropped_retain_in) (auto simp only: P comp_apply insert_iff empty_iff Un_iff)
  ultimately show ?thesis
    using wf by (simp add: rollback_done_def rolled_back_def rollback_batch_def Let_def rollback_report_default_def)
qed

text \<open>Whatever happens on the way, nothing at or below the target is lost.\<close>

definition kept_upto :: "height \<Rightarrow> tables \<Rightarrow> tables \<Rightarrow> bool" where
  "kept_upto target db db' \<longleftrightarrow>
     (\<forall>h. h \<le> target \<longrightarrow>
        (\<forall>name. bt_get (open_table name db') h = bt_get (open_table name db) h)
        \<and> (\<forall>k. bt_get (undecided_blocks db') (h, k) = bt_get (undecided_blocks db) (h, k))
        \<and> (\<forall>k. bt_get (pending_proposal_parts db') (h, k) = bt_get (pending_proposal_parts db) (h, k)))"

lemma kept_upto_rolled_back:
  assumes "target < lo"
  shows "kept_upto target db (rolled_back lo hi db)"
proof -
  have "bt_get (open_table name (rolled_back lo hi db)) h = bt_get (open_table name db) h" if "h \<le> target" for h name
    using assms that by (cases name) (auto simp: rolled_back_def rollback_batch_def Let_def bt_get_retain_in)
  moreover have "\<not> (lo, x) \<le> (h, k)" if "h \<le> target" for h and k x :: "int \<times> block_hash"
    using assms that by (auto simp: less_eq_prod_def)
  ultimately show ?thesis
    by (simp add: kept_upto_def rolled_back_def rollback_batch_def Let_def bt_get_retain_in del: less_eq_prod_simp)
qed

lemma kept_upto_refl: "kept_upto target db db"
  by (simp add: kept_upto_def)

lemma rollback_loop_done:
  assumes inv: "store_inv codec db" and tip: "bt_last (certificates db) = Some (tip, v)" and above: "target < tip"
    and stop: "height_increment target = Some stop" and hi: "height_increment tip = Some hi"
    and size: "0 < batch_size" and le: "stop \<le> hi"
  shows "\<exists>r final. rollback_loop env stop batch_size dry hi rollback_report_default db = Some (r, if dry then db else final)
    \<and> sub_tables_of final db \<and> kept_upto target db final
    \<and> (\<forall>report. r = Inr report \<longrightarrow> rollback_done target db final report)
    \<and> (\<forall>e. r = Inl e \<longrightarrow> write_may_fail env)"
proof -
  obtain r lo where run: "rollback_loop env stop batch_size dry hi rollback_report_default db =
      Some (r, if dry then db else rolled_back lo hi db)" "stop \<le> lo"
    and fin: "\<forall>final. r = Inr final \<longrightarrow> lo = stop
      \<and> final = fst (rollback_batch stop hi dry rollback_report_default db)"
    and err: "\<forall>e. r = Inl e \<longrightarrow> write_may_fail env"
    using rollback_loop_returns [OF size le, of env dry rollback_report_default db] by blast
  have "rollback_done target db (rolled_back lo hi db) report" if "r = Inr report" for report
    using fin that rollback_done_rolled_back [OF inv tip above stop hi] by simp
  moreover have "target < lo"
    using stop run(2) by (simp add: height_increment_iff word_less_nat_alt word_le_nat_alt)
  ultimately show ?thesis
    using run err rolled_back_sub [OF inv] kept_upto_rolled_back
    by (intro exI [of _ r] exI [of _ "rolled_back lo hi db"] conjI allI impI) simp_all
qed

lemma rollback_nothing:
  assumes inv: "store_inv codec db" and none: "\<And>h. \<not> rollback_range target db h"
  shows "rollback_done target db db rollback_report_default"
  using store_inv_wf [OF inv] none
  by (simp add: rollback_done_def rollback_report_default_def Let_def rows_dropped_none)

lemma rollback_returns:
  assumes inv: "store_inv codec db"
  shows "\<exists>r final. rollback_to_height env target batch_size dry db = Some (r, if dry then db else final)
    \<and> sub_tables_of final db \<and> kept_upto target db final
    \<and> (\<forall>report. r = Inr report \<longrightarrow> rollback_done target db final report)
    \<and> (\<forall>e. r = Inl e \<longrightarrow> batch_size = 0 \<or> re_begin_read env db \<noteq> None
          \<or> write_may_fail env \<or> (- 1) \<in> bt_keys (certificates db))"
proof -
  have refl: "sub_tables_of db db"
    using store_inv_wf [OF inv] by (simp add: sub_tables_of_def sub_table_refl)
  let ?run = "rollback_to_height env target batch_size dry db"
  have early: ?thesis if "?run = Some (r, db)" "\<And>report. r = Inr report \<Longrightarrow> report = rollback_report_default"
    "\<And>report. r = Inr report \<Longrightarrow> (\<And>h. \<not> rollback_range target db h)"
    "\<And>e. r = Inl e \<Longrightarrow> batch_size = 0 \<or> re_begin_read env db \<noteq> None \<or> (- 1) \<in> bt_keys (certificates db)" for r
    using that refl rollback_nothing [OF inv] kept_upto_refl by (intro exI [of _ r] exI [of _ db]) (cases r; fastforce)
  show ?thesis
  proof (cases "batch_size = 0 \<or> re_begin_read env db \<noteq> None")
    case True
    then have "\<exists>e. ?run = Some (Inl e, db)" by (auto simp: rollback_to_height_def)
    then show ?thesis using True by (elim exE) (rule early, auto)
  next
    case usable: False
    show ?thesis
    proof (cases "bt_last (certificates db)")
      case None
      then show ?thesis using usable
        by (intro early [of "Inr rollback_report_default"]) (auto simp: rollback_to_height_def rollback_range_def)
    next
      case (Some row)
      then obtain tip v where tip: "bt_last (certificates db) = Some (tip, v)" by (cases row) auto
      show ?thesis
      proof (cases "tip \<le> target")
        case True
        then show ?thesis using usable tip
          by (intro early [of "Inr rollback_report_default"]) (auto simp: rollback_to_height_def rollback_range_def)
      next
        case False
        then have "\<exists>stop. height_increment target = Some stop"
          using unat_lt2p [of tip] by (simp add: height_increment_def checked_add_def word_le_nat_alt)
        then obtain stop where stop: "height_increment target = Some stop" by blast
        show ?thesis
        proof (cases "height_increment tip")
          case None
          have "tip \<in> bt_keys (certificates db)"
            using bt_last_max(1) [OF store_inv_wf(1) [OF inv] tip] bt_get_None_iff [of "certificates db" tip] by auto
          moreover have "tip = - 1" using None by (simp add: height_increment_def checked_add_one_None)
          ultimately show ?thesis using usable tip False None stop
            by (intro early [of "Inl (StorePanic ''block height overflow'')"]) (auto simp: rollback_to_height_def)
        next
          case (Some hi)
          have "stop \<le> hi"
            using stop Some False by (simp add: height_increment_iff word_le_nat_alt)
          moreover have "?run = rollback_loop env stop batch_size dry hi rollback_report_default db"
            using usable tip False stop Some by (simp add: rollback_to_height_def)
          ultimately obtain r final where "?run = Some (r, if dry then db else final)"
            and "sub_tables_of final db" "kept_upto target db final" "\<forall>report. r = Inr report \<longrightarrow> rollback_done target db final report"
              "\<forall>e. r = Inl e \<longrightarrow> write_may_fail env"
            using rollback_loop_done [OF inv tip _ stop Some, of batch_size env dry] usable False
            unfolding word_gt_0 not_le by auto
          then show ?thesis by blast
        qed
      qed
    qed
  qed
qed

section \<open>Runs of the database\<close>

datatype ('sig, 'ev) store_command =
    StoreDecided "'sig commit_certificate" exec_payload address
  | ExtendCertificate "'sig commit_certificate"
  | StoreEvidence "'ev stored_misbehavior_evidence"
  | StoreMonitor proposal_monitor
  | AppendInvalid invalid_payload
  | StoreUndecided "'sig consensus_block"
  | StorePending "'sig proposal_parts" nat height
  | RemovePendingStoreUndecided "'sig proposal_parts" "'sig consensus_block"
  | EnforcePendingLimit nat height
  | CleanStale height
  | PruneTable height height_table_name
  | PruneBlocks
  | RollbackTo height u64 bool

text \<open>One operation, in an environment that may make its transactions fail.\<close>

fun store_step :: "('sig, 'ev) store_codec \<Rightarrow> tables \<Rightarrow> redb_env \<times> ('sig, 'ev) store_command \<Rightarrow> tables" where
  "store_step codec db (env, StoreDecided c p a) = snd (store_decided_block env codec c p a db)"
| "store_step codec db (env, ExtendCertificate c) = snd (extend_certificate env codec c db)"
| "store_step codec db (env, StoreEvidence e) = snd (insert_misbehavior_evidence env codec e db)"
| "store_step codec db (env, StoreMonitor pm) = snd (insert_proposal_monitor_data env codec pm db)"
| "store_step codec db (env, AppendInvalid i) = snd (append_invalid_payload env codec i db)"
| "store_step codec db (env, StoreUndecided k) = snd (store_undecided_block env codec k db)"
| "store_step codec db (env, StorePending p n h) = snd (insert_pending_proposal_parts env codec p n h db)"
| "store_step codec db (env, RemovePendingStoreUndecided p k) =
     snd (remove_pending_parts_and_store_undecided_block env codec p k db)"
| "store_step codec db (env, EnforcePendingLimit n h) = snd (enforce_pending_proposals_limit env n h db)"
| "store_step codec db (env, CleanStale h) = snd (clean_stale_consensus_data env h db)"
| "store_step codec db (env, PruneTable h t) = snd (prune_height_table_batch env h t db)"
| "store_step codec db (env, PruneBlocks) = snd (prune_blocks env db)"
| "store_step codec db (env, RollbackTo target batch_size dry) =
     (case rollback_to_height env target batch_size dry db of Some (_, db') \<Rightarrow> db' | None \<Rightarrow> db)"

lemma store_decided_block_cases:
  assumes "store_decided_block env codec c p a db = (r, db')"
  obtains (failed) e where "r = Inl e" and "db' = db"
  | (stored) "r = Inr ()" and "pl_block_hash p = cc_value_id c"
      and "insert_decided_block env codec \<lparr>dcb_execution_payload = p, dcb_certificate = c\<rparr> a db = (Inr (), db')"
proof (cases "pl_block_hash p = cc_value_id c")
  case False
  then show thesis using assms failed by (auto simp: store_decided_block_def decided_block_new_def)
next
  case True
  then have run: "insert_decided_block env codec \<lparr>dcb_execution_payload = p, dcb_certificate = c\<rparr> a db = (r, db')"
    using assms by (simp add: store_decided_block_def decided_block_new_def)
  from run [unfolded insert_decided_block_def] show thesis
  proof (cases rule: write_tx_cases)
    case failed
    then show thesis using \<open>\<And>e. r = Inl e \<Longrightarrow> db' = db \<Longrightarrow> thesis\<close> by blast
  next
    case (committed u)
    then show thesis using stored [OF _ True] run by simp
  qed
qed

lemma store_step_inv:
  assumes laws: "store_codec_laws codec" and inv: "store_inv codec db"
  shows "store_inv codec (store_step codec db (env, cmd))"
proof (cases cmd)
  case (StoreDecided c p a)
  obtain r db' where run: "store_decided_block env codec c p a db = (r, db')" by fastforce
  then have "store_inv codec db'"
  proof (cases rule: store_decided_block_cases)
    case (failed e)
    then show ?thesis using inv by simp
  next
    case stored
    show ?thesis by (rule store_inv_insert_decided_block [OF laws inv _ stored(3)]) (simp add: stored(2))
  qed
  then show ?thesis using StoreDecided run by simp
next
  case (ExtendCertificate c)
  obtain r db' where run: "extend_certificate env codec c db = (r, db')" by fastforce
  show ?thesis
    using run unfolding extend_certificate_def
  proof (cases rule: write_tx_cases)
    case failed
    then show ?thesis using ExtendCertificate run inv by simp
  next
    case (committed u)
    then show ?thesis using ExtendCertificate run store_inv_extend_certificate(1) [OF laws inv] by simp
  qed
next
  case (StoreEvidence e)
  then show ?thesis
    using laws inv unfolding store_codec_laws_def insert_misbehavior_evidence_def
    by (auto intro!: write_tx_inv [where J = "store_inv codec"] store_inv_put_rows(1) split: sum.splits
        simp: insert_misbehavior_evidence_def)
next
  case (StoreMonitor pm)
  then show ?thesis
    using laws inv unfolding store_codec_laws_def
    by (auto intro!: write_tx_inv [where J = "store_inv codec"] store_inv_put_rows(2) split: sum.splits
        simp: insert_proposal_monitor_data_def)
next
  case (AppendInvalid i)
  have enc: "\<And>i b. enc_invalid codec i = Inr b \<Longrightarrow> dec_invalid codec b = Inr i"
    using laws unfolding store_codec_laws_def by blast
  have height: "sip_height stored = h"
    if "bt_get (invalid_payloads db) h = Some v" "decoded (dec_invalid codec) v = Inr stored" for h v stored
    using inv that by (fastforce simp: store_inv_def rows_keyed_def decoded_def)
  have put: "store_inv codec (db\<lparr>invalid_payloads := bt_insert (sip_height stored) b (invalid_payloads db)\<rparr>)"
    if "enc_invalid codec (add_invalid_payload i stored) = Inr b" for stored b
    using store_inv_put_rows(3) [OF inv enc [OF that]] by (simp add: add_invalid_payload_def)
  show ?thesis
    unfolding AppendInvalid store_step.simps append_invalid_payload_def Let_def
  proof (rule write_tx_inv [where J = "store_inv codec", OF inv])
    fix a db'
    assume "bind_result (case bt_get (invalid_payloads db) (ip_height i) of
        None \<Rightarrow> Inr (empty_payloads (ip_height i)) | Some v \<Rightarrow> decoded (dec_invalid codec) v) (\<lambda>stored.
        case enc_invalid codec (add_invalid_payload i stored) of Inl e \<Rightarrow> Inl (ProtobufError e)
        | Inr encoded \<Rightarrow> Inr ((), db\<lparr>invalid_payloads := bt_insert (ip_height i) encoded (invalid_payloads db)\<rparr>)) = Inr (a, db')"
    then show "store_inv codec db'"
      using put [of "empty_payloads (ip_height i)"]
      by (auto simp: bind_result_def empty_payloads_def split: option.splits sum.splits dest!: height put)
  qed
next
  case (StoreUndecided k)
  then show ?thesis
    using store_inv_insert_undecided_block [OF laws inv] inv
    by (auto intro!: write_tx_inv [where J = "store_inv codec"] simp: store_undecided_block_def)
next
  case (StorePending p n h)
  have "store_inv codec (db\<lparr>pending_proposal_parts := bt_insert (parts_key codec p) b (pending_proposal_parts db)\<rparr>)"
    if "enc_parts codec p = Inr b" for b
    using laws inv that unfolding store_codec_laws_def by (blast intro: store_inv_put_rows(5))
  then show ?thesis
    using StorePending inv
    by (auto intro!: write_tx_inv [where J = "store_inv codec"] simp: insert_pending_proposal_parts_def
        split: sum.splits if_splits)
next
  case (RemovePendingStoreUndecided p k)
  then show ?thesis
    using store_inv_insert_undecided_block [OF laws store_inv_remove_pending [OF inv]] inv
    by (auto intro!: write_tx_inv [where J = "store_inv codec"]
        simp: remove_pending_parts_and_store_undecided_block_def)
next
  case (EnforcePendingLimit n h)
  have "store_inv codec (db\<lparr>pending_proposal_parts := foldl (\<lambda>t k. bt_remove k t) (pending_proposal_parts db) ks\<rparr>)" for ks
    using inv by (auto simp: store_inv_def payload_at_def certificate_at_def rows_keyed_removed)
  then show ?thesis
    using EnforcePendingLimit inv
    by (auto intro!: write_tx_inv [where J = "store_inv codec"] simp: enforce_pending_proposals_limit_def
        bind_result_def Let_def split: sum.splits)
next
  case (CleanStale h)
  have "store_inv codec (db\<lparr>undecided_blocks := bt_retain (\<lambda>k _. h < fst k) (undecided_blocks db),
      pending_proposal_parts := bt_retain (\<lambda>k _. h < fst k) (pending_proposal_parts db)\<rparr>)"
    using inv by (auto simp: store_inv_def payload_at_def certificate_at_def rows_keyed_retain)
  then show ?thesis
    using CleanStale inv
    by (auto intro!: write_tx_inv [where J = "store_inv codec"] simp: clean_stale_consensus_data_def)
next
  case (PruneTable h t)
  then show ?thesis
    using store_inv_sub [OF inv prune_batch_sub [OF inv]] by (metis prod.collapse store_step.simps(11))
next
  case PruneBlocks
  have "store_inv codec (snd (prune_height_table_batch env r DECIDED_BLOCKS_TABLE db))" for r
    using store_inv_sub [OF inv prune_batch_sub [OF inv]] by (metis prod.collapse)
  then show ?thesis
    using PruneBlocks inv by (auto simp: prune_blocks_def and_then_def Let_def split: sum.splits)
next
  case (RollbackTo target batch_size dry)
  then show ?thesis
    using rollback_returns [OF inv, of env target batch_size dry] store_inv_sub [OF inv] inv by auto
qed

interpretation st: invariant_machine "store_step codec" "\<lambda>_. True" "\<lambda>db. store_codec_laws codec \<longrightarrow> store_inv codec db"
  for codec :: "('sig, 'ev) store_codec"
  by (unfold_locales, case_tac c) (simp add: store_step_inv)

definition empty_tables :: tables where
  "empty_tables = \<lparr>certificates = [], decided_blocks = [], undecided_blocks = [], pending_proposal_parts = [],
     misbehavior_evidence = [], invalid_payloads = [], proposal_monitor_data = []\<rparr>"

lemma store_inv_empty: "store_inv codec empty_tables"
  by (simp add: store_inv_def empty_tables_def payload_at_def bt_get_def bt_wf_def)

text \<open>A read of a sound database sees what \<open>payload_at\<close> and \<open>certificate_at\<close> say.\<close>

lemma get_decided_block_sound:
  assumes inv: "store_inv codec db" and ok: "re_begin_read env db = None"
  shows "get_decided_block env codec h db = Inr
    (case (payload_at codec db h, certificate_at codec db h) of
       (Some p, Some c) \<Rightarrow> Some \<lparr>dcb_execution_payload = p, dcb_certificate = scc_certificate c\<rparr> | _ \<Rightarrow> None)"
proof -
  have dec: "decoded_row (dec_payload codec) (bt_get (decided_blocks db) h) = Inr (payload_at codec db h)"
  proof (cases "bt_get (decided_blocks db) h")
    case (Some b)
    then obtain p where "dec_payload codec b = Inr p" using inv unfolding store_inv_def by blast
    then show ?thesis using Some by (simp add: decoded_row_def decoded_def payload_at_def right_or_none_def)
  qed (simp add: decoded_row_def payload_at_def)
  have "pl_block_hash p = cc_value_id (scc_certificate c)"
    if "payload_at codec db h = Some p" "certificate_at codec db h = Some c" for p c
    using inv that unfolding store_inv_def by blast
  then show ?thesis
    using ok dec by (auto simp: get_decided_block_def read_tx_def bind_result_def decided_block_new_def
        certificate_at_def [symmetric] Let_def split: option.splits)
qed

lemma get_certificate_at: "re_begin_read env db = None \<Longrightarrow> get_certificate env codec (Some h) db = Inr (certificate_at codec db h)"
  by (simp add: get_certificate_def read_tx_def certificate_at_def)



section \<open>Certificates only grow\<close>

definition certificate_extends :: "'sig stored_commit_certificate \<Rightarrow> 'sig stored_commit_certificate \<Rightarrow> bool" where
  "certificate_extends old new \<longleftrightarrow>
     cc_height (scc_certificate new) = cc_height (scc_certificate old)
     \<and> cc_round (scc_certificate new) = cc_round (scc_certificate old)
     \<and> cc_value_id (scc_certificate new) = cc_value_id (scc_certificate old)
     \<and> scc_proposer new = scc_proposer old
     \<and> set (cc_commit_signatures (scc_certificate old)) \<subseteq> set (cc_commit_signatures (scc_certificate new))"

lemma certificate_extends_trans:
  "certificate_extends a b \<Longrightarrow> certificate_extends b c \<Longrightarrow> certificate_extends a c"
  by (auto simp: certificate_extends_def)

text \<open>The commands that may replace or drop the certificate of a height.\<close>

fun certificate_replaced :: "height \<Rightarrow> ('sig, 'ev) store_command \<Rightarrow> bool" where
  "certificate_replaced h (StoreDecided c _ _) \<longleftrightarrow> cc_height c = h"
| "certificate_replaced h (PruneTable retain t) \<longleftrightarrow> t = CERTIFICATES_TABLE \<and> h < retain"
| "certificate_replaced h (RollbackTo target _ dry) \<longleftrightarrow> \<not> dry \<and> target < h"
| "certificate_replaced h _ \<longleftrightarrow> False"

lemma certificate_kept_write_tx:
  assumes "\<And>a db'. f db = Inr (a, db') \<Longrightarrow> certificates db' = certificates db"
  shows "certificates (snd (write_tx env f db)) = certificates db"
  using write_tx_inv [of "\<lambda>d. certificates d = certificates db" db f env] assms by blast

lemma certificate_at_cong: "certificates db' = certificates db \<Longrightarrow> certificate_at codec db' h = certificate_at codec db h"
  by (simp add: certificate_at_def)

lemma prune_batch_certificates:
  assumes "store_inv codec db" and "t = CERTIFICATES_TABLE \<Longrightarrow> retain \<le> h"
  shows "bt_get (certificates (snd (prune_height_table_batch env retain t db))) h = bt_get (certificates db) h"
proof -
  have "bt_get (certificates (set_table t (foldl (\<lambda>t h. bt_remove h t) (open_table t db) (height_range (open_table t db) retain n)) db)) h
      = bt_get (certificates db) h" for n
  proof (cases t)
    case CERTIFICATES_TABLE
    then have "h \<notin> set (height_range (open_table t db) retain n)"
      using assms(2) by (auto simp: height_range_def dest!: in_set_takeD)
    then show ?thesis using CERTIFICATES_TABLE by (simp add: bt_get_removed)
  qed simp_all
  then show ?thesis
    by (auto simp: prune_height_table_batch_def and_then_def write_tx_def read_tx_def split: sum.splits option.splits if_splits)
qed

lemma kept_upto_certificates:
  "kept_upto target db db' \<Longrightarrow> h \<le> target \<Longrightarrow> bt_get (certificates db') h = bt_get (certificates db) h"
  unfolding kept_upto_def by (metis open_table.simps(1))

lemma other_operations_certificates:
  "certificates (store_step codec db (env, StoreEvidence e)) = certificates db"
  "certificates (store_step codec db (env, StoreMonitor pm)) = certificates db"
  "certificates (store_step codec db (env, AppendInvalid i)) = certificates db"
  "certificates (store_step codec db (env, StoreUndecided k)) = certificates db"
  "certificates (store_step codec db (env, StorePending p n h)) = certificates db"
  "certificates (store_step codec db (env, RemovePendingStoreUndecided p k)) = certificates db"
  "certificates (store_step codec db (env, EnforcePendingLimit n h)) = certificates db"
  "certificates (store_step codec db (env, CleanStale h)) = certificates db"
  by (auto simp: insert_misbehavior_evidence_def insert_proposal_monitor_data_def
      append_invalid_payload_def store_undecided_block_def insert_pending_proposal_parts_def insert_undecided_block_def
      remove_pending_parts_and_store_undecided_block_def remove_pending_proposal_parts_def enforce_pending_proposals_limit_def
      clean_stale_consensus_data_def bind_result_def Let_def intro!: certificate_kept_write_tx
      split: sum.splits option.splits if_splits)

lemma store_step_certificate:
  assumes laws: "store_codec_laws codec" and inv: "store_inv codec db"
    and here: "certificate_at codec db h = Some c" and keep: "\<not> certificate_replaced h cmd"
  shows "\<exists>c'. certificate_at codec (store_step codec db (env, cmd)) h = Some c' \<and> certificate_extends c c'"
proof -
  have refl: "certificate_extends c c" by (simp add: certificate_extends_def)
  have same: ?thesis if "bt_get (certificates (store_step codec db (env, cmd))) h = bt_get (certificates db) h"
    using that here refl by (simp add: certificate_at_def)
  show ?thesis
  proof (cases cmd)
    case (StoreDecided c p a)
    obtain r db' where run: "store_decided_block env codec c p a db = (r, db')" by fastforce
    then have "certificate_at codec db' h = certificate_at codec db h"
    proof (cases rule: store_decided_block_cases)
      case stored
      then show ?thesis using insert_decided_block_eq(3) [OF laws inv stored(3)] keep StoreDecided by simp
    qed simp
    then show ?thesis using StoreDecided run here refl by simp
  next
    case (ExtendCertificate cert)
    obtain r db' where run: "extend_certificate env codec cert db = (r, db')" by fastforce
    show ?thesis
    proof (cases r)
      case (Inl e)
      then have "db' = db" using run unfolding extend_certificate_def by (elim write_tx_cases) auto
      then show ?thesis using ExtendCertificate run here refl by simp
    next
      case (Inr u)
      with run obtain old where "certificate_at codec db (cc_height cert) = Some old"
        and "cc_round (scc_certificate old) = cc_round cert" "cc_value_id (scc_certificate old) = cc_value_id cert"
          "set (cc_commit_signatures (scc_certificate old)) \<subseteq> set (cc_commit_signatures cert)"
          "certificate_at codec db' (cc_height cert) = Some \<lparr>scc_certificate = cert,
             scc_certificate_type = CertExtended, scc_proposer = scc_proposer old\<rparr>"
          "\<forall>h. h \<noteq> cc_height cert \<longrightarrow> certificate_at codec db' h = certificate_at codec db h"
        using store_inv_extend_certificate(2) [OF laws inv, of env cert db'] by auto
      then show ?thesis
        using ExtendCertificate run here refl certificate_at_height [OF inv here]
        by (cases "h = cc_height cert") (auto simp: certificate_extends_def)
    qed
  next
    case (PruneTable retain t)
    then show ?thesis using keep by (intro same) (auto simp: not_less intro!: prune_batch_certificates [OF inv])
  next
    case PruneBlocks
    then show ?thesis
      by (intro same) (auto simp: prune_blocks_def and_then_def Let_def split: sum.splits intro!: prune_batch_certificates [OF inv])
  next
    case (RollbackTo target batch_size dry)
    then show ?thesis
      using keep rollback_returns [OF inv, of env target batch_size dry]
      by (intro same) (auto simp: not_less dest: kept_upto_certificates)
  qed (rule same, simp only: other_operations_certificates)+
qed

interpretation cert: invariant_machine "store_step codec" "\<lambda>(env, cmd). \<not> certificate_replaced h cmd"
  "\<lambda>db. store_codec_laws codec \<longrightarrow>
     store_inv codec db \<and> (\<exists>c'. certificate_at codec db h = Some c' \<and> certificate_extends c c')"
  for codec :: "('sig, 'ev) store_codec" and h c
proof (unfold_locales, goal_cases)
  case (1 db cmd)
  obtain env command where cmd: "cmd = (env, command)" by (cases cmd)
  show ?case
  proof
    assume laws: "store_codec_laws codec"
    with 1(1) obtain c' where inv: "store_inv codec db" and c': "certificate_at codec db h = Some c'" "certificate_extends c c'"
      by blast
    obtain c'' where "certificate_at codec (store_step codec db cmd) h = Some c''" "certificate_extends c' c''"
      using store_step_certificate [OF laws inv c'(1), of command env] 1(2) by (auto simp: cmd)
    then show "store_inv codec (store_step codec db cmd)
        \<and> (\<exists>c'. certificate_at codec (store_step codec db cmd) h = Some c' \<and> certificate_extends c c')"
      using store_step_inv [OF laws inv] certificate_extends_trans [OF c'(2)] cmd by blast
  qed
qed


section \<open>Rollback, pruning and limits\<close>

text \<open>
  (C12) A rollback always returns. Unless it is a dry run, whose tables stay as they were, a
  successful one leaves each of the seven tables without exactly the rows of the heights above
  the target up to the last certificate, and its report counts them. One that fails on the way
  has removed rows only, none of them at or below the target, and the database is still sound.
  It fails only for an empty batch size, a failing transaction or a certificate at the last height.
\<close>

theorem rollback_exact:
  assumes "store_inv codec db"
  shows "\<exists>r final. rollback_to_height env target batch_size dry db = Some (r, if dry then db else final)
    \<and> store_inv codec final \<and> sub_tables_of final db \<and> kept_upto target db final
    \<and> (\<forall>report. r = Inr report \<longrightarrow> rollback_done target db final report)
    \<and> (\<forall>e. r = Inl e \<longrightarrow> batch_size = 0 \<or> re_begin_read env db \<noteq> None
          \<or> write_may_fail env \<or> (- 1) \<in> bt_keys (certificates db))"
  using rollback_returns [OF assms, of env target batch_size dry] store_inv_sub [OF assms] by blast

lemma sorted_height_range:
  assumes "bt_wf t"
  shows "sorted (height_range t below n)" "distinct (height_range t below n)"
    "set (height_range t below n) \<subseteq> {h \<in> bt_keys t. h < below}"
    "j \<in> bt_keys t \<Longrightarrow> j < below \<Longrightarrow> j \<notin> set (height_range t below n) \<Longrightarrow>
      length (height_range t below n) = n \<and> (\<forall>h \<in> set (height_range t below n). h < j)"
proof -
  let ?keys = "filter (\<lambda>h. h < below) (map fst t)"
  have sd: "sorted_wrt (<) ?keys"
    using assms by (simp add: bt_wf_def sorted_wrt_filter)
  show "sorted (height_range t below n)" "distinct (height_range t below n)"
    using sd by (auto simp: height_range_def strict_sorted_iff intro: sorted_wrt_take)
  show "set (height_range t below n) \<subseteq> {h \<in> bt_keys t. h < below}"
    by (auto simp: height_range_def bt_keys_def dest!: in_set_takeD)
  assume j: "j \<in> bt_keys t" "j < below" "j \<notin> set (height_range t below n)"
  then have "j \<in> set ?keys" by (simp add: bt_keys_def)
  then have "j \<in> set (take n ?keys) \<union> set (drop n ?keys)"
    by (simp only: set_append [symmetric] append_take_drop_id)
  then have dropped: "j \<in> set (drop n ?keys)" using j(3) unfolding height_range_def by blast
  then have "n < length ?keys" by (cases "n < length ?keys") (simp_all only: not_less drop_all list.set empty_iff)
  moreover have "\<forall>h \<in> set (take n ?keys). h < j"
    using sd dropped by (subst (asm) append_take_drop_id [of n, symmetric]) (simp only: sorted_wrt_append, blast)
  ultimately show "length (height_range t below n) = n \<and> (\<forall>h \<in> set (height_range t below n). h < j)"
    unfolding height_range_def by (simp only: length_take min_absorb2 less_imp_le simp_thms)
qed

lemma prune_batch_rows:
  assumes "prune_height_table_batch env retain name db = (Inr removed, db')"
  shows "removed = height_range (open_table name db) retain PRUNE_BATCH_LIMIT"
    and "db' = set_table name (foldl (\<lambda>t h. bt_remove h t) (open_table name db) removed) db"
proof -
  have same: "set_table name (open_table name db) db = db" by (cases name) simp_all
  let ?keys = "height_range (open_table name db) retain PRUNE_BATCH_LIMIT"
  have run: "(if ?keys = [] then (Inr ?keys, db)
      else write_tx env (\<lambda>db. Inr (?keys, set_table name (foldl (\<lambda>t h. bt_remove h t) (open_table name db) ?keys) db)) db)
      = (Inr removed, db')"
    using assms unfolding prune_height_table_batch_def by (auto elim!: and_then_eq_InrE simp: read_tx_def split: option.splits)
  show "removed = ?keys" and "db' = set_table name (foldl (\<lambda>t h. bt_remove h t) (open_table name db) removed) db"
  proof (atomize (full), cases "?keys = []")
    case True
    then show "removed = ?keys \<and> db' = set_table name (foldl (\<lambda>t h. bt_remove h t) (open_table name db) removed) db"
      using run same by simp
  next
    case False
    with run have "write_tx env (\<lambda>db. Inr (?keys, set_table name (foldl (\<lambda>t h. bt_remove h t) (open_table name db) ?keys) db)) db
        = (Inr removed, db')" by simp
    then show "removed = ?keys \<and> db' = set_table name (foldl (\<lambda>t h. bt_remove h t) (open_table name db) removed) db"
      by (cases rule: write_tx_cases) auto
  qed
qed

lemma below_amnesia: "h < height_saturating_sub tip RETH_AMNESIA_HEIGHT_COUNT \<Longrightarrow> unat h + 10000 < unat tip"
  by (simp add: word_less_nat_alt height_saturating_sub_def unat_saturating_sub RETH_AMNESIA_HEIGHT_COUNT_def)

text \<open>
  (C38) Pruning decided blocks removes exactly the heights it reports: at most 300, the lowest ones,
  and each more than 10,000 below the last certificate. Every other row of the table stays.
\<close>

theorem prune_blocks_bounded:
  assumes "store_inv codec db" and "prune_blocks env db = (Inr removed, db')"
  shows "length removed \<le> 300 \<and> distinct removed \<and> set removed \<subseteq> bt_keys (decided_blocks db)
    \<and> db' = db\<lparr>decided_blocks := filter (\<lambda>(h, _). h \<notin> set removed) (decided_blocks db)\<rparr>
    \<and> (\<forall>h \<in> set removed. \<exists>tip v. bt_last (certificates db) = Some (tip, v) \<and> unat h + 10000 < unat tip
         \<and> (\<forall>j \<in> bt_keys (decided_blocks db'). h < j))"
proof -
  let ?t = "decided_blocks db"
  let ?tip = "case bt_last (certificates db) of Some (tip, _) \<Rightarrow> tip | None \<Rightarrow> 0"
  let ?retain = "height_saturating_sub ?tip RETH_AMNESIA_HEIGHT_COUNT"
  have run: "prune_height_table_batch env ?retain DECIDED_BLOCKS_TABLE db = (Inr removed, db')"
    using assms(2)
    by (cases "re_begin_read env db"; cases "bt_last (certificates db)")
      (simp_all add: prune_blocks_def and_then_def max_height_def limit_height_def read_tx_def Let_def case_prod_beta)
  note rows = prune_batch_rows [OF run, unfolded open_table.simps set_table.simps foldl_bt_remove]
  note wf = store_inv_wf(2) [OF assms(1)]
  note range = sorted_height_range [OF wf, where below = ?retain and n = PRUNE_BATCH_LIMIT, folded rows(1)]
  have tip: "\<exists>tip v. bt_last (certificates db) = Some (tip, v) \<and> unat h + 10000 < unat tip" if "h \<in> set removed" for h
  proof -
    have "h < ?retain" using range(3) that by blast
    then have "unat h + 10000 < unat ?tip" by (rule below_amnesia)
    then show ?thesis by (cases "bt_last (certificates db)") auto
  qed
  have least: "h < j" if "h \<in> set removed" "j \<in> bt_keys (decided_blocks db')" for h j
  proof -
    have "j \<in> bt_keys ?t" "j \<notin> set removed" using that(2) rows(2) by (auto simp: bt_keys_def)
    moreover have "h < ?retain" using range(3) that(1) by blast
    ultimately show ?thesis using range(4) [of j] that(1) by (cases "j < ?retain") auto
  qed
  have "length removed \<le> 300" by (simp add: rows(1) height_range_def PRUNE_BATCH_LIMIT_def)
  moreover have "set removed \<subseteq> bt_keys ?t" using range(3) by blast
  moreover have "\<forall>h \<in> set removed. \<exists>tip v. bt_last (certificates db) = Some (tip, v) \<and> unat h + 10000 < unat tip
      \<and> (\<forall>j \<in> bt_keys (decided_blocks db'). h < j)"
    using tip least by blast
  ultimately show ?thesis using range(2) rows(2) by (intro conjI)
qed

text \<open>The window of heights a pending proposal may have.\<close>

definition in_window :: "height \<Rightarrow> nat \<Rightarrow> height \<Rightarrow> bool" where
  "in_window current limit h \<longleftrightarrow> unat current \<le> unat h \<and> unat h < unat current + limit"

lemma max_allowed_height_window:
  assumes "max_allowed_height limit current = Inr mx" and "limit < 2 ^ 64"
  shows "in_window current limit h \<longleftrightarrow> \<not> h < current \<and> h \<le> mx" and "h \<le> mx \<longleftrightarrow> unat h < unat current + limit"
proof -
  have "0 < limit" and "checked_add current (of_nat (limit - 1)) = Some mx"
    using assms(1) by (auto simp: max_allowed_height_def height_increment_by_def split: if_splits option.splits)
  moreover have "unat (of_nat (limit - 1) :: u64) = limit - 1"
    using assms(2) by (simp only: unat_of_nat) simp
  ultimately have "unat mx = unat current + limit - 1" and pos: "0 < limit"
    by (auto simp only: checked_add_iff)
  then show "h \<le> mx \<longleftrightarrow> unat h < unat current + limit" by (simp add: word_le_nat_alt) linarith
  then show "in_window current limit h \<longleftrightarrow> \<not> h < current \<and> h \<le> mx"
    by (simp add: in_window_def word_less_nat_alt not_less)
qed

lemma filter_rows_not_dropped:
  assumes "distinct (map fst m)"
  shows "filter (\<lambda>(k, _). k \<notin> set (drop n (map fst m))) m = take n m"
proof -
  have split: "filter (\<lambda>(k, _). k \<notin> fst ` set b) (a @ b) = a" if "distinct (map fst (a @ b))" for a b :: "('a \<times> 'b) list"
  proof -
    have "filter (\<lambda>(k, _). k \<notin> fst ` set b) a = a" using that by (intro filter_True) force
    moreover have "filter (\<lambda>(k, _). k \<notin> fst ` set b) b = []" by (force simp: filter_empty_conv)
    ultimately show ?thesis by simp
  qed
  show ?thesis
    using split [of "take n m" "drop n m"] assms by (simp add: drop_map)
qed

lemma drop_if_longer: "(if n < length xs then drop n xs else []) = drop n xs"
  by simp

lemma keys_to_remove_rows:
  assumes wf: "bt_wf t" and window: "\<And>h. P h \<longleftrightarrow> \<not> h < current \<and> h \<le> mx"
  shows "foldl (\<lambda>t k. bt_remove k t) t (keys_to_remove limit current mx t) = take limit (filter (\<lambda>(k, _). P (fst k)) t)"
proof -
  let ?w = "filter (\<lambda>(k, _). P (fst k)) t"
  have keys: "map fst ?w = filter (\<lambda>(height, _). \<not> height < current \<and> height \<le> mx) (map fst t)"
    by (auto simp: filter_map comp_def window intro!: arg_cong [where f = "map fst"] filter_cong)
  have "set (keys_to_remove limit current mx t) = {k \<in> set (map fst t). \<not> P (fst k)} \<union> set (drop limit (map fst ?w))"
    unfolding keys keys_to_remove_def Let_def drop_if_longer set_append by (auto simp: window)
  then have "k \<notin> set (keys_to_remove limit current mx t) \<longleftrightarrow> P (fst k) \<and> k \<notin> set (drop limit (map fst ?w))"
    if "(k, b) \<in> set t" for k b
    using that by force
  then have "filter (\<lambda>(k, _). k \<notin> set (keys_to_remove limit current mx t)) t
      = filter (\<lambda>(k, _). P (fst k) \<and> k \<notin> set (drop limit (map fst ?w))) t"
    by (intro filter_cong refl) (simp only: split_paired_all prod.case fst_conv)
  also have "\<dots> = filter (\<lambda>(k, _). k \<notin> set (drop limit (map fst ?w))) ?w"
    unfolding filter_filter by (intro filter_cong refl) (simp only: split_paired_all prod.case)
  also have "\<dots> = take limit ?w"
  proof (rule filter_rows_not_dropped)
    have "bt_wf ?w" using wf by (rule bt_wf_filter)
    then show "distinct (map fst ?w)" by (simp add: bt_wf_def strict_sorted_iff)
  qed
  finally show ?thesis by (simp only: foldl_bt_remove)
qed


section \<open>Range queries\<close>

definition range_items :: "(height \<Rightarrow> range_failure_reason + 'a) \<Rightarrow> height list \<Rightarrow> 'a list" where
  "range_items visit hs = List.map_filter (\<lambda>h. right_or_none (visit h)) hs"

definition range_failures :: "(height \<Rightarrow> range_failure_reason + 'a) \<Rightarrow> height list \<Rightarrow> (height \<times> range_failure_reason) list" where
  "range_failures visit hs = List.map_filter (\<lambda>h. case visit h of Inl e \<Rightarrow> Some (h, e) | Inr _ \<Rightarrow> None) hs"

lemma read_heights_eq:
  "read_heights visit hs items failures = (items @ range_items visit hs, failures @ range_failures visit hs)"
  by (induction hs arbitrary: items failures)
    (auto simp: range_items_def range_failures_def map_filter_simps right_or_none_def split: sum.splits)

lemma range_failures_Nil:
  "range_failures visit hs = [] \<Longrightarrow> map Inr (range_items visit hs) = map visit hs"
  by (induction hs) (auto simp: range_items_def range_failures_def map_filter_simps right_or_none_def split: sum.splits)

lemma range_failures_mem: "(h, e) \<in> set (range_failures visit hs) \<longleftrightarrow> h \<in> set hs \<and> visit h = Inl e"
  by (auto simp: range_failures_def map_filter_def split: sum.splits) force

lemma bt_first_min:
  assumes "bt_wf m" and "bt_first m = Some (k, v)" and "j \<in> bt_keys m"
  shows "k \<le> j"
  using assms by (cases m) (auto simp: bt_first_def bt_wf_def bt_keys_def)

lemma read_height_certificate:
  assumes inv: "store_inv codec db"
    and ends: "bt_first (certificates db) = Some (earliest, v)" "bt_last (certificates db) = Some (head, w)"
  shows "read_height earliest head (certificates db) (dec_certificate codec) (\<lambda>_. Inl RangeInternal) h = Inr c
    \<longleftrightarrow> certificate_at codec db h = Some c"
proof (cases "bt_get (certificates db) h")
  case None
  then show ?thesis by (simp add: read_height_def certificate_at_def)
next
  case (Some b)
  note wf = store_inv_wf(1) [OF inv]
  have "h \<in> bt_keys (certificates db)" using Some bt_get_None_iff [of "certificates db" h] by auto
  then have "earliest \<le> h" "h \<le> head" using bt_first_min [OF wf ends(1)] bt_last_max(2) [OF wf ends(2)] by blast+
  then show ?thesis
    using Some by (auto simp: read_height_def certificate_at_def right_or_none_def split: sum.splits)
qed

lemma height_interval_nth:
  assumes "checked_sub count 1 = Some d" and "checked_add from d = Some to"
  shows "length (height_interval from to) = unat count"
    and "i < unat count \<Longrightarrow> height_interval from to ! i = from + of_nat i"
  using assms by (auto simp: height_interval_def checked_add_iff checked_sub_iff simp del: upt_Suc)

text \<open>
  A query for a range of certificates never skips a gap: it is complete exactly when every
  height of the range has a certificate, and then it has one item per height, in order. Otherwise
  it names heights of the range without a certificate.
\<close>

theorem certificate_range_complete:
  assumes inv: "store_inv codec db" and ok: "re_begin_read env db = None"
    and range: "checked_sub count 1 = Some d" "checked_add from d = Some to" and rows: "certificates db \<noteq> []"
  shows "\<exists>r. get_certificate_range env codec from count db = Inr (Some r) \<and>
    (case r of
       Complete items \<Rightarrow> length items = unat count
         \<and> (\<forall>i < unat count. certificate_at codec db (from + of_nat i) = Some (items ! i))
     | Unavailable reason hs \<Rightarrow> hs \<noteq> []
         \<and> (\<forall>h \<in> set hs. from \<le> h \<and> h \<le> to \<and> certificate_at codec db h = None))"
proof -
  obtain earliest v head w where ends: "bt_first (certificates db) = Some (earliest, v)"
      "bt_last (certificates db) = Some (head, w)"
    using rows by (cases "certificates db"; cases "last (certificates db)") (auto simp: bt_first_def bt_last_def)
  let ?visit = "read_height earliest head (certificates db) (dec_certificate codec) (\<lambda>_. Inl RangeInternal)"
  let ?hs = "height_interval from to" and ?fails = "range_failures
    (read_height earliest head (certificates db) (dec_certificate codec) (\<lambda>_. Inl RangeInternal)) (height_interval from to)"
  have run: "get_certificate_range env codec from count db = Inr (Some (case ?fails of
      [] \<Rightarrow> Complete (range_items ?visit ?hs)
    | (_, reason) # _ \<Rightarrow> Unavailable reason (map fst (filter (\<lambda>(_, r). r = reason) ?fails))))"
    using range ok ends by (simp add: get_certificate_range_def read_height_range_def read_tx_def read_heights_eq)
  show ?thesis
  proof (cases ?fails)
    case Nil
    note eq = range_failures_Nil [OF Nil]
    have len: "length (range_items ?visit ?hs) = unat count"
      using arg_cong [OF eq, of length] height_interval_nth(1) [OF range] by simp
    moreover have "certificate_at codec db (from + of_nat i) = Some (range_items ?visit ?hs ! i)" if "i < unat count" for i
    proof -
      have "?visit (?hs ! i) = Inr (range_items ?visit ?hs ! i)"
        using arg_cong [OF eq, of "\<lambda>xs. xs ! i"] that len height_interval_nth(1) [OF range] by simp
      then show ?thesis
        using read_height_certificate [OF inv ends] height_interval_nth(2) [OF range that] by simp
    qed
    ultimately show ?thesis using run Nil by simp
  next
    case (Cons f fs)
    obtain h0 reason where f: "f = (h0, reason)" by (cases f)
    have "from \<le> h \<and> h \<le> to \<and> certificate_at codec db h = None" if "(h, e) \<in> set ?fails" for h e
    proof -
      have "h \<in> set ?hs" "?visit h = Inl e" using that by (simp_all add: range_failures_mem)
      moreover have "from \<le> h \<and> h \<le> to" if "h \<in> set ?hs"
        using that unat_lt2p [of to] by (auto simp: height_interval_def word_le_nat_alt unat_of_nat simp del: upt_Suc)
      ultimately show ?thesis
        using read_height_certificate [OF inv ends, of h] by (cases "certificate_at codec db h") auto
    qed
    then have "\<forall>h \<in> set (map fst (filter (\<lambda>(_, r). r = reason) ?fails)). from \<le> h \<and> h \<le> to \<and> certificate_at codec db h = None"
      by fastforce
    moreover have "map fst (filter (\<lambda>(_, r). r = reason) ?fails) \<noteq> []" by (simp add: Cons f)
    ultimately show ?thesis using run by (simp add: Cons f)
  qed
qed

end
