(* ===== verification/Store_Instance.thy ===== *)
theory Store_Instance
  imports Store_Safety
begin

text \<open>
  A database to run: a codec whose payloads and blocks are laid out field by field, and which
  knows the few other records that occur, on tables whose transactions always succeed.
\<close>

section \<open>A codec\<close>

definition put_payload :: "exec_payload \<Rightarrow> bytes" where
  "put_payload p = to_be_bytes 8 (pl_block_number p) @ to_be_bytes 32 (pl_parent_hash p) @ to_be_bytes 32 (pl_block_hash p)
     @ to_be_bytes 8 (pl_timestamp p) @ pl_rest p"

definition take_payload :: "bytes \<Rightarrow> exec_payload" where
  "take_payload b =
     \<lparr>pl_block_number = from_be_bytes (take 8 b), pl_parent_hash = from_be_bytes (take 32 (drop 8 b)),
      pl_block_hash = from_be_bytes (take 32 (drop 40 b)), pl_timestamp = from_be_bytes (take 8 (drop 72 b)),
      pl_rest = drop 80 b\<rparr>"

lemma take_put_payload: "take_payload (put_payload p) = p"
  by (simp add: take_payload_def put_payload_def from_to_be_bytes)

fun put_round :: "round \<Rightarrow> bytes" where
  "put_round RoundNil = 0 # to_be_bytes 4 (0 :: u32)"
| "put_round (Round r) = 1 # to_be_bytes 4 r"

definition take_round :: "bytes \<Rightarrow> round" where
  "take_round b = (if hd b = 0 then RoundNil else Round (from_be_bytes (take 4 (tl b))))"

lemma length_put_round [simp]: "length (put_round r) = 5"
  by (cases r) simp_all

lemma take_put_round: "take_round (put_round r @ b) = r"
  by (cases r) (simp_all add: take_round_def from_to_be_bytes)

definition put_block :: "unit consensus_block \<Rightarrow> bytes" where
  "put_block k = to_be_bytes 8 (cb_height k) @ put_round (cb_round k) @ put_round (cb_valid_round k)
     @ to_be_bytes 20 (cb_proposer k) @ (if is_valid (cb_validity k) then 1 else 0)
     # (if cb_signature k = None then 0 else 1) # put_payload (cb_payload k)"

definition take_block :: "bytes \<Rightarrow> unit consensus_block" where
  "take_block b =
     \<lparr>cb_height = from_be_bytes (take 8 b), cb_round = take_round (drop 8 b), cb_valid_round = take_round (drop 13 b),
      cb_proposer = from_be_bytes (take 20 (drop 18 b)), cb_validity = (if b ! 38 = 1 then Valid else Invalid),
      cb_payload = take_payload (drop 40 b), cb_signature = (if b ! 39 = 0 then None else Some ())\<rparr>"

lemma take_put_block: "take_block (put_block k) = k"
proof -
  have "cb_validity k = (if is_valid (cb_validity k) then Valid else Invalid)"
    by (cases "cb_validity k") (simp_all add: is_valid_def)
  moreover have "cb_signature k = (if cb_signature k = None then None else Some ())" by auto
  ultimately show ?thesis
    by (cases k) (auto simp: take_block_def put_block_def from_to_be_bytes take_put_round take_put_payload nth_append
        take_put_round [of _ "[]", simplified] split: if_splits)
qed
definition ex_payload :: exec_payload where
  "ex_payload = \<lparr>pl_block_number = 5, pl_parent_hash = 4, pl_block_hash = 9, pl_timestamp = 100, pl_rest = []\<rparr>"

definition ex_certificate :: "(address \<times> unit) list \<Rightarrow> unit commit_certificate" where
  "ex_certificate sigs = \<lparr>cc_height = 5, cc_round = Round 0, cc_value_id = 9, cc_commit_signatures = sigs\<rparr>"

definition ex_minimal :: "unit stored_commit_certificate" where
  "ex_minimal = \<lparr>scc_certificate = ex_certificate [(1, ())], scc_certificate_type = CertMinimal, scc_proposer = Some 1\<rparr>"

definition ex_extended :: "unit stored_commit_certificate" where
  "ex_extended = \<lparr>scc_certificate = ex_certificate [(1, ()), (2, ())], scc_certificate_type = CertExtended, scc_proposer = Some 1\<rparr>"

definition ex_late :: "unit stored_commit_certificate" where
  "ex_late = \<lparr>scc_certificate = (ex_certificate [])\<lparr>cc_height := 20005\<rparr>, scc_certificate_type = CertMinimal, scc_proposer = Some 1\<rparr>"

definition ex_parts :: "unit proposal_parts" where
  "ex_parts = \<lparr>pp_init = \<lparr>pi_height = 6, pi_round = Round 0, pi_pol_round = RoundNil, pi_proposer = 1\<rparr>, pp_data = [], pp_fin = ()\<rparr>"

definition ex_codec :: "(unit, unit) store_codec" where
  "ex_codec =
     \<lparr>enc_payload = put_payload, dec_payload = Inr \<circ> take_payload,
      enc_certificate = (\<lambda>c. if c = ex_minimal then Inr [1] else if c = ex_extended then Inr [2]
        else if c = ex_late then Inr [3] else Inl ''encode''),
      dec_certificate = (\<lambda>b. if b = [1] then Inr ex_minimal else if b = [2] then Inr ex_extended
        else if b = [3] then Inr ex_late else Inl ''decode''),
      enc_evidence = (\<lambda>e. Inl ''encode''), dec_evidence = (\<lambda>b. Inl ''decode''),
      enc_monitor = (\<lambda>m. Inl ''encode''), dec_monitor = (\<lambda>b. Inl ''decode''),
      enc_invalid = (\<lambda>i. if i = empty_payloads 5 then Inr [1] else Inl ''encode''),
      dec_invalid = (\<lambda>b. if b = [1] then Inr (empty_payloads 5) else Inl ''decode''),
      enc_block = put_block, dec_block = Inr \<circ> take_block,
      enc_parts = (\<lambda>p. if p = ex_parts then Inr [1] else Inl ''encode''),
      dec_parts = (\<lambda>b. if b = [1] then Inr ex_parts else Inl ''decode''),
      codec_keccak256 = (\<lambda>b. [of_nat (length b)]), codec_sig_to_bytes = (\<lambda>_. [])\<rparr>"

lemma ex_codec_laws: "store_codec_laws ex_codec"
  by (auto simp: store_codec_laws_def ex_codec_def take_put_payload take_put_block split: if_splits)

definition ok_env :: redb_env where
  "ok_env = \<lparr>re_begin_read = (\<lambda>_. None), re_begin_write = (\<lambda>_. None), re_commit = (\<lambda>_. None)\<rparr>"

lemma ok_env_simps [simp]:
  "re_begin_read ok_env db = None" "re_begin_write ok_env db = None" "re_commit ok_env db = None"
  by (simp_all add: ok_env_def)

definition ex_db :: tables where
  "ex_db = empty_tables\<lparr>certificates := [(5, [1])], decided_blocks := [(5, put_payload ex_payload)]\<rparr>"

lemma ex_db_stored:
  "store_decided_block ok_env ex_codec (ex_certificate [(1, ())]) ex_payload 1 empty_tables = (Inr (), ex_db)"
  by (simp add: store_decided_block_def decided_block_new_def insert_decided_block_def insert_certificate_def write_tx_def
      ex_codec_def ex_minimal_def ex_certificate_def ex_payload_def ex_db_def empty_tables_def  Let_def)

lemma ex_db_inv: "store_inv ex_codec ex_db"
  using store_step_inv [OF ex_codec_laws store_inv_empty, of ok_env "StoreDecided (ex_certificate [(1, ())]) ex_payload 1"]
  by (simp add: ex_db_stored)

lemma ex_db_certificate: "certificate_at ex_codec ex_db 5 = Some ex_minimal"
  by (simp add: certificate_at_def ex_db_def ex_codec_def right_or_none_def bt_get_def)

definition late_db :: tables where
  "late_db = ex_db\<lparr>certificates := [(5, [1]), (20005, [3])],
     decided_blocks := [(5, put_payload ex_payload), (20005, put_payload ex_payload)]\<rparr>"

lemma late_db_inv: "store_inv ex_codec late_db"
proof -
  have "store_decided_block ok_env ex_codec ((ex_certificate [])\<lparr>cc_height := 20005\<rparr>) ex_payload 1 ex_db = (Inr (), late_db)"
    by (simp add: store_decided_block_def decided_block_new_def insert_decided_block_def insert_certificate_def write_tx_def
        ex_codec_def ex_minimal_def ex_extended_def ex_late_def ex_certificate_def ex_payload_def ex_db_def late_db_def
        empty_tables_def Let_def)
  then show ?thesis
    using store_step_inv [OF ex_codec_laws ex_db_inv, of ok_env
        "StoreDecided ((ex_certificate [])\<lparr>cc_height := 20005\<rparr>) ex_payload 1"] by simp
qed

section \<open>The properties at work\<close>




theorem rollback_exact_witness:
  "\<exists>r final. rollback_to_height ok_env 4 1000 False ex_db = Some (r, final) \<and> kept_upto 4 ex_db final
     \<and> (\<forall>report. r = Inr report \<longrightarrow> rollback_done 4 ex_db final report)"
  using rollback_exact [OF ex_db_inv, of ok_env 4 1000 False] by auto

theorem prune_blocks_bounded_witness:
  "\<exists>db'. prune_blocks ok_env late_db = (Inr [5], db')
     \<and> db' = late_db\<lparr>decided_blocks := filter (\<lambda>(h, _). h \<notin> {5}) (decided_blocks late_db)\<rparr>"
proof -
  have "\<exists>db'. prune_blocks ok_env late_db = (Inr [5], db')"
    by (simp add: prune_blocks_def prune_height_table_batch_def and_then_def max_height_def limit_height_def read_tx_def
        write_tx_def late_db_def ex_db_def empty_tables_def bt_last_def Let_def height_range_def height_saturating_sub_def
        saturating_sub_def RETH_AMNESIA_HEIGHT_COUNT_def PRUNE_BATCH_LIMIT_def)
  then obtain db' where run: "prune_blocks ok_env late_db = (Inr [5], db')" ..
  then show ?thesis using prune_blocks_bounded [OF late_db_inv run] by simp
qed


theorem certificate_range_complete_witness:
  "\<exists>r. get_certificate_range ok_env ex_codec 5 2 ex_db = Inr (Some r) \<and>
    (case r of Complete items \<Rightarrow> length items = 2 | Unavailable reason hs \<Rightarrow> hs \<noteq> [] \<and> (\<forall>h \<in> set hs. 5 \<le> h \<and> h \<le> 6))"
proof -
  have "certificates ex_db \<noteq> []" by (simp add: ex_db_def)
  moreover have "checked_sub (2 :: u64) 1 = Some 1" "checked_add (5 :: u64) 1 = Some 6"
    by (simp_all add: checked_sub_def checked_add_def)
  ultimately show ?thesis
    using certificate_range_complete [OF ex_db_inv, of ok_env 2 1 5 6] by (auto split: range_query_result.splits)
qed

end
