(* ===== verification/Engine_Api.thy ===== *)
theory Engine_Api
  imports Consensus_Store
begin

text \<open>
  The node's view of the execution client: the sequences of Engine API calls of
  \<open>eth-engine/src/engine.rs\<close> and the classification of their errors in \<open>rpc/errors.rs\<close>. The
  remote calls are the record \<open>engine_api\<close>; a call may change the state of the outside world
  and fail. Per-call timeouts only bound how long a call may take and are not modelled.
\<close>

section \<open>Errors\<close>

record engine_api_rpc_error =
  are_code :: int
  are_message :: string
  are_data :: "string option"

datatype engine_rpc_error_kind = KindInternal | KindUnknownPayload | KindUnsupportedFork | KindOther

definition INTERNAL_ERROR_CODE :: int where
  "INTERNAL_ERROR_CODE = - 32603"

definition UNKNOWN_PAYLOAD_CODE :: int where
  "UNKNOWN_PAYLOAD_CODE = - 38001"

definition UNSUPPORTED_FORK_CODE :: int where
  "UNSUPPORTED_FORK_CODE = - 38005"

definition rpc_error_kind :: "engine_api_rpc_error \<Rightarrow> engine_rpc_error_kind" where
  "rpc_error_kind e =
     (if are_code e = INTERNAL_ERROR_CODE then KindInternal
      else if are_code e = UNKNOWN_PAYLOAD_CODE then KindUnknownPayload
      else if are_code e = UNSUPPORTED_FORK_CODE then KindUnsupportedFork
      else KindOther)"

definition is_unknown_payload :: "engine_api_rpc_error \<Rightarrow> bool" where
  "is_unknown_payload e \<longleftrightarrow> rpc_error_kind e = KindUnknownPayload"

definition is_unsupported_fork :: "engine_api_rpc_error \<Rightarrow> bool" where
  "is_unsupported_fork e \<longleftrightarrow> rpc_error_kind e = KindUnsupportedFork"

definition is_internal_error :: "engine_api_rpc_error \<Rightarrow> bool" where
  "is_internal_error e \<longleftrightarrow> rpc_error_kind e = KindInternal"

text \<open>
  An error report: the Engine API error found in its chain of causes, if any, or the request to
  halt and wait. Wrapping a report with context keeps both. A panic is a report of its own kind:
  no handler turns it into a value.
\<close>

datatype report =
    Report "engine_api_rpc_error option" string
  | HaltAndWait string
  | Panicked string

abbreviation eyre :: "string \<Rightarrow> report" where
  "eyre \<equiv> Report None"

fun rpc_error_of :: "report \<Rightarrow> engine_api_rpc_error option" where
  "rpc_error_of (Report e _) = e"
| "rpc_error_of _ = None"

section \<open>Calls\<close>

record execution_block =
  eb_block_hash :: block_hash
  eb_block_number :: u64
  eb_parent_hash :: block_hash
  eb_timestamp :: u64

datatype payload_status_enum = PsValid | PsInvalid string | PsSyncing | PsAccepted

record payload_status =
  ps_status :: payload_status_enum
  ps_latest_valid_hash :: "block_hash option"

record forkchoice_updated =
  fu_payload_status :: payload_status
  fu_payload_id :: "u64 option"

record payload_attributes =
  pa_timestamp :: u64
  pa_prev_randao :: u256
  pa_suggested_fee_recipient :: address
  pa_withdrawals :: "unit list option"
  pa_parent_beacon_block_root :: "block_hash option"

text \<open>\<open>'w\<close> is the outside world, \<open>'pk\<close> the public keys and \<open>'cp\<close> the consensus parameters.\<close>

record ('w, 'pk, 'cp) engine_api =
  api_forkchoice_updated :: "block_hash \<Rightarrow> payload_attributes option \<Rightarrow> 'w \<Rightarrow> (report + forkchoice_updated) \<times> 'w"
  api_get_payload :: "u64 \<Rightarrow> bool \<Rightarrow> 'w \<Rightarrow> (report + exec_payload) \<times> 'w"
  api_new_payload :: "exec_payload \<Rightarrow> block_hash list \<Rightarrow> block_hash \<Rightarrow> 'w \<Rightarrow> (report + payload_status) \<times> 'w"
  api_is_osaka_active :: "(u64 \<Rightarrow> bool) option"
  api_timestamp_now :: "'w \<Rightarrow> u64 \<times> 'w"
  eth_signing_validator_set :: "u64 \<Rightarrow> 'w \<Rightarrow> (report + 'pk validator list) \<times> 'w"
  eth_consensus_params :: "u64 \<Rightarrow> 'w \<Rightarrow> (report + 'cp) \<times> 'w"
  eth_earliest_block :: "'w \<Rightarrow> (report + execution_block option) \<times> 'w"
  eth_execution_payloads :: "u64 list \<Rightarrow> 'w \<Rightarrow> (report + exec_payload option list) \<times> 'w"
  wait_for_persisted_block :: "u64 \<Rightarrow> 'w \<Rightarrow> (report + unit) \<times> 'w"

definition use_v5 :: "('w, 'pk, 'cp) engine_api \<Rightarrow> u64 \<Rightarrow> bool" where
  "use_v5 api timestamp = (case api_is_osaka_active api of Some f \<Rightarrow> f timestamp | None \<Rightarrow> False)"

definition set_latest_forkchoice_state ::
  "('w, 'pk, 'cp) engine_api \<Rightarrow> block_hash \<Rightarrow> 'w \<Rightarrow> (report + block_hash) \<times> 'w" where
  "set_latest_forkchoice_state api head_block_hash w =
     and_then (api_forkchoice_updated api head_block_hash None w) (\<lambda>updated w.
       let status = fu_payload_status updated in
       (case (ps_status status, fu_payload_id updated) of
          (PsValid, Some payload_id) \<Rightarrow> Inl (eyre ''payload ID should be None'')
        | (PsValid, None) \<Rightarrow>
            (case ps_latest_valid_hash status of
               Some h \<Rightarrow> Inr h
             | None \<Rightarrow> Inl (eyre ''Valid status must have latest_valid_hash''))
        | (PsSyncing, _) \<Rightarrow>
            if ps_latest_valid_hash status = None
            then Inl (eyre ''headBlockHash references an unknown payload'')
            else Inl (eyre ''Invalid payload status'')
        | _ \<Rightarrow> Inl (eyre ''Invalid payload status''), w))"

definition generate_block ::
  "('w, 'pk, 'cp) engine_api \<Rightarrow> execution_block \<Rightarrow> u64 \<Rightarrow> address \<Rightarrow> 'w \<Rightarrow> (report + exec_payload) \<times> 'w" where
  "generate_block api latest_block timestamp suggested_fee_recipient w =
     (let block_hash = eb_block_hash latest_block;
          attributes = \<lparr>pa_timestamp = timestamp, pa_prev_randao = 0,
            pa_suggested_fee_recipient = suggested_fee_recipient, pa_withdrawals = Some [],
            pa_parent_beacon_block_root = Some block_hash\<rparr>
      in and_then (api_forkchoice_updated api block_hash (Some attributes) w) (\<lambda>updated w.
           let status = fu_payload_status updated in
           case ps_status status of
             PsValid \<Rightarrow>
               (case fu_payload_id updated of
                  None \<Rightarrow> (Inl (eyre ''payload ID must be Some''), w)
                | Some payload_id \<Rightarrow>
                    if ps_latest_valid_hash status \<noteq> Some block_hash
                    then (Inl (eyre ''latest_valid_hash must be the parent block hash''), w)
                    else api_get_payload api payload_id (use_v5 api timestamp) w)
           | PsSyncing \<Rightarrow>
               (Inl (eyre (if ps_latest_valid_hash status = None
                           then ''headBlockHash references an unknown payload''
                           else ''Invalid payload status'')), w)
           | _ \<Rightarrow> (Inl (eyre ''Invalid payload status''), w)))"

definition notify_new_block ::
  "('w, 'pk, 'cp) engine_api \<Rightarrow> exec_payload \<Rightarrow> block_hash list \<Rightarrow> 'w \<Rightarrow> (report + payload_status) \<times> 'w" where
  "notify_new_block api execution_payload versioned_hashes =
     api_new_payload api execution_payload versioned_hashes (pl_parent_hash execution_payload)"

text \<open>A forkchoice update reports a head only when the client said \<open>VALID\<close> and built nothing.\<close>

lemma set_latest_forkchoice_state_Inr:
  "set_latest_forkchoice_state api h w = (Inr latest, w') \<longleftrightarrow>
     (\<exists>u. api_forkchoice_updated api h None w = (Inr u, w') \<and> ps_status (fu_payload_status u) = PsValid
        \<and> fu_payload_id u = None \<and> ps_latest_valid_hash (fu_payload_status u) = Some latest)"
  by (auto simp: set_latest_forkchoice_state_def and_then_def Let_def
      split: sum.splits prod.splits payload_status_enum.splits option.splits if_splits)

end
