(* ===== verification/Payload_Validity.thy ===== *)
theory Payload_Validity
  imports Engine_Api Part_Streams
begin

text \<open>
  The verdict on a block that came from the network: the binding rules, the execution client's
  answer and the record of a rejected payload (\<open>malachite-app/src/payload.rs\<close>), and the vote
  the clock-skew gate allows (\<open>handlers/skew_gate.rs\<close>).
\<close>

section \<open>The environment of the handlers\<close>

text \<open>
  What the application calls and does not define: the database and its codec, the execution
  client, the signing provider, SSZ, the block hash, and the texts of errors. Metrics and logs
  are not modelled.
\<close>

record ('w, 'pk, 'cp, 'sig, 'ev, 'p, 'l) node_env =
  ne_redb :: redb_env
  ne_codec :: "('sig, 'ev) store_codec"
  ne_engine :: "('w, 'pk, 'cp) engine_api"
  ne_verify :: "bytes \<Rightarrow> 'sig \<Rightarrow> 'pk \<Rightarrow> string + verification_result"
  ne_sign :: "bytes \<Rightarrow> string + 'sig"
  ne_ssz :: "exec_payload \<Rightarrow> bytes"
  ne_unssz :: "bytes \<Rightarrow> string + exec_payload"
  ne_hash_of :: "exec_payload \<Rightarrow> string + block_hash"
  ne_api_text :: "engine_api_rpc_error \<Rightarrow> string"
  ne_binding_text :: "u64 \<times> u64 + block_hash \<times> block_hash \<Rightarrow> string"
  ne_round_from :: "int \<Rightarrow> round"
  ne_lru :: "('p \<times> bytes, 'l) lru_ops"
  ne_network_id :: "height \<Rightarrow> bytes"

text \<open>The system a handler acts on: the database and the outside world.\<close>

type_synonym 'w sys = "tables \<times> 'w"

definition on_db :: "(tables \<Rightarrow> (store_error + 'a) \<times> tables) \<Rightarrow> 'w sys \<Rightarrow> (report + 'a) \<times> 'w sys" where
  "on_db f s =
     (let (r, db) = f (fst s)
      in (case r of Inr a \<Rightarrow> Inr a
          | Inl (StorePanic m) \<Rightarrow> Inl (Panicked m)
          | Inl e \<Rightarrow> Inl (eyre ''store''), (db, snd s)))"

definition read_db :: "(tables \<Rightarrow> store_error + 'a) \<Rightarrow> 'w sys \<Rightarrow> (report + 'a) \<times> 'w sys" where
  "read_db f = on_db (\<lambda>db. (f db, db))"

definition on_world :: "('w \<Rightarrow> (report + 'a) \<times> 'w) \<Rightarrow> 'w sys \<Rightarrow> (report + 'a) \<times> 'w sys" where
  "on_world f s = (let (r, w) = f (snd s) in (r, (fst s, w)))"

section \<open>Asking the execution client\<close>

datatype payload_validation_result = PayloadValid | PayloadInvalid string

definition validate_payload ::
  "('w, 'pk, 'cp, 'sig, 'ev, 'p, 'l) node_env \<Rightarrow> exec_payload \<Rightarrow> 'w \<Rightarrow> (report + payload_validation_result) \<times> 'w" where
  "validate_payload env execution_payload w =
     (case notify_new_block (ne_engine env) execution_payload [] w of
        (Inr status, w) \<Rightarrow>
          (case ps_status status of
             PsValid \<Rightarrow> Inr PayloadValid
           | PsInvalid validation_error \<Rightarrow> Inr (PayloadInvalid validation_error)
           | _ \<Rightarrow> Inl (eyre ''unexpected status from engine''), w)
      | (Inl e, w) \<Rightarrow>
          (case rpc_error_of e of
             Some engine_api_error \<Rightarrow>
               if \<not> is_internal_error engine_api_error
               then (Inr (PayloadInvalid (ne_api_text env engine_api_error)), w)
               else (Inl e, w)
           | None \<Rightarrow> (Inl e, w)))"

text \<open>Recording a rejected payload is best effort: a failure leaves the database as it was.\<close>

definition persist_invalid_payload_best_effort ::
  "('w, 'pk, 'cp, 'sig, 'ev, 'p, 'l) node_env \<Rightarrow> invalid_payload \<Rightarrow> 'w sys \<Rightarrow> 'w sys" where
  "persist_invalid_payload_best_effort env invalid s =
     (snd (append_invalid_payload (ne_redb env) (ne_codec env) invalid (fst s)), snd s)"

definition validate_consensus_block ::
  "('w, 'pk, 'cp, 'sig, 'ev, 'p, 'l) node_env \<Rightarrow> 'sig consensus_block \<Rightarrow> 'w sys \<Rightarrow> (report + validity) \<times> 'w sys" where
  "validate_consensus_block env block s =
     and_then (on_world (validate_payload env (cb_payload block)) s) (\<lambda>result s.
       case result of
         PayloadValid \<Rightarrow> (Inr Valid, s)
       | PayloadInvalid reason \<Rightarrow>
           (Inr Invalid, persist_invalid_payload_best_effort env (new_from_block block reason) s))"

section \<open>Binding a payload to its place in the chain\<close>

datatype payload_binding_error =
    HeightMismatch u64 u64
  | ParentMismatch block_hash block_hash

datatype invalid_payload_source = PayloadHeight | PayloadParent

fun binding_error_source :: "payload_binding_error \<Rightarrow> invalid_payload_source" where
  "binding_error_source (HeightMismatch _ _) = PayloadHeight"
| "binding_error_source (ParentMismatch _ _) = PayloadParent"

fun binding_error_args :: "payload_binding_error \<Rightarrow> u64 \<times> u64 + block_hash \<times> block_hash" where
  "binding_error_args (HeightMismatch expected actual) = Inl (expected, actual)"
| "binding_error_args (ParentMismatch expected actual) = Inr (expected, actual)"

definition check_payload_binding ::
  "exec_payload \<Rightarrow> height \<Rightarrow> execution_block option \<Rightarrow> payload_binding_error + unit" where
  "check_payload_binding payload height previous_block =
     (if pl_block_number payload \<noteq> height then Inl (HeightMismatch height (pl_block_number payload))
      else case previous_block of
        None \<Rightarrow> Inr ()
      | Some previous \<Rightarrow>
          if checked_add (eb_block_number previous) 1 \<noteq> Some height then Inr ()
          else if pl_parent_hash payload \<noteq> eb_block_hash previous
          then Inl (ParentMismatch (eb_block_hash previous) (pl_parent_hash payload))
          else Inr ())"

datatype block_verdict = Unbound payload_binding_error | EngineVerdict validity

fun verdict_validity :: "block_verdict \<Rightarrow> validity" where
  "verdict_validity (Unbound _) = Invalid"
| "verdict_validity (EngineVerdict validity) = validity"

definition establish_block_validity ::
  "('w, 'pk, 'cp, 'sig, 'ev, 'p, 'l) node_env \<Rightarrow> 'sig consensus_block \<Rightarrow> execution_block option \<Rightarrow> 'w sys
     \<Rightarrow> (report + block_verdict) \<times> 'w sys" where
  "establish_block_validity env block previous_block s =
     (case check_payload_binding (cb_payload block) (cb_height block) previous_block of
        Inl error \<Rightarrow>
          (Inr (Unbound error),
           persist_invalid_payload_best_effort env
             (new_from_block block (ne_binding_text env (binding_error_args error))) s)
      | Inr _ \<Rightarrow>
          and_then (validate_consensus_block env block s) (\<lambda>validity s. (Inr (EngineVerdict validity), s)))"

section \<open>Building a payload\<close>

definition MAX_RETRIES :: nat where
  "MAX_RETRIES = 5"

text \<open>A build on the parent with a timestamp that never goes back, repeated when the client forgot it.\<close>

definition generate_once ::
  "('w, 'pk, 'cp, 'sig, 'ev, 'p, 'l) node_env \<Rightarrow> execution_block \<Rightarrow> address \<Rightarrow> 'w \<Rightarrow> (report + exec_payload) \<times> 'w" where
  "generate_once env previous_block fee_recipient w =
     (let (now, w) = api_timestamp_now (ne_engine env) w
      in generate_block (ne_engine env) previous_block (max (eb_timestamp previous_block) now) fee_recipient w)"

fun generate_with_retries ::
  "nat \<Rightarrow> ('w, 'pk, 'cp, 'sig, 'ev, 'p, 'l) node_env \<Rightarrow> execution_block \<Rightarrow> address \<Rightarrow> 'w
     \<Rightarrow> (report + exec_payload) \<times> 'w" where
  "generate_with_retries n env previous_block fee_recipient w =
     (case generate_once env previous_block fee_recipient w of
        (Inr payload, w) \<Rightarrow> (Inr payload, w)
      | (Inl e, w) \<Rightarrow>
          (case (n, rpc_error_of e) of
             (Suc n, Some err) \<Rightarrow>
               if is_unknown_payload err then generate_with_retries n env previous_block fee_recipient w else (Inl e, w)
           | _ \<Rightarrow> (Inl e, w)))"

declare generate_with_retries.simps [simp del]

definition generate_payload_with_retry ::
  "('w, 'pk, 'cp, 'sig, 'ev, 'p, 'l) node_env \<Rightarrow> execution_block \<Rightarrow> address \<Rightarrow> 'w \<Rightarrow> (report + exec_payload) \<times> 'w" where
  "generate_payload_with_retry = generate_with_retries MAX_RETRIES"

section \<open>The clock-skew gate\<close>

definition ARC_PROPOSER_CLOCK_SKEW_THRESHOLD_SECS :: u64 where
  "ARC_PROPOSER_CLOCK_SKEW_THRESHOLD_SECS = 30"

definition header_timestamp_exceeds_skew :: "u64 \<Rightarrow> u64 \<Rightarrow> bool" where
  "header_timestamp_exceeds_skew header_timestamp local_time \<longleftrightarrow>
     saturating_add local_time ARC_PROPOSER_CLOCK_SKEW_THRESHOLD_SECS < header_timestamp"

definition skew_apply :: "validity \<Rightarrow> u64 \<Rightarrow> u64 \<Rightarrow> validity" where
  "skew_apply execution_validity header_timestamp local_time =
     (if is_valid execution_validity \<and> header_timestamp_exceeds_skew header_timestamp local_time
      then Invalid else execution_validity)"

definition validity_for :: "'sig consensus_block \<Rightarrow> u64 option \<Rightarrow> validity" where
  "validity_for block local_time =
     (case local_time of
        None \<Rightarrow> cb_validity block
      | Some now \<Rightarrow> skew_apply (cb_validity block) (pl_timestamp (cb_payload block)) now)"

section \<open>Facts\<close>

text \<open>A bound payload carries its height and, above a known predecessor, extends it.\<close>

lemma check_payload_binding_Inr:
  "check_payload_binding p h prev = Inr () \<longleftrightarrow>
     pl_block_number p = h
     \<and> (\<forall>b. prev = Some b \<and> checked_add (eb_block_number b) 1 = Some h \<longrightarrow> pl_parent_hash p = eb_block_hash b)"
  by (auto simp: check_payload_binding_def split: option.splits)

lemma validity_for_Valid:
  "validity_for block t = Valid \<longleftrightarrow>
     cb_validity block = Valid
     \<and> (\<forall>now. t = Some now \<longrightarrow> unat (pl_timestamp (cb_payload block)) \<le> min (unat now + 30) (2 ^ 64 - 1))"
proof -
  have "\<not> header_timestamp_exceeds_skew ts now \<longleftrightarrow> unat ts \<le> min (unat now + 30) (2 ^ 64 - 1)" for ts now
    by (simp add: header_timestamp_exceeds_skew_def word_less_nat_alt unat_saturating_add
        ARC_PROPOSER_CLOCK_SKEW_THRESHOLD_SECS_def not_less)
  then show ?thesis
    by (auto simp: validity_for_def skew_apply_def is_valid_def split: option.splits)
qed

text \<open>The engine's word, when it gave one.\<close>

definition engine_accepts ::
  "('w, 'pk, 'cp, 'sig, 'ev, 'p, 'l) node_env \<Rightarrow> exec_payload \<Rightarrow> 'w \<Rightarrow> bool" where
  "engine_accepts env p w \<longleftrightarrow>
     (\<exists>status w'. api_new_payload (ne_engine env) p [] (pl_parent_hash p) w = (Inr status, w') \<and> ps_status status = PsValid)"

lemma validate_payload_Valid:
  "validate_payload env p w = (Inr PayloadValid, w') \<Longrightarrow> engine_accepts env p w"
  by (auto simp: validate_payload_def engine_accepts_def notify_new_block_def
      split: prod.splits sum.splits payload_status_enum.splits option.splits if_splits)

lemma validate_consensus_block_Valid:
  "validate_consensus_block env b s = (Inr Valid, s') \<Longrightarrow> engine_accepts env (cb_payload b) (snd s) \<and> fst s' = fst s"
  by (auto simp: validate_consensus_block_def on_world_def Let_def elim!: and_then_eq_InrE
      split: prod.splits payload_validation_result.splits intro: validate_payload_Valid)

lemma establish_block_validity_Valid:
  assumes "establish_block_validity env b prev s = (Inr v, s')" and "verdict_validity v = Valid"
  shows "v = EngineVerdict Valid" and "check_payload_binding (cb_payload b) (cb_height b) prev = Inr ()"
    and "engine_accepts env (cb_payload b) (snd s)"
  using assms
  by (auto simp: establish_block_validity_def elim!: and_then_eq_InrE split: sum.splits
      dest: validate_consensus_block_Valid)

lemma generate_payload_retries:
  "generate_with_retries n env prev fee w = (Inr p, w') \<Longrightarrow> \<exists>v. generate_once env prev fee v = (Inr p, w')"
proof (induction n arbitrary: w)
  case 0
  then show ?case
    by (subst (asm) generate_with_retries.simps) (auto split: prod.splits sum.splits option.splits)
next
  case (Suc n)
  then show ?case
    by (subst (asm) generate_with_retries.simps) (auto split: prod.splits sum.splits option.splits if_splits)
qed

end
