(* ===== verification/App_State.thy ===== *)
theory App_State
  imports Payload_Validity
begin

text \<open>
  The state of the consensus application (\<open>malachite-app/src/state.rs\<close>): the current height and
  round, the previous block, the decision of the height, the proposal monitor with the arrivals
  that precede it, and the database and the outside world it acts on. The clock is an argument of
  the operations that read it.
\<close>

section \<open>The record\<close>

datatype early_arrival = EarlySynced int | EarlyPendingPartsTime int

datatype sync_state = CatchingUp | InSync

definition fell_behind :: "sync_state \<Rightarrow> sync_state \<Rightarrow> bool" where
  "fell_behind previous current \<longleftrightarrow> previous = InSync \<and> current = CatchingUp"

text \<open>Durations in nanoseconds; \<open>now\<close> is the time since the epoch.\<close>

definition is_catching_up :: "nat \<Rightarrow> u64 \<Rightarrow> nat \<Rightarrow> bool" where
  "is_catching_up now latest_block_timestamp catch_up_threshold \<longleftrightarrow>
     catch_up_threshold \<le> now - unat latest_block_timestamp * 10 ^ 9"

definition sync_state_of :: "nat \<Rightarrow> u64 \<Rightarrow> nat \<Rightarrow> sync_state" where
  "sync_state_of now latest_block_timestamp catch_up_threshold =
     (if is_catching_up now latest_block_timestamp catch_up_threshold then CatchingUp else InSync)"

record ('pk, 'cp) next_height_info =
  nh_next_height :: height
  nh_validator_set :: "'pk validator list"
  nh_consensus_params :: 'cp
  nh_decided_block :: execution_block
  nh_target_time :: "nat option"

datatype ('pk, 'cp) decision = Success "('pk, 'cp) next_height_info" | Failure report

record ('w, 'pk, 'cp, 'sig, 'p, 'l) app_state =
  as_address :: address
  as_fee_recipient :: address
  as_validator_set :: "'pk validator list"
  as_stream_nonce :: u32
  as_streams :: "('p, 'sig, 'l) part_streams_map"
  as_network_id :: bytes
  as_current_height :: height
  as_current_round :: round
  as_current_proposer :: "address option"
  as_decision :: "('pk, 'cp) decision option"
  as_sync_state :: sync_state
  as_previous_block :: "execution_block option"
  as_consensus_params :: 'cp
  as_proposal_monitor :: "proposal_monitor option"
  as_early_arrivals :: "(height, early_arrival) btree_map"
  as_store :: tables
  as_world :: 'w

text \<open>A step on the database and the world, within the state.\<close>

definition on_sys ::
  "('w sys \<Rightarrow> ('e + 'a) \<times> 'w sys) \<Rightarrow> ('w, 'pk, 'cp, 'sig, 'p, 'l) app_state
     \<Rightarrow> ('e + 'a) \<times> ('w, 'pk, 'cp, 'sig, 'p, 'l) app_state" where
  "on_sys f st =
     (let (r, (db, w)) = f (as_store st, as_world st) in (r, st\<lparr>as_store := db, as_world := w\<rparr>))"

section \<open>The proposal monitor\<close>

fun apply_early_arrival :: "early_arrival \<Rightarrow> proposal_monitor \<Rightarrow> proposal_monitor" where
  "apply_early_arrival (EarlySynced t) m = mark_synced (m\<lparr>pm_proposal_receive_time := Some t\<rparr>)"
| "apply_early_arrival (EarlyPendingPartsTime t) m = m\<lparr>pm_proposal_receive_time := Some t\<rparr>"

definition build_monitor :: "height \<Rightarrow> address \<Rightarrow> int \<Rightarrow> early_arrival option \<Rightarrow> proposal_monitor" where
  "build_monitor height proposer start_time early =
     (let monitor = monitor_new height proposer start_time
      in case early of Some e \<Rightarrow> apply_early_arrival e monitor | None \<Rightarrow> monitor)"

fun supersedes :: "early_arrival \<Rightarrow> early_arrival \<Rightarrow> bool" where
  "supersedes (EarlyPendingPartsTime _) (EarlySynced _) = True"
| "supersedes _ _ = False"

definition stash_early_arrival ::
  "height \<Rightarrow> early_arrival \<Rightarrow> (height, early_arrival) btree_map \<Rightarrow> (height, early_arrival) btree_map" where
  "stash_early_arrival height arrival early_arrivals =
     (if (case bt_get early_arrivals height of None \<Rightarrow> True | Some existing \<Rightarrow> supersedes arrival existing)
      then bt_insert height arrival early_arrivals else early_arrivals)"

definition record_synced ::
  "height \<Rightarrow> int \<Rightarrow> proposal_monitor option \<times> (height, early_arrival) btree_map
     \<Rightarrow> proposal_monitor option \<times> (height, early_arrival) btree_map" where
  "record_synced height now ms =
     (case ms of
        (Some m, early_arrivals) \<Rightarrow>
          if pm_height m = height
          then (if pm_proposal_receive_time m \<noteq> None then ms
                else (Some (mark_synced (m\<lparr>pm_proposal_receive_time := Some now\<rparr>)), early_arrivals))
          else (Some m, stash_early_arrival height (EarlySynced now) early_arrivals)
      | (None, early_arrivals) \<Rightarrow> (None, stash_early_arrival height (EarlySynced now) early_arrivals))"

definition attach_value_id_to_monitor ::
  "height \<Rightarrow> block_hash \<Rightarrow> proposal_monitor option \<Rightarrow> proposal_monitor option" where
  "attach_value_id_to_monitor height value_id monitor =
     (case monitor of
        None \<Rightarrow> None
      | Some m \<Rightarrow> if pm_height m \<noteq> height then Some m else Some (attach_assembled_value_id value_id m))"

definition attach_valid_proposal_value_ids ::
  "height \<Rightarrow> round \<Rightarrow> proposed_value list \<Rightarrow> proposal_monitor option \<Rightarrow> proposal_monitor option" where
  "attach_valid_proposal_value_ids height round proposals monitor =
     (if round_as_i64 round \<noteq> 0 then monitor
      else foldl (\<lambda>m p. attach_value_id_to_monitor height (pv_value p) m) monitor
             (filter (\<lambda>p. is_valid (pv_validity p)) proposals))"

definition mark_height_synced ::
  "height \<Rightarrow> int \<Rightarrow> ('w, 'pk, 'cp, 'sig, 'p, 'l) app_state \<Rightarrow> ('w, 'pk, 'cp, 'sig, 'p, 'l) app_state" where
  "mark_height_synced height now st =
     (let (m, e) = record_synced height now (as_proposal_monitor st, as_early_arrivals st)
      in st\<lparr>as_proposal_monitor := m, as_early_arrivals := e\<rparr>)"

definition record_early_pending_parts_time ::
  "height \<Rightarrow> int \<Rightarrow> ('w, 'pk, 'cp, 'sig, 'p, 'l) app_state \<Rightarrow> ('w, 'pk, 'cp, 'sig, 'p, 'l) app_state" where
  "record_early_pending_parts_time height now st =
     st\<lparr>as_early_arrivals := stash_early_arrival height (EarlyPendingPartsTime now) (as_early_arrivals st)\<rparr>"

definition cleanup_early_arrivals ::
  "height \<Rightarrow> ('w, 'pk, 'cp, 'sig, 'p, 'l) app_state \<Rightarrow> ('w, 'pk, 'cp, 'sig, 'p, 'l) app_state" where
  "cleanup_early_arrivals current_height st =
     st\<lparr>as_early_arrivals := bt_retain (\<lambda>h _. current_height \<le> h) (as_early_arrivals st)\<rparr>"

section \<open>Heights\<close>

definition init_proposal_monitor ::
  "round \<Rightarrow> address \<Rightarrow> int \<Rightarrow> ('w, 'pk, 'cp, 'sig, 'p, 'l) app_state
     \<Rightarrow> report + ('w, 'pk, 'cp, 'sig, 'p, 'l) app_state" where
  "init_proposal_monitor round proposer now st =
     (if round_as_i64 round \<noteq> 0 then Inl (Panicked ''round'')
      else let height = as_current_height st;
               early = bt_get (as_early_arrivals st) height
           in Inr (st\<lparr>as_early_arrivals := bt_remove height (as_early_arrivals st),
                      as_proposal_monitor := Some (build_monitor height proposer now early)\<rparr>))"

definition started_height ::
  "('w, 'pk, 'cp, 'sig, 'ev, 'p, 'l) node_env \<Rightarrow> height \<Rightarrow> round \<Rightarrow> address \<Rightarrow> int
     \<Rightarrow> ('w, 'pk, 'cp, 'sig, 'p, 'l) app_state \<Rightarrow> report + ('w, 'pk, 'cp, 'sig, 'p, 'l) app_state" where
  "started_height env height round proposer now st =
     init_proposal_monitor round proposer now
       (st\<lparr>as_streams := set_current_height height (as_streams st),
           as_network_id := ne_network_id env (as_current_height st)\<rparr>)"

definition set_validator_set ::
  "('w, 'pk, 'cp, 'sig, 'ev, 'p::linorder, 'l) node_env \<Rightarrow> 'pk validator list
     \<Rightarrow> ('w, 'pk, 'cp, 'sig, 'p, 'l) app_state \<Rightarrow> ('w, 'pk, 'cp, 'sig, 'p, 'l) app_state" where
  "set_validator_set env val_set st =
     st\<lparr>as_streams := set_num_validators (ne_lru env) (length val_set) (as_streams st), as_validator_set := val_set\<rparr>"

definition move_to_next_height ::
  "('w, 'pk, 'cp, 'sig, 'ev, 'p::linorder, 'l) node_env \<Rightarrow> ('pk, 'cp) next_height_info
     \<Rightarrow> ('w, 'pk, 'cp, 'sig, 'p, 'l) app_state \<Rightarrow> ('w, 'pk, 'cp, 'sig, 'p, 'l) app_state" where
  "move_to_next_height env info st =
     (let st = st\<lparr>as_current_height := nh_next_height info, as_current_round := RoundNil,
                  as_previous_block := Some (nh_decided_block info)\<rparr>;
          st = set_validator_set env (nh_validator_set info) st;
          st = st\<lparr>as_consensus_params := nh_consensus_params info\<rparr>
      in cleanup_early_arrivals (nh_next_height info) st)"

definition execution_block_of :: "exec_payload \<Rightarrow> execution_block" where
  "execution_block_of p =
     \<lparr>eb_block_hash = pl_block_hash p, eb_block_number = pl_block_number p, eb_parent_hash = pl_parent_hash p,
      eb_timestamp = pl_timestamp p\<rparr>"

definition restart_height ::
  "('w, 'pk, 'cp, 'sig, 'ev, 'p::linorder, 'l) node_env \<Rightarrow> height \<Rightarrow> 'pk validator list \<Rightarrow> 'cp
     \<Rightarrow> ('w, 'pk, 'cp, 'sig, 'p, 'l) app_state \<Rightarrow> (report + unit) \<times> ('w, 'pk, 'cp, 'sig, 'p, 'l) app_state" where
  "restart_height env height validator_set consensus_params st =
     (let st = st\<lparr>as_current_height := height, as_current_round := RoundNil, as_current_proposer := None\<rparr>;
          st = set_validator_set env validator_set st;
          st = st\<lparr>as_consensus_params := consensus_params\<rparr>;
          previous_block_height = height_saturating_sub height 1
      in and_then (on_sys (read_db (get_decided_block (ne_redb env) (ne_codec env) previous_block_height)) st) (\<lambda>b st.
         let st = st\<lparr>as_previous_block := map_option (execution_block_of \<circ> dcb_execution_payload) b\<rparr>
         in on_sys (on_db (clean_stale_consensus_data (ne_redb env) height)) st))"

text \<open>The stream id of a proposal; the nonce wraps.\<close>

definition next_stream_id ::
  "height \<Rightarrow> round \<Rightarrow> ('w, 'pk, 'cp, 'sig, 'p, 'l) app_state
     \<Rightarrow> bytes option \<times> ('w, 'pk, 'cp, 'sig, 'p, 'l) app_state" where
  "next_stream_id height round st =
     (new_stream_id height round (as_stream_nonce st), st\<lparr>as_stream_nonce := as_stream_nonce st + 1\<rparr>)"

text \<open>The limit of the pending table, from the sync configuration; \<open>usize\<close> has 64 bits.\<close>

definition max_pending_proposals :: "u64 \<Rightarrow> u64 \<Rightarrow> report + nat" where
  "max_pending_proposals parallel_requests batch_size =
     (case checked_mul parallel_requests batch_size of
        None \<Rightarrow> Inl (Panicked ''max_pending_proposals overflow'')
      | Some limit \<Rightarrow>
          if limit = 0 then Inl (Panicked ''max_pending_proposals must be greater than 0'') else Inr (unat limit))"

end
