(* ===== verification/App_Handlers.thy ===== *)
theory App_Handlers
  imports App_State
begin

text \<open>
  The handlers of the consensus application (\<open>malachite-app/src/handlers\<close>): proposal parts,
  the start of a round, synced values, the request for a value, the decision, its finalisation
  and the two queries about the history. A handler is a function on the application state; an
  error that the source propagates stops the application, one it logs continues.
\<close>

section \<open>Received proposal parts\<close>

datatype 'sig parts_outcome =
    PartsBlock "'sig consensus_block"
  | StoredPending
  | IgnoredPastHeight
  | RejectedInvalid
  | PartsAssemblyFailed
  | PartsDeferred

definition is_terminal :: "'sig parts_outcome \<Rightarrow> bool" where
  "is_terminal outcome \<longleftrightarrow> outcome \<noteq> PartsDeferred"

text \<open>A failure to read the count is an error even though the parts may have been stored.\<close>

definition maybe_store_pending_proposal ::
  "('w, 'pk, 'cp, 'sig, 'ev, 'p, 'l) node_env \<Rightarrow> height \<Rightarrow> nat \<Rightarrow> 'sig proposal_parts \<Rightarrow> 'w sys
     \<Rightarrow> (report + bool) \<times> 'w sys" where
  "maybe_store_pending_proposal env current_height max_pending parts s =
     (case height_increment_by current_height (of_nat max_pending - 1) of
        None \<Rightarrow> (Inl (Panicked ''height overflow''), s)
      | Some max_future_height \<Rightarrow>
          if max_future_height < pp_height parts then (Inr False, s)
          else and_then (on_db (insert_pending_proposal_parts (ne_redb env) (ne_codec env) parts max_pending current_height) s)
            (\<lambda>stored s. and_then (read_db (get_pending_proposal_parts_count (ne_redb env)) s)
              (\<lambda>pending_count s. (Inr stored, s))))"

definition proposal_parts_valid ::
  "('w, 'pk, 'cp, 'sig, 'ev, 'p, 'l) node_env \<Rightarrow> 'sig proposal_parts \<Rightarrow> 'pk validator \<Rightarrow> bool" where
  "proposal_parts_valid env = validate_proposal_parts (codec_keccak256 (ne_codec env)) (ne_verify env)"

definition process_proposal_parts ::
  "('w, 'pk, 'cp, 'sig, 'ev, 'p, 'l) node_env \<Rightarrow> height \<Rightarrow> round \<Rightarrow> 'pk validator list \<Rightarrow> nat \<Rightarrow> 'sig proposal_parts
     \<Rightarrow> 'w sys \<Rightarrow> (report + 'sig parts_outcome) \<times> 'w sys" where
  "process_proposal_parts env current_height current_round validator_set max_pending parts s =
     (if pp_height parts < current_height then (Inr IgnoredPastHeight, s)
      else if current_height < pp_height parts \<or> round_as_i64 current_round < round_as_i64 (pp_round parts)
      then and_then (maybe_store_pending_proposal env current_height max_pending parts s)
             (\<lambda>stored s. (Inr (if stored then StoredPending else PartsDeferred), s))
      else case resolve_expected_proposer validator_set parts of
        None \<Rightarrow> (Inl (Panicked ''empty validator set''), s)
      | Some expected_proposer \<Rightarrow>
          if \<not> proposal_parts_valid env parts expected_proposer then (Inr RejectedInvalid, s)
          else (case assemble_block_from_parts (ne_unssz env) parts of
            Inl e \<Rightarrow> (Inr PartsAssemblyFailed, persist_invalid_payload_best_effort env (new_from_parts parts e) s)
          | Inr block \<Rightarrow> (Inr (PartsBlock block), s)))"

text \<open>The block with the verdict on it.\<close>

definition validate_block ::
  "('w, 'pk, 'cp, 'sig, 'ev, 'p, 'l) node_env \<Rightarrow> 'sig consensus_block \<Rightarrow> execution_block option \<Rightarrow> 'w sys
     \<Rightarrow> (report + 'sig consensus_block) \<times> 'w sys" where
  "validate_block env block previous_block s =
     and_then (establish_block_validity env block previous_block s)
       (\<lambda>verdict s. (Inr (block\<lparr>cb_validity := verdict_validity verdict\<rparr>), s))"

datatype disposition =
    Assembled proposed_value
  | BufferedPending height
  | Terminal
  | Deferred

definition handle_complete_parts ::
  "('w, 'pk, 'cp, 'sig, 'ev, 'p, 'l) node_env \<Rightarrow> height \<Rightarrow> round \<Rightarrow> 'pk validator list \<Rightarrow> nat \<Rightarrow> execution_block option
     \<Rightarrow> u64 option \<Rightarrow> 'sig proposal_parts \<Rightarrow> 'w sys \<Rightarrow> (report + disposition) \<times> 'w sys" where
  "handle_complete_parts env current_height current_round validator_set max_pending previous_block local_time parts s =
     and_then (process_proposal_parts env current_height current_round validator_set max_pending parts s)
       (\<lambda>outcome s. case outcome of
          PartsBlock block \<Rightarrow>
            and_then (validate_block env block previous_block s) (\<lambda>block s.
              if \<not> may_be_stored_as_undecided (ne_hash_of env) block then (Inr Terminal, s)
              else let proposed_value = to_proposed_value_with_validity block (validity_for block local_time)
                   in and_then (on_db (store_undecided_block (ne_redb env) (ne_codec env) block) s)
                        (\<lambda>_ s. (Inr (Assembled proposed_value), s)))
        | _ \<Rightarrow>
            (Inr (if outcome = StoredPending \<and> current_height < pp_height parts \<and> round_as_i64 (pp_round parts) = 0
                  then BufferedPending (pp_height parts)
                  else if is_terminal outcome then Terminal else Deferred), s))"

datatype received_part = RpAssembled proposed_value | RpBufferedPending height | RpNone

text \<open>
  \<open>now\<close> and \<open>now'\<close> are the two readings of the monotone clock by the stream map. The key of a
  completed stream is closed unless the parts were deferred, on an error too.
\<close>

definition on_received_proposal_part ::
  "('w, 'pk, 'cp, 'sig, 'ev, 'p::linorder, 'l) node_env \<Rightarrow> nat \<Rightarrow> nat \<Rightarrow> nat \<Rightarrow> u64 option \<Rightarrow> 'p \<Rightarrow> 'sig part_message
     \<Rightarrow> ('w, 'pk, 'cp, 'sig, 'p, 'l) app_state \<Rightarrow> (report + received_part) \<times> ('w, 'pk, 'cp, 'sig, 'p, 'l) app_state" where
  "on_received_proposal_part env max_pending now now' local_time from part st =
     (let stream_id = sm_stream_id part;
          (inserted, streams) = psm_insert (ne_lru env) now now' from part (as_streams st);
          st = st\<lparr>as_streams := streams\<rparr>
      in case inserted of
           IComplete parts \<Rightarrow>
             (let (result, st) = on_sys (handle_complete_parts env (as_current_height st) (as_current_round st)
                    (as_validator_set st) max_pending (as_previous_block st) local_time parts) st
              in case result of
                   Inl (Panicked m) \<Rightarrow> (Inl (Panicked m), st)
                 | _ \<Rightarrow>
                   (let st = (if result = Inr Deferred then st
                              else st\<lparr>as_streams := mark_closed (ne_lru env) from stream_id (as_streams st)\<rparr>)
                    in case result of
                         Inl e \<Rightarrow> (Inl e, st)
                       | Inr (Assembled value) \<Rightarrow> (Inr (RpAssembled value), st)
                       | Inr (BufferedPending height) \<Rightarrow> (Inr (RpBufferedPending height), st)
                       | Inr _ \<Rightarrow> (Inr RpNone, st)))
         | _ \<Rightarrow> (Inr RpNone, st))"

definition record_proposal_in_monitor ::
  "round \<Rightarrow> int \<Rightarrow> proposed_value \<Rightarrow> proposal_monitor option \<Rightarrow> proposal_monitor option" where
  "record_proposal_in_monitor current_round now proposed_value monitor =
     (if \<not> is_valid (pv_validity proposed_value) then monitor
      else if round_as_i64 current_round \<noteq> 0 then monitor
      else case monitor of
        None \<Rightarrow> None
      | Some m \<Rightarrow>
          if pm_height m \<noteq> pv_height proposed_value \<or> pm_proposer m \<noteq> pv_proposer proposed_value then Some m
          else if round_as_i64 (pv_round proposed_value) \<noteq> 0 then Some m
          else Some (record_proposal now (pv_value proposed_value) m))"

definition received_proposal_part_handle ::
  "('w, 'pk, 'cp, 'sig, 'ev, 'p::linorder, 'l) node_env \<Rightarrow> nat \<Rightarrow> nat \<Rightarrow> nat \<Rightarrow> int \<Rightarrow> u64 option \<Rightarrow> 'p \<Rightarrow> 'sig part_message
     \<Rightarrow> ('w, 'pk, 'cp, 'sig, 'p, 'l) app_state
     \<Rightarrow> (report + proposed_value option) \<times> ('w, 'pk, 'cp, 'sig, 'p, 'l) app_state" where
  "received_proposal_part_handle env max_pending now now' clock local_time from part st =
     (case on_received_proposal_part env max_pending now now' local_time from part st of
        (Inl (Panicked m), st) \<Rightarrow> (Inl (Panicked m), st)
      | (Inl e, st) \<Rightarrow> (Inr None, st)
      | (Inr (RpAssembled value), st) \<Rightarrow>
          (Inr (Some value), st\<lparr>as_proposal_monitor :=
             record_proposal_in_monitor (as_current_round st) clock value (as_proposal_monitor st)\<rparr>)
      | (Inr (RpBufferedPending height), st) \<Rightarrow> (Inr None, record_early_pending_parts_time height clock st)
      | (Inr RpNone, st) \<Rightarrow> (Inr None, st))"

section \<open>The start of a round\<close>

text \<open>The proposers of the rounds that were started and passed over; \<open>None\<close> is the panic on an empty set.\<close>

definition record_missed_rounds :: "'pk validator list \<Rightarrow> height \<Rightarrow> round \<Rightarrow> round \<Rightarrow> address list option" where
  "record_missed_rounds validator_set height prev_round new_round =
     (let first = (case prev_round of RoundNil \<Rightarrow> 0 | Round r \<Rightarrow> unat r);
          last = (case new_round of RoundNil \<Rightarrow> 0 | Round r \<Rightarrow> unat r);
          proposers = map (\<lambda>r. select_proposer validator_set height (Round (of_nat r))) [first..<last]
      in if None \<in> set proposers then None else Some (map (val_address \<circ> the) proposers))"

fun process_pending_proposal_parts ::
  "('w, 'pk, 'cp, 'sig, 'ev, 'p, 'l) node_env \<Rightarrow> 'pk validator list \<Rightarrow> execution_block option \<Rightarrow> 'sig proposal_parts list
     \<Rightarrow> 'w sys \<Rightarrow> (report + unit) \<times> 'w sys" where
  "process_pending_proposal_parts env validator_set previous_block [] s = (Inr (), s)"
| "process_pending_proposal_parts env validator_set previous_block (parts # rest) s =
     (case resolve_expected_proposer validator_set parts of
        None \<Rightarrow> (Inl (Panicked ''empty validator set''), s)
      | Some expected_proposer \<Rightarrow>
          if \<not> proposal_parts_valid env parts expected_proposer
          then process_pending_proposal_parts env validator_set previous_block rest s
          else (case assemble_block_from_parts (ne_unssz env) parts of
            Inl e \<Rightarrow>
              process_pending_proposal_parts env validator_set previous_block rest
                (persist_invalid_payload_best_effort env (new_from_parts parts e) s)
          | Inr block \<Rightarrow>
              (case establish_block_validity env block previous_block s of
                 (Inl (Panicked m), s) \<Rightarrow> (Inl (Panicked m), s)
               | (Inl e, s) \<Rightarrow> process_pending_proposal_parts env validator_set previous_block rest s
               | (Inr verdict, s) \<Rightarrow>
                   and_then (on_db (remove_pending_parts_and_store_undecided_block (ne_redb env) (ne_codec env) parts
                       (block\<lparr>cb_validity := verdict_validity verdict\<rparr>)) s)
                     (\<lambda>_ s. process_pending_proposal_parts env validator_set previous_block rest s))))"

text \<open>One stored block of the round: the binding rules first, then the client's answer.\<close>

definition revalidate_block ::
  "('w, 'pk, 'cp, 'sig, 'ev, 'p, 'l) node_env \<Rightarrow> execution_block option \<Rightarrow> 'sig consensus_block \<Rightarrow> 'w sys
     \<Rightarrow> (report + 'sig consensus_block) \<times> 'w sys" where
  "revalidate_block env previous_block block s =
     (case check_payload_binding (cb_payload block) (cb_height block) previous_block of
        Inl error \<Rightarrow>
          if is_valid (cb_validity block)
          then (let block = block\<lparr>cb_validity := Invalid\<rparr>;
                    s = persist_invalid_payload_best_effort env
                          (new_from_block block (ne_binding_text env (binding_error_args error))) s
                in and_then (on_db (store_undecided_block (ne_redb env) (ne_codec env) block) s) (\<lambda>_ s. (Inr block, s)))
          else (Inr block, s)
      | Inr _ \<Rightarrow>
          (case validate_consensus_block env block s of
             (Inr new_validity, s) \<Rightarrow>
               if new_validity \<noteq> cb_validity block
               then (let block = block\<lparr>cb_validity := new_validity\<rparr>
                     in and_then (on_db (store_undecided_block (ne_redb env) (ne_codec env) block) s) (\<lambda>_ s. (Inr block, s)))
               else (Inr block, s)
           | (Inl (Panicked m), s) \<Rightarrow> (Inl (Panicked m), s)
           | (Inl e, s) \<Rightarrow> (Inr block, s)))"

fun revalidate_blocks ::
  "('w, 'pk, 'cp, 'sig, 'ev, 'p, 'l) node_env \<Rightarrow> execution_block option \<Rightarrow> 'sig consensus_block list \<Rightarrow> 'w sys
     \<Rightarrow> (report + 'sig consensus_block list) \<times> 'w sys" where
  "revalidate_blocks env previous_block [] s = (Inr [], s)"
| "revalidate_blocks env previous_block (block # blocks) s =
     and_then (revalidate_block env previous_block block s) (\<lambda>block s.
     and_then (revalidate_blocks env previous_block blocks s) (\<lambda>validated s. (Inr (block # validated), s)))"

definition validate_undecided_blocks ::
  "('w, 'pk, 'cp, 'sig, 'ev, 'p, 'l) node_env \<Rightarrow> height \<Rightarrow> round \<Rightarrow> execution_block option \<Rightarrow> 'w sys
     \<Rightarrow> (report + 'sig consensus_block list) \<times> 'w sys" where
  "validate_undecided_blocks env height round previous_block s =
     and_then (read_db (get_undecided_blocks (ne_redb env) (ne_codec env) (ne_round_from env) height round) s)
       (revalidate_blocks env previous_block)"

definition fetch_and_process_pending_proposals ::
  "('w, 'pk, 'cp, 'sig, 'ev, 'p, 'l) node_env \<Rightarrow> height \<Rightarrow> round \<Rightarrow> 'pk validator list \<Rightarrow> execution_block option \<Rightarrow> u64 option
     \<Rightarrow> 'w sys \<Rightarrow> (report + proposed_value list) \<times> 'w sys" where
  "fetch_and_process_pending_proposals env height round validator_set previous_block local_time s =
     and_then (read_db (get_pending_proposal_parts (ne_redb env) (ne_codec env) height round) s) (\<lambda>pending_parts s.
     and_then (process_pending_proposal_parts env validator_set previous_block pending_parts s) (\<lambda>_ s.
     and_then (validate_undecided_blocks env height round previous_block s) (\<lambda>blocks s.
       (Inr (map (\<lambda>block. to_proposed_value_with_validity block (validity_for block local_time)) blocks), s))))"

definition on_started_round ::
  "('w, 'pk, 'cp, 'sig, 'ev, 'p, 'l) node_env \<Rightarrow> height \<Rightarrow> round \<Rightarrow> address \<Rightarrow> int \<Rightarrow> u64 option
     \<Rightarrow> ('w, 'pk, 'cp, 'sig, 'p, 'l) app_state
     \<Rightarrow> (report + proposed_value list) \<times> ('w, 'pk, 'cp, 'sig, 'p, 'l) app_state" where
  "on_started_round env height round proposer clock local_time st =
     (case (if round_as_i64 round = 0 then started_height env height round proposer clock st else Inr st) of
        Inl e \<Rightarrow> (Inl e, st)
      | Inr st \<Rightarrow>
          if as_current_height st \<noteq> height then (Inl (Panicked ''Consensus height mismatch''), st)
          else if round = RoundNil then (Inl (Panicked ''Round cannot be Nil''), st)
          else if round_as_i64 round < round_as_i64 (as_current_round st)
          then (Inl (Panicked ''Round cannot go backwards''), st)
          else case record_missed_rounds (as_validator_set st) height (as_current_round st) round of
            None \<Rightarrow> (Inl (Panicked ''empty validator set''), st)
          | Some missed \<Rightarrow>
              and_then (on_sys (fetch_and_process_pending_proposals env height round (as_validator_set st)
                  (as_previous_block st) local_time)
                  (st\<lparr>as_current_round := round, as_current_proposer := Some proposer\<rparr>)) (\<lambda>proposals st.
                (Inr proposals, st\<lparr>as_proposal_monitor :=
                   attach_valid_proposal_value_ids height round proposals (as_proposal_monitor st)\<rparr>)))"

definition started_round_handle ::
  "('w, 'pk, 'cp, 'sig, 'ev, 'p, 'l) node_env \<Rightarrow> height \<Rightarrow> round \<Rightarrow> address \<Rightarrow> int \<Rightarrow> u64 option
     \<Rightarrow> ('w, 'pk, 'cp, 'sig, 'p, 'l) app_state
     \<Rightarrow> (report + proposed_value list) \<times> ('w, 'pk, 'cp, 'sig, 'p, 'l) app_state" where
  "started_round_handle env height round proposer clock local_time st =
     (case on_started_round env height round proposer clock local_time st of
        (Inr proposals, st) \<Rightarrow> (Inr proposals, st)
      | (Inl (Panicked m), st) \<Rightarrow> (Inl (Panicked m), st)
      | (Inl e, st) \<Rightarrow> (Inr [], st))"

end
