(* ===== verification/App_Decisions.thy ===== *)
theory App_Decisions
  imports App_Handlers
begin

text \<open>
  The handlers of the consensus application that settle a height: synced values, the request for
  a value to propose, the decision with its commit and finalisation, the restart of a height, and
  the queries of the sync protocol.
\<close>

section \<open>Synced values\<close>

datatype synced_value_outcome = SvVerdict proposed_value | SvPeerFault | SvLocalTransientError

definition on_process_synced_value ::
  "('w, 'pk, 'cp, 'sig, 'ev, 'p, 'l) node_env \<Rightarrow> height \<Rightarrow> round \<Rightarrow> address \<Rightarrow> bytes \<Rightarrow> execution_block option \<Rightarrow> 'w sys
     \<Rightarrow> (report + proposed_value option) \<times> 'w sys" where
  "on_process_synced_value env height round proposer value_bytes previous_block s =
     (case ne_unssz env value_bytes of
        Inl e \<Rightarrow> (Inr None, persist_invalid_payload_best_effort env (new_without_payload height round proposer e) s)
      | Inr payload \<Rightarrow>
          let block = \<lparr>cb_height = height, cb_round = round, cb_valid_round = RoundNil, cb_proposer = proposer,
                       cb_validity = Valid, cb_payload = payload, cb_signature = None\<rparr>
          in and_then (establish_block_validity env block previous_block s) (\<lambda>verdict s.
               let block = block\<lparr>cb_validity := verdict_validity verdict\<rparr>;
                   block_hash = self_reported_block_hash block;
                   is_unbound = (case verdict of Unbound _ \<Rightarrow> True | EngineVerdict _ \<Rightarrow> False)
               in if \<not> may_be_stored_as_undecided (ne_hash_of env) block then (Inr None, s)
                  else and_then (if is_unbound then (Inr None, s)
                                 else read_db (get_undecided_block (ne_redb env) (ne_codec env) height round block_hash) s)
                    (\<lambda>existing s. case existing of
                       Some existing \<Rightarrow> (Inr (Some (to_proposed_value_with_validity existing (cb_validity existing))), s)
                     | None \<Rightarrow>
                         and_then (on_db (store_undecided_block (ne_redb env) (ne_codec env) block) s) (\<lambda>_ s.
                           (Inr (Some (to_proposed_value_with_validity block (cb_validity block))),
                            if is_valid (cb_validity block)
                            then snd (on_world (wait_for_persisted_block (ne_engine env) height) s) else s)))))"

definition process_synced_value_handle ::
  "('w, 'pk, 'cp, 'sig, 'ev, 'p, 'l) node_env \<Rightarrow> height \<Rightarrow> round \<Rightarrow> address \<Rightarrow> bytes \<Rightarrow> int
     \<Rightarrow> ('w, 'pk, 'cp, 'sig, 'p, 'l) app_state
     \<Rightarrow> (report + synced_value_outcome) \<times> ('w, 'pk, 'cp, 'sig, 'p, 'l) app_state" where
  "process_synced_value_handle env height round proposer value_bytes clock st =
     (case on_sys (on_process_synced_value env height round proposer value_bytes (as_previous_block st)) st of
        (Inr (Some proposal), st) \<Rightarrow>
          (Inr (SvVerdict proposal), if is_valid (pv_validity proposal) then mark_height_synced height clock st else st)
      | (Inr None, st) \<Rightarrow> (Inr SvPeerFault, st)
      | (Inl (Panicked m), st) \<Rightarrow> (Inl (Panicked m), st)
      | (Inl e, st) \<Rightarrow> (Inr SvLocalTransientError, st))"

section \<open>A value to propose\<close>

definition get_previously_built_block ::
  "('w, 'pk, 'cp, 'sig, 'ev, 'p, 'l) node_env \<Rightarrow> address \<Rightarrow> height \<Rightarrow> round \<Rightarrow> 'w sys
     \<Rightarrow> (report + 'sig consensus_block option) \<times> 'w sys" where
  "get_previously_built_block env proposer height round s =
     and_then (read_db (get_undecided_blocks (ne_redb env) (ne_codec env) (ne_round_from env) height round) s)
       (\<lambda>blocks s.
          (case filter (\<lambda>b. cb_proposer b = proposer) blocks of
             [] \<Rightarrow> Inr None
           | [block] \<Rightarrow> Inr (Some block)
           | _ \<Rightarrow> Inl (eyre ''Multiple undecided blocks found''), s))"

definition check_reused_block_binding ::
  "'sig consensus_block \<Rightarrow> height \<Rightarrow> execution_block option \<Rightarrow> report + unit" where
  "check_reused_block_binding block height previous_block =
     (case check_payload_binding (cb_payload block) height previous_block of
        Inr _ \<Rightarrow> Inr ()
      | Inl error \<Rightarrow> Inl (HaltAndWait ''previously built block is not bound to its place in the chain''))"

definition check_previous_block_is_predecessor :: "execution_block \<Rightarrow> height \<Rightarrow> report + unit" where
  "check_previous_block_is_predecessor previous_block height =
     (if checked_add (eb_block_number previous_block) 1 = Some height then Inr ()
      else Inl (HaltAndWait ''previous block is not the predecessor''))"

definition build_block ::
  "('w, 'pk, 'cp, 'sig, 'ev, 'p, 'l) node_env \<Rightarrow> height \<Rightarrow> round \<Rightarrow> address \<Rightarrow> execution_block \<Rightarrow> address \<Rightarrow> 'w sys
     \<Rightarrow> (report + 'sig consensus_block) \<times> 'w sys" where
  "build_block env height round proposer previous_block fee_recipient s =
     and_then (on_world (generate_payload_with_retry env previous_block fee_recipient) s) (\<lambda>payload s.
       (Inr \<lparr>cb_height = height, cb_round = round, cb_valid_round = RoundNil, cb_proposer = proposer,
             cb_validity = Valid, cb_payload = payload, cb_signature = None\<rparr>, s))"

definition build_and_validate_block ::
  "('w, 'pk, 'cp, 'sig, 'ev, 'p, 'l) node_env \<Rightarrow> height \<Rightarrow> round \<Rightarrow> address \<Rightarrow> execution_block \<Rightarrow> address \<Rightarrow> 'w sys
     \<Rightarrow> (report + 'sig consensus_block) \<times> 'w sys" where
  "build_and_validate_block env height round proposer previous_block fee_recipient s =
     and_then (build_block env height round proposer previous_block fee_recipient s) (\<lambda>block s.
       case check_payload_binding (cb_payload block) height (Some previous_block) of
         Inl error \<Rightarrow> (Inl (eyre ''Engine returned a payload built on another block''), s)
       | Inr _ \<Rightarrow>
           and_then (validate_consensus_block env block s) (\<lambda>validity s.
             (if \<not> is_valid validity then Inl (eyre ''Self-built block is invalid'') else Inr block, s)))"

text \<open>
  \<open>timeout\<close> is the world in which the propose budget ran out while the block was being built,
  before a verdict on it was recorded; \<open>None\<close> when the build finished in time.
\<close>

definition on_get_value ::
  "('w, 'pk, 'cp, 'sig, 'ev, 'p, 'l) node_env \<Rightarrow> height \<Rightarrow> round \<Rightarrow> address \<Rightarrow> execution_block option \<Rightarrow> address \<Rightarrow> bytes
     \<Rightarrow> 'w option \<Rightarrow> 'w sys
     \<Rightarrow> (report + (height \<times> round \<times> block_hash \<times> 'sig part_message list) option) \<times> 'w sys" where
  "on_get_value env height round address previous_block fee_recipient stream_id timeout s =
     and_then (get_previously_built_block env address height round s) (\<lambda>built s.
     and_then (case built of
         Some block \<Rightarrow>
           (case check_reused_block_binding block height previous_block of
              Inl e \<Rightarrow> (Inl e, s) | Inr _ \<Rightarrow> (Inr (Some block), s))
       | None \<Rightarrow>
           (case previous_block of
              None \<Rightarrow> (Inl (eyre ''No previous block available to build new block''), s)
            | Some previous \<Rightarrow>
                (case check_previous_block_is_predecessor previous height of
                   Inl e \<Rightarrow> (Inl e, s)
                 | Inr _ \<Rightarrow>
                     (case timeout of
                        Some w \<Rightarrow> (Inr None, (fst s, w))
                      | None \<Rightarrow>
                          and_then (build_and_validate_block env height round address previous fee_recipient s)
                            (\<lambda>block s. (Inr (Some block), s))))))
       (\<lambda>block s. case block of
          None \<Rightarrow> (Inr None, s)
        | Some block \<Rightarrow>
            (case prepare_stream (ne_ssz env) (codec_keccak256 (ne_codec env)) (ne_sign env) stream_id block of
               Inl e \<Rightarrow> (Inl (eyre e), s)
             | Inr (stream_messages, signature) \<Rightarrow>
                 and_then (on_db (store_undecided_block (ne_redb env) (ne_codec env) (block\<lparr>cb_signature := Some signature\<rparr>)) s)
                   (\<lambda>_ s. (Inr (Some (cb_height block, cb_round block, self_reported_block_hash block, stream_messages)), s)))))"

definition get_value_handle ::
  "('w, 'pk, 'cp, 'sig, 'ev, 'p, 'l) node_env \<Rightarrow> height \<Rightarrow> round \<Rightarrow> 'w option \<Rightarrow> int
     \<Rightarrow> ('w, 'pk, 'cp, 'sig, 'p, 'l) app_state
     \<Rightarrow> (report + (height \<times> round \<times> block_hash \<times> 'sig part_message list) option)
          \<times> ('w, 'pk, 'cp, 'sig, 'p, 'l) app_state" where
  "get_value_handle env height round timeout clock st =
     (case next_stream_id height round st of
        (None, st) \<Rightarrow> (Inl (Panicked ''round'') , st)
      | (Some stream_id, st) \<Rightarrow>
          and_then (on_sys (on_get_value env height round (as_address st) (as_previous_block st) (as_fee_recipient st)
              stream_id timeout) st) (\<lambda>proposed st.
            (Inr proposed,
             case (proposed, as_proposal_monitor st) of
               (Some (_, _, value_id, _), Some monitor) \<Rightarrow>
                 if round_as_i64 round = 0
                 then st\<lparr>as_proposal_monitor := Some (record_proposal clock value_id monitor)\<rparr> else st
             | _ \<Rightarrow> st)))"

section \<open>Pruning\<close>

record pruning_config =
  pc_certificates_distance :: u64
  pc_certificates_before :: height

definition pruning_enabled :: "pruning_config \<Rightarrow> bool" where
  "pruning_enabled c \<longleftrightarrow> 0 < pc_certificates_distance c \<or> 0 < pc_certificates_before c"

definition effective_certificates_min_height :: "pruning_config \<Rightarrow> height \<Rightarrow> height" where
  "effective_certificates_min_height c current_height =
     (if 0 < pc_certificates_before c then pc_certificates_before c
      else if 0 < pc_certificates_distance c then height_saturating_sub current_height (pc_certificates_distance c)
      else 0)"

text \<open>\<open>ProdPruningService::prune_historical_certs\<close>: each table on its own, failures logged.\<close>

definition service_prune_historical_certs ::
  "redb_env \<Rightarrow> pruning_config \<Rightarrow> height \<Rightarrow> tables \<Rightarrow> (store_error + height list) \<times> tables" where
  "service_prune_historical_certs redb config latest_height db =
     (if \<not> pruning_enabled config then (Inr [], db)
      else let retain_height = effective_certificates_min_height config latest_height;
               (pruned_certs, db) = prune_historical_certs redb retain_height db;
               db = snd (prune_proposal_monitor_data redb retain_height db);
               db = snd (prune_misbehavior_evidence redb retain_height db);
               db = snd (prune_invalid_payloads redb retain_height db)
           in (pruned_certs, db))"

section \<open>Decided values\<close>

definition finalize_decided_block ::
  "('w, 'pk, 'cp, 'sig, 'ev, 'p, 'l) node_env \<Rightarrow> exec_payload \<Rightarrow> 'w \<Rightarrow> (report + execution_block \<times> block_hash) \<times> 'w" where
  "finalize_decided_block env execution_payload w =
     and_then (set_latest_forkchoice_state (ne_engine env) (pl_block_hash execution_payload) w) (\<lambda>latest_valid_hash w.
       (Inr (execution_block_of execution_payload, latest_valid_hash), w))"

text \<open>The acknowledgement is sent as soon as the certificate is stored: the flag of the result.\<close>

definition commit ::
  "('w, 'pk, 'cp, 'sig, 'ev, 'p, 'l) node_env \<Rightarrow> pruning_config \<Rightarrow> 'sig commit_certificate \<Rightarrow> 'sig consensus_block
     \<Rightarrow> 'w sys \<Rightarrow> (bool \<times> (report + execution_block)) \<times> 'w sys" where
  "commit env config certificate block s =
     (case on_db (store_decided_block (ne_redb env) (ne_codec env) certificate (cb_payload block) (cb_proposer block)) s of
        (Inl e, s) \<Rightarrow> ((False, Inl e), s)
      | (Inr _, s) \<Rightarrow>
          (let s = (snd (clean_stale_consensus_data (ne_redb env) (cc_height certificate) (fst s)), snd s)
           in case on_world (finalize_decided_block env (cb_payload block)) s of
                (Inl e, s) \<Rightarrow> ((True, Inl e), s)
              | (Inr (new_latest_block, _), s) \<Rightarrow>
                  (let db = snd (service_prune_historical_certs (ne_redb env) config (cc_height certificate) (fst s));
                       db = snd (prune_blocks (ne_redb env) db)
                   in ((True, Inr new_latest_block), (db, snd s)))))"

definition decide ::
  "('w, 'pk, 'cp, 'sig, 'ev, 'p, 'l) node_env \<Rightarrow> pruning_config \<Rightarrow> 'sig commit_certificate \<Rightarrow> execution_block option
     \<Rightarrow> 'w sys \<Rightarrow> (bool \<times> (report + execution_block)) \<times> 'w sys" where
  "decide env config certificate previous_block s =
     (case read_db (get_undecided_block_by_height_and_block_hash (ne_redb env) (ne_codec env)
         (cc_height certificate) (cc_value_id certificate)) s of
        (Inl e, s) \<Rightarrow> ((False, Inl (eyre ''Failed to retrieve undecided block'')), s)
      | (Inr None, s) \<Rightarrow> ((False, Inl (eyre ''Cannot find undecided block'')), s)
      | (Inr (Some block), s) \<Rightarrow>
          (case check_payload_binding (cb_payload block) (cc_height certificate) previous_block of
             Inl error \<Rightarrow> ((False, Inl (HaltAndWait ''decided payload is not bound to its place in the chain'')), s)
           | Inr _ \<Rightarrow>
               if \<not> is_valid (cb_validity block)
               then ((False, Inl (eyre ''Refusing to finalize undecided block marked invalid'')), s)
               else commit env config certificate block s))"

text \<open>\<open>target_block_time\<close> and \<open>default_params\<close> are operations of the consensus parameters.\<close>

definition prepare_next_height ::
  "('w, 'pk, 'cp, 'sig, 'ev, 'p, 'l) node_env \<Rightarrow> ('cp \<Rightarrow> nat option) \<Rightarrow> 'cp \<Rightarrow> height \<Rightarrow> execution_block \<Rightarrow> sync_state
     \<Rightarrow> 'w \<Rightarrow> (report + ('pk, 'cp) next_height_info) \<times> 'w" where
  "prepare_next_height env target_block_time default_params decided_height decided_block sync w =
     (case height_increment decided_height of
        None \<Rightarrow> (Inl (Panicked ''height overflow''), w)
      | Some next_height \<Rightarrow>
          and_then (eth_signing_validator_set (ne_engine env) next_height w) (\<lambda>validator_set w.
            let (r, w) = eth_consensus_params (ne_engine env) decided_height w;
                consensus_params = (case r of Inr p \<Rightarrow> p | Inl _ \<Rightarrow> default_params)
            in (Inr \<lparr>nh_next_height = next_height, nh_validator_set = validator_set,
                     nh_consensus_params = consensus_params, nh_decided_block = decided_block,
                     nh_target_time = (case sync of InSync \<Rightarrow> target_block_time consensus_params | CatchingUp \<Rightarrow> None)\<rparr>, w)))"

definition store_proposal_monitor_on_decision ::
  "('w, 'pk, 'cp, 'sig, 'ev, 'p, 'l) node_env \<Rightarrow> height \<Rightarrow> block_hash \<Rightarrow> ('w, 'pk, 'cp, 'sig, 'p, 'l) app_state
     \<Rightarrow> report + ('w, 'pk, 'cp, 'sig, 'p, 'l) app_state" where
  "store_proposal_monitor_on_decision env decided_height decided_value_id st =
     (case as_proposal_monitor st of
        None \<Rightarrow> Inr st
      | Some monitor \<Rightarrow>
          if pm_height monitor \<noteq> decided_height then Inl (Panicked ''monitor height'')
          else Inr (st\<lparr>as_proposal_monitor := None,
                       as_store := snd (insert_proposal_monitor_data (ne_redb env) (ne_codec env)
                         (mark_decided decided_value_id monitor) (as_store st))\<rparr>))"

record 'cp decided_config =
  dc_pruning :: pruning_config
  dc_target_block_time :: "'cp \<Rightarrow> nat option"
  dc_default_params :: 'cp
  dc_catch_up_threshold :: nat
  dc_halt_height :: "height option"

text \<open>The result tells whether the commit was acknowledged; an error stops the application.\<close>

definition decided_handle ::
  "('w, 'pk, 'cp, 'sig, 'ev, 'p, 'l) node_env \<Rightarrow> 'cp decided_config \<Rightarrow> 'sig commit_certificate \<Rightarrow> nat
     \<Rightarrow> ('w, 'pk, 'cp, 'sig, 'p, 'l) app_state \<Rightarrow> (report + bool) \<times> ('w, 'pk, 'cp, 'sig, 'p, 'l) app_state" where
  "decided_handle env config certificate now st =
     (case store_proposal_monitor_on_decision env (cc_height certificate) (cc_value_id certificate) st of
        Inl e \<Rightarrow> (Inl e, st)
      | Inr st \<Rightarrow>
          (let ((ack, block), (db, w)) = decide env (dc_pruning config) certificate (as_previous_block st) (as_store st, as_world st);
               st = st\<lparr>as_store := db, as_world := w\<rparr>
           in case block of
                Inr block \<Rightarrow>
                  (let new_sync_state = sync_state_of now (eb_timestamp block) (dc_catch_up_threshold config);
                       st = st\<lparr>as_sync_state := new_sync_state\<rparr>
                   in and_then (on_sys (on_world (prepare_next_height env (dc_target_block_time config) (dc_default_params config)
                          (cc_height certificate) block new_sync_state)) st) (\<lambda>info st.
                        (Inr ack, st\<lparr>as_decision := Some (Success info)\<rparr>)))
              | Inl (HaltAndWait m) \<Rightarrow> (Inl (HaltAndWait m), st)
              | Inl (Panicked m) \<Rightarrow> (Inl (Panicked m), st)
              | Inl e \<Rightarrow> (Inr ack, st\<lparr>as_decision := Some (Failure e)\<rparr>)))"

section \<open>Finalised heights\<close>

datatype 'pk next_action =
    NextStart height "'pk validator list" "nat option"
  | NextRestart height "'pk validator list"

definition check_halt_height :: "height \<Rightarrow> height option \<Rightarrow> report + unit" where
  "check_halt_height next_height halt_height =
     (if halt_height = Some next_height then Inl (HaltAndWait ''reached configured halt height'') else Inr ())"

definition start_next_height ::
  "('w, 'pk, 'cp, 'sig, 'ev, 'p::linorder, 'l) node_env \<Rightarrow> 'cp decided_config \<Rightarrow> ('pk, 'cp) next_height_info
     \<Rightarrow> ('w, 'pk, 'cp, 'sig, 'p, 'l) app_state
     \<Rightarrow> (report + 'pk next_action) \<times> ('w, 'pk, 'cp, 'sig, 'p, 'l) app_state" where
  "start_next_height env config info st =
     (let st = move_to_next_height env info st
      in (case check_halt_height (nh_next_height info) (dc_halt_height config) of
            Inl e \<Rightarrow> Inl e
          | Inr _ \<Rightarrow> Inr (NextStart (nh_next_height info) (nh_validator_set info) (nh_target_time info)), st))"

definition finalized_restart ::
  "('w, 'pk, 'cp, 'sig, 'ev, 'p::linorder, 'l) node_env \<Rightarrow> height \<Rightarrow> ('w, 'pk, 'cp, 'sig, 'p, 'l) app_state
     \<Rightarrow> (report + 'pk next_action) \<times> ('w, 'pk, 'cp, 'sig, 'p, 'l) app_state" where
  "finalized_restart env height st =
     and_then (restart_height env height (as_validator_set st) (as_consensus_params st) st)
       (\<lambda>_ st. (Inr (NextRestart height (as_validator_set st)), st))"

text \<open>\<open>evidence\<close> is what was observed during the height, \<open>None\<close> when nothing was.\<close>

definition finalized_handle ::
  "('w, 'pk, 'cp, 'sig, 'ev, 'p::linorder, 'l) node_env \<Rightarrow> 'cp decided_config \<Rightarrow> 'sig commit_certificate
     \<Rightarrow> 'ev stored_misbehavior_evidence option \<Rightarrow> ('w, 'pk, 'cp, 'sig, 'p, 'l) app_state
     \<Rightarrow> (report + 'pk next_action) \<times> ('w, 'pk, 'cp, 'sig, 'p, 'l) app_state" where
  "finalized_handle env config certificate evidence st =
     (case as_decision st of
        None \<Rightarrow> (Inl (eyre ''Received message without a corresponding decision in state''), st)
      | Some decision \<Rightarrow>
          let db = (case evidence of
                 None \<Rightarrow> as_store st
               | Some e \<Rightarrow> snd (insert_misbehavior_evidence (ne_redb env) (ne_codec env) e (as_store st)));
              db = snd (extend_certificate (ne_redb env) (ne_codec env) certificate db);
              st = st\<lparr>as_decision := None, as_store := db\<rparr>
          in case decision of
               Success info \<Rightarrow> start_next_height env config info st
             | Failure e \<Rightarrow> finalized_restart env (cc_height certificate) st)"

section \<open>Queries\<close>

definition get_history_min_height :: "height \<Rightarrow> height \<Rightarrow> height \<Rightarrow> height option \<Rightarrow> height" where
  "get_history_min_height cl_earliest el_earliest cl_latest target_halt_height =
     (let lower = max cl_earliest el_earliest
      in case target_halt_height of
           Some halt_height \<Rightarrow> if halt_height < cl_latest then max lower halt_height else lower
         | None \<Rightarrow> lower)"

text \<open>\<open>Inl\<close> is the failed assertion that the earliest height is not above the latest.\<close>

definition get_clamped_request_range ::
  "height \<Rightarrow> height \<Rightarrow> height \<Rightarrow> height \<Rightarrow> u64 \<Rightarrow> report + (height \<times> height) option" where
  "get_clamped_request_range start end earliest_height latest_height batch_size =
     (if latest_height < earliest_height then Inl (Panicked ''Earliest height'')
      else if end < start then Inr None
      else if end < earliest_height \<or> latest_height < start then Inr None
      else let start = (if start < earliest_height then earliest_height else start);
               end = (if latest_height < end then latest_height else end)
           in if batch_size = 0 then Inr None
              else case checked_add (end - start) 1 of
                None \<Rightarrow> Inr None
              | Some requested_count \<Rightarrow>
                  if batch_size < requested_count
                  then (case height_increment_by start (saturating_sub batch_size 1) of
                          None \<Rightarrow> Inl (Panicked ''height overflow'')
                        | Some end \<Rightarrow> Inr (Some (start, end)))
                  else Inr (Some (start, end)))"

definition get_history_min_height_handle ::
  "('w, 'pk, 'cp, 'sig, 'ev, 'p, 'l) node_env \<Rightarrow> height option \<Rightarrow> 'w sys \<Rightarrow> (report + height) \<times> 'w sys" where
  "get_history_min_height_handle env halt_height s =
     and_then (read_db (min_height (ne_redb env)) s) (\<lambda>earliest s.
     and_then (read_db (max_height (ne_redb env)) s) (\<lambda>latest s.
       let cl_earliest_height = (case earliest of Some h \<Rightarrow> h | None \<Rightarrow> 0);
           cl_latest_height = (case latest of Some h \<Rightarrow> h | None \<Rightarrow> 0);
           (el, s) = on_world (eth_earliest_block (ne_engine env)) s;
           el_earliest_height = (case el of Inr (Some block) \<Rightarrow> eb_block_number block | _ \<Rightarrow> cl_earliest_height)
       in (Inr (get_history_min_height cl_earliest_height el_earliest_height cl_latest_height halt_height), s)))"

record 'sig raw_decided_value =
  rv_certificate :: "'sig commit_certificate"
  rv_value_bytes :: bytes

text \<open>
  \<open>encoded_len\<close> is the length of the response that carries the one value, \<open>None\<close> if it has none.
  Pairing a payload with the certificate of another block is the failed assertion of \<open>DecidedBlock::new\<close>.
\<close>

definition get_raw_decided_value ::
  "('w, 'pk, 'cp, 'sig, 'ev, 'p, 'l) node_env \<Rightarrow> (height \<Rightarrow> 'sig raw_decided_value \<Rightarrow> u64 option) \<Rightarrow> exec_payload \<Rightarrow> height
     \<Rightarrow> 'w sys \<Rightarrow> (report + 'sig raw_decided_value \<times> u64) \<times> 'w sys" where
  "get_raw_decided_value env encoded_len execution_payload height s =
     and_then (read_db (get_certificate (ne_redb env) (ne_codec env) (Some height)) s) (\<lambda>stored s.
       (case stored of
          None \<Rightarrow> Inl (eyre ''No certificate found'')
        | Some stored \<Rightarrow>
            (case decided_block_new execution_payload (scc_certificate stored) of
               Inl e \<Rightarrow> Inl (Panicked ''Block hash does not match the commit certificate'')
             | Inr decided_block \<Rightarrow>
                 let raw_value = \<lparr>rv_certificate = dcb_certificate decided_block,
                                  rv_value_bytes = ne_ssz env (dcb_execution_payload decided_block)\<rparr>
                 in case encoded_len height raw_value of
                      None \<Rightarrow> Inl (eyre ''Failed to determine encoded length'')
                    | Some raw_bytes_len \<Rightarrow> Inr (raw_value, raw_bytes_len)), s))"

fun collect_decided_values ::
  "('w, 'pk, 'cp, 'sig, 'ev, 'p, 'l) node_env \<Rightarrow> (height \<Rightarrow> 'sig raw_decided_value \<Rightarrow> u64 option) \<Rightarrow> u64 \<Rightarrow> u64
     \<Rightarrow> (height \<times> exec_payload option) list \<Rightarrow> 'w sys \<Rightarrow> (report + 'sig raw_decided_value list) \<times> 'w sys" where
  "collect_decided_values env encoded_len max_response_size total_bytes [] s = (Inr [], s)"
| "collect_decided_values env encoded_len max_response_size total_bytes ((height, None) # rest) s =
     collect_decided_values env encoded_len max_response_size total_bytes rest s"
| "collect_decided_values env encoded_len max_response_size total_bytes ((height, Some execution_payload) # rest) s =
     (case get_raw_decided_value env encoded_len execution_payload height s of
        (Inl (Panicked m), s) \<Rightarrow> (Inl (Panicked m), s)
      | (Inl e, s) \<Rightarrow> collect_decided_values env encoded_len max_response_size total_bytes rest s
      | (Inr (raw_value, raw_bytes_len), s) \<Rightarrow>
          if max_response_size < raw_bytes_len \<or> max_response_size - raw_bytes_len < total_bytes then (Inr [], s)
          else and_then (collect_decided_values env encoded_len max_response_size (total_bytes + raw_bytes_len) rest s)
                 (\<lambda>values s. (Inr (raw_value # values), s)))"

definition get_decided_values ::
  "('w, 'pk, 'cp, 'sig, 'ev, 'p, 'l) node_env \<Rightarrow> (height \<Rightarrow> 'sig raw_decided_value \<Rightarrow> u64 option) \<Rightarrow> height \<times> height
     \<Rightarrow> height \<times> height \<Rightarrow> u64 \<Rightarrow> u64 \<Rightarrow> 'w sys \<Rightarrow> (report + 'sig raw_decided_value list) \<times> 'w sys" where
  "get_decided_values env encoded_len requested available batch_size max_response_size s =
     (case get_clamped_request_range (fst requested) (snd requested) (fst available) (snd available) batch_size of
        Inl e \<Rightarrow> (Inl e, s)
      | Inr None \<Rightarrow> (Inr [], s)
      | Inr (Some (start, end)) \<Rightarrow>
          let heights = map word_of_nat [unat start..<Suc (unat end)]
          in and_then (on_world (eth_execution_payloads (ne_engine env) heights) s) (\<lambda>execution_payloads s.
               collect_decided_values env encoded_len max_response_size 0 (zip heights execution_payloads) s))"

text \<open>An error of the spawned task is logged and answered with no values; a panic in it leaves the query unanswered.\<close>

definition get_decided_values_handle ::
  "('w, 'pk, 'cp, 'sig, 'ev, 'p, 'l) node_env \<Rightarrow> (height \<Rightarrow> 'sig raw_decided_value \<Rightarrow> u64 option) \<Rightarrow> bool \<Rightarrow> u64 \<Rightarrow> u64
     \<Rightarrow> height \<times> height \<Rightarrow> 'w sys \<Rightarrow> (report + 'sig raw_decided_value list option) \<times> 'w sys" where
  "get_decided_values_handle env encoded_len enabled batch_size max_response_size requested s =
     (if \<not> enabled then (Inr (Some []), s)
      else and_then (read_db (max_height (ne_redb env)) s) (\<lambda>latest s.
           and_then (read_db (min_height (ne_redb env)) s) (\<lambda>earliest s.
             let latest_height = (case latest of Some h \<Rightarrow> h | None \<Rightarrow> 0);
                 earliest_height = (case earliest of Some h \<Rightarrow> h | None \<Rightarrow> 0)
             in case get_decided_values env encoded_len requested (earliest_height, latest_height) batch_size
                    max_response_size s of
                  (Inl (Panicked m), s) \<Rightarrow> (Inr None, s)
                | (Inl e, s) \<Rightarrow> (Inr (Some []), s)
                | (Inr values, s) \<Rightarrow> (Inr (Some values), s))))"

definition get_block_to_restream ::
  "('w, 'pk, 'cp, 'sig, 'ev, 'p, 'l) node_env \<Rightarrow> height \<Rightarrow> block_hash \<Rightarrow> 'w sys
     \<Rightarrow> (report + 'sig consensus_block option) \<times> 'w sys" where
  "get_block_to_restream env height block_hash =
     read_db (get_undecided_block_by_height_and_block_hash (ne_redb env) (ne_codec env) height block_hash)"

text \<open>The messages to publish; a block without a signature is never signed anew.\<close>

definition restream_proposal ::
  "('w, 'pk, 'cp, 'sig, 'ev, 'p, 'l) node_env \<Rightarrow> bytes \<Rightarrow> 'sig consensus_block \<Rightarrow> report + 'sig part_message list" where
  "restream_proposal env stream_id block =
     (if cb_signature block = None then Inl (eyre ''Refusing to restream block without a signature'')
      else case prepare_stream (ne_ssz env) (codec_keccak256 (ne_codec env)) (ne_sign env) stream_id block of
        Inl e \<Rightarrow> Inl (eyre e)
      | Inr (stream_messages, _) \<Rightarrow> Inr stream_messages)"

definition restream_proposal_handle ::
  "('w, 'pk, 'cp, 'sig, 'ev, 'p, 'l) node_env \<Rightarrow> height \<Rightarrow> block_hash \<Rightarrow> ('w, 'pk, 'cp, 'sig, 'p, 'l) app_state
     \<Rightarrow> (report + 'sig part_message list) \<times> ('w, 'pk, 'cp, 'sig, 'p, 'l) app_state" where
  "restream_proposal_handle env height value_id st =
     and_then (on_sys (get_block_to_restream env height value_id) st) (\<lambda>found st.
       case found of
         None \<Rightarrow> (Inl (eyre ''No block found to restream''), st)
       | Some block \<Rightarrow>
           (case next_stream_id (cb_height block) (cb_round block) st of
              (None, st) \<Rightarrow> (Inl (Panicked ''round''), st)
            | (Some stream_id, st) \<Rightarrow> (restream_proposal env stream_id block, st)))"

section \<open>The messages of the consensus engine\<close>

text \<open>
  One message with the readings of the clocks made while it is handled. \<open>ConsensusReady\<close> is the
  start of the application and is treated with the handshake.
\<close>

datatype ('w, 'sig, 'ev, 'p) app_msg =
    StartedRound height round address int "u64 option"
  | GetValue height round "'w option" int
  | ReceivedProposalPart nat nat int "u64 option" 'p "'sig part_message"
  | Decided "'sig commit_certificate" nat
  | Finalized "'sig commit_certificate" "'ev stored_misbehavior_evidence option"
  | ProcessSyncedValue height round address bytes int
  | GetDecidedValues "height \<times> height"
  | GetHistoryMinHeight
  | RestreamProposal height block_hash
  | ExtendVote
  | VerifyVoteExtension

datatype ('pk, 'sig) app_reply =
    ReplyProposals "proposed_value list"
  | ReplyLocalValue "(height \<times> round \<times> block_hash \<times> 'sig part_message list) option"
  | ReplyProposal "proposed_value option"
  | ReplyCommitAck bool
  | ReplyNext "'pk next_action"
  | ReplySynced synced_value_outcome
  | ReplyDecidedValues "'sig raw_decided_value list option"
  | ReplyHeight height
  | ReplyRestreamed "'sig part_message list"
  | ReplyNoExtension
  | ReplyExtensionOk

record ('cp, 'sig) app_config =
  ac_decided :: "'cp decided_config"
  ac_max_pending :: nat
  ac_sync_enabled :: bool
  ac_batch_size :: u64
  ac_max_response_size :: u64
  ac_encoded_len :: "height \<Rightarrow> 'sig raw_decided_value \<Rightarrow> u64 option"

definition replying :: "('a \<Rightarrow> 'b) \<Rightarrow> (report + 'a) \<times> 's \<Rightarrow> (report + 'b) \<times> 's" where
  "replying f r = map_prod (map_sum id f) id r"

fun handle_consensus ::
  "('w, 'pk, 'cp, 'sig, 'ev, 'p::linorder, 'l) node_env \<Rightarrow> ('cp, 'sig) app_config \<Rightarrow> ('w, 'sig, 'ev, 'p) app_msg
     \<Rightarrow> ('w, 'pk, 'cp, 'sig, 'p, 'l) app_state
     \<Rightarrow> (report + ('pk, 'sig) app_reply) \<times> ('w, 'pk, 'cp, 'sig, 'p, 'l) app_state" where
  "handle_consensus env cfg (StartedRound height round proposer clock local_time) st =
     replying ReplyProposals (started_round_handle env height round proposer clock local_time st)"
| "handle_consensus env cfg (GetValue height round timeout clock) st =
     replying ReplyLocalValue (get_value_handle env height round timeout clock st)"
| "handle_consensus env cfg (ReceivedProposalPart now now' clock local_time from part) st =
     replying ReplyProposal
       (received_proposal_part_handle env (ac_max_pending cfg) now now' clock local_time from part st)"
| "handle_consensus env cfg (Decided certificate now) st =
     replying ReplyCommitAck (decided_handle env (ac_decided cfg) certificate now st)"
| "handle_consensus env cfg (Finalized certificate evidence) st =
     replying ReplyNext (finalized_handle env (ac_decided cfg) certificate evidence st)"
| "handle_consensus env cfg (ProcessSyncedValue height round proposer value_bytes clock) st =
     replying ReplySynced (process_synced_value_handle env height round proposer value_bytes clock st)"
| "handle_consensus env cfg (GetDecidedValues requested) st =
     replying ReplyDecidedValues (on_sys (get_decided_values_handle env (ac_encoded_len cfg) (ac_sync_enabled cfg)
       (ac_batch_size cfg) (ac_max_response_size cfg) requested) st)"
| "handle_consensus env cfg GetHistoryMinHeight st =
     replying ReplyHeight (on_sys (get_history_min_height_handle env (dc_halt_height (ac_decided cfg))) st)"
| "handle_consensus env cfg (RestreamProposal height value_id) st =
     replying ReplyRestreamed (restream_proposal_handle env height value_id st)"
| "handle_consensus env cfg ExtendVote st = (Inr ReplyNoExtension, st)"
| "handle_consensus env cfg VerifyVoteExtension st = (Inr ReplyExtensionOk, st)"

end
