(* ===== verification/App_Safety.thy ===== *)
theory App_Safety
  imports App_Decisions Store_Safety
begin

text \<open>
  What the consensus application guarantees: the decided blocks form a chain whatever messages the
  consensus engine sends, a decision is recorded only for a block that was judged valid, and a
  vote for a value is justified by the binding rules, the execution client and the clock.
\<close>

section \<open>The decided chain\<close>

definition decided_at :: "('sig, 'ev) store_codec \<Rightarrow> tables \<Rightarrow> height \<Rightarrow> exec_payload option" where
  "decided_at codec db h =
     (case certificate_at codec db h of None \<Rightarrow> None | Some _ \<Rightarrow> payload_at codec db h)"

text \<open>Every decided block has the number of its height and extends the decided block below it.\<close>

definition chain_linked :: "('sig, 'ev) store_codec \<Rightarrow> tables \<Rightarrow> bool" where
  "chain_linked codec db \<longleftrightarrow>
     (\<forall>h p. decided_at codec db h = Some p \<longrightarrow> pl_block_number p = h)
     \<and> (\<forall>h h' p p'. unat h' = unat h + 1 \<and> decided_at codec db h = Some p \<and> decided_at codec db h' = Some p'
          \<longrightarrow> pl_parent_hash p' = pl_block_hash p)"

text \<open>
  Nothing is decided above the current height; the previous block and a pending decision are the
  decided blocks they stand for.
\<close>

definition position_ok :: "('sig, 'ev) store_codec \<Rightarrow> ('w, 'pk, 'cp, 'sig, 'p, 'l) app_state \<Rightarrow> bool" where
  "position_ok codec st \<longleftrightarrow>
     (\<forall>h. as_current_height st < h \<longrightarrow> decided_at codec (as_store st) h = None)
     \<and> (\<forall>h p. unat h + 1 = unat (as_current_height st) \<and> decided_at codec (as_store st) h = Some p \<longrightarrow>
          (\<exists>b. as_previous_block st = Some b \<and> eb_block_hash b = pl_block_hash p \<and> eb_block_number b = h))
     \<and> (\<forall>info. as_decision st = Some (Success info) \<longrightarrow>
          unat (nh_next_height info) = unat (as_current_height st) + 1
          \<and> eb_block_number (nh_decided_block info) = as_current_height st
          \<and> (\<forall>p. decided_at codec (as_store st) (as_current_height st) = Some p \<longrightarrow>
               eb_block_hash (nh_decided_block info) = pl_block_hash p))"

definition app_inv :: "('sig, 'ev) store_codec \<Rightarrow> ('w, 'pk, 'cp, 'sig, 'p, 'l) app_state \<Rightarrow> bool" where
  "app_inv codec st \<longleftrightarrow> store_inv codec (as_store st) \<and> chain_linked codec (as_store st) \<and> position_ok codec st"

section \<open>Quiet operations\<close>

text \<open>An operation that keeps the database sound and adds no decided block.\<close>

definition quiet :: "('sig, 'ev) store_codec \<Rightarrow> tables \<Rightarrow> tables \<Rightarrow> bool" where
  "quiet codec db db' \<longleftrightarrow>
     (store_inv codec db \<longrightarrow>
       store_inv codec db' \<and> (\<forall>h p. decided_at codec db' h = Some p \<longrightarrow> decided_at codec db h = Some p))"

named_theorems quiet_intros

lemma quiet_refl [quiet_intros]: "quiet codec db db"
  by (simp add: quiet_def)

lemma quiet_trans: "quiet codec a b \<Longrightarrow> quiet codec b c \<Longrightarrow> quiet codec a c"
  by (simp add: quiet_def)

lemma quiet_chain: "quiet codec db db' \<Longrightarrow> store_inv codec db \<Longrightarrow> chain_linked codec db \<Longrightarrow> chain_linked codec db'"
  unfolding quiet_def chain_linked_def by blast

lemma decided_at_sub:
  "sub_tables_of db' db \<Longrightarrow> decided_at codec db' h = Some p \<Longrightarrow> decided_at codec db h = Some p"
  by (auto simp: decided_at_def sub_tables_of_def split: option.splits dest: certificate_at_sub payload_at_sub)

lemma decided_at_cong:
  "certificates db' = certificates db \<Longrightarrow> decided_blocks db' = decided_blocks db \<Longrightarrow> decided_at codec db' h = decided_at codec db h"
  by (simp add: decided_at_def certificate_at_def payload_at_def split: option.splits)

lemma other_operations_decided_blocks:
  "decided_blocks (store_step codec db (env, StoreEvidence e)) = decided_blocks db"
  "decided_blocks (store_step codec db (env, StoreMonitor pm)) = decided_blocks db"
  "decided_blocks (store_step codec db (env, AppendInvalid i)) = decided_blocks db"
  "decided_blocks (store_step codec db (env, StoreUndecided k)) = decided_blocks db"
  "decided_blocks (store_step codec db (env, StorePending p n h)) = decided_blocks db"
  "decided_blocks (store_step codec db (env, RemovePendingStoreUndecided p k)) = decided_blocks db"
  "decided_blocks (store_step codec db (env, EnforcePendingLimit n h)) = decided_blocks db"
  "decided_blocks (store_step codec db (env, CleanStale h)) = decided_blocks db"
  by (auto simp: insert_misbehavior_evidence_def insert_proposal_monitor_data_def
      append_invalid_payload_def store_undecided_block_def insert_pending_proposal_parts_def insert_undecided_block_def
      remove_pending_parts_and_store_undecided_block_def remove_pending_proposal_parts_def enforce_pending_proposals_limit_def
      clean_stale_consensus_data_def bind_result_def Let_def
      intro!: write_tx_inv [of "\<lambda>d. decided_blocks d = decided_blocks db"]
      split: sum.splits option.splits if_splits)

lemma quiet_same:
  assumes "store_codec_laws codec" and "certificates (store_step codec db (env, cmd)) = certificates db"
    and "decided_blocks (store_step codec db (env, cmd)) = decided_blocks db"
  shows "quiet codec db (store_step codec db (env, cmd))"
  by (simp add: quiet_def store_step_inv [OF assms(1)] decided_at_cong [OF assms(2,3)])

lemma quiet_prune:
  assumes "store_codec_laws codec"
  shows "quiet codec db (snd (prune_height_table_batch env retain t db))"
  unfolding quiet_def
proof
  assume inv: "store_inv codec db"
  have "sub_tables_of (snd (prune_height_table_batch env retain t db)) db"
    using prune_batch_sub [OF inv] by (metis prod.collapse)
  then show "store_inv codec (snd (prune_height_table_batch env retain t db)) \<and>
      (\<forall>h p. decided_at codec (snd (prune_height_table_batch env retain t db)) h = Some p \<longrightarrow> decided_at codec db h = Some p)"
    using store_inv_sub [OF inv] decided_at_sub by blast
qed

lemma quiet_extend:
  assumes laws: "store_codec_laws codec"
  shows "quiet codec db (snd (extend_certificate env codec c db))"
  unfolding quiet_def
proof
  assume inv: "store_inv codec db"
  obtain r db' where run: "extend_certificate env codec c db = (r, db')" by fastforce
  show "store_inv codec (snd (extend_certificate env codec c db)) \<and>
      (\<forall>h p. decided_at codec (snd (extend_certificate env codec c db)) h = Some p \<longrightarrow> decided_at codec db h = Some p)"
  proof (cases r)
    case (Inl e)
    then have "db' = db" using run unfolding extend_certificate_def by (elim write_tx_cases) auto
    then show ?thesis using run inv by simp
  next
    case (Inr u)
    then have ok: "extend_certificate env codec c db = (Inr (), db')" using run by simp
    from store_inv_extend_certificate(2) [OF laws inv ok] obtain old
      where old: "certificate_at codec db (cc_height c) = Some old"
        and rest: "\<forall>h. h \<noteq> cc_height c \<longrightarrow> certificate_at codec db' h = certificate_at codec db h"
          "\<forall>h. payload_at codec db' h = payload_at codec db h" by blast
    have "decided_at codec db h = Some p" if "decided_at codec db' h = Some p" for h p
      using that old rest by (cases "h = cc_height c") (auto simp: decided_at_def split: option.splits)
    then show ?thesis using run store_inv_extend_certificate(1) [OF laws inv ok] by simp
  qed
qed

text \<open>The database part of every operation the handlers use.\<close>

lemma quiet_operations [quiet_intros]:
  assumes "store_codec_laws codec"
  shows "quiet codec db (snd (insert_misbehavior_evidence env codec e db))"
    "quiet codec db (snd (insert_proposal_monitor_data env codec pm db))"
    "quiet codec db (snd (append_invalid_payload env codec i db))"
    "quiet codec db (snd (store_undecided_block env codec k db))"
    "quiet codec db (snd (insert_pending_proposal_parts env codec p n h db))"
    "quiet codec db (snd (remove_pending_parts_and_store_undecided_block env codec p k db))"
    "quiet codec db (snd (enforce_pending_proposals_limit env n h db))"
    "quiet codec db (snd (clean_stale_consensus_data env h db))"
    "quiet codec db (snd (extend_certificate env codec c db))"
    "quiet codec db (snd (prune_blocks env db))"
proof -
  note same = quiet_same [OF assms]
  note eqs = other_operations_certificates [unfolded store_step.simps]
    other_operations_decided_blocks [unfolded store_step.simps]
  show "quiet codec db (snd (insert_misbehavior_evidence env codec e db))"
    using same [of db env "StoreEvidence e"] by (simp add: eqs)
  show "quiet codec db (snd (insert_proposal_monitor_data env codec pm db))"
    using same [of db env "StoreMonitor pm"] by (simp add: eqs)
  show "quiet codec db (snd (append_invalid_payload env codec i db))"
    using same [of db env "AppendInvalid i"] by (simp add: eqs)
  show "quiet codec db (snd (store_undecided_block env codec k db))"
    using same [of db env "StoreUndecided k"] by (simp add: eqs)
  show "quiet codec db (snd (insert_pending_proposal_parts env codec p n h db))"
    using same [of db env "StorePending p n h"] by (simp add: eqs)
  show "quiet codec db (snd (remove_pending_parts_and_store_undecided_block env codec p k db))"
    using same [of db env "RemovePendingStoreUndecided p k"] by (simp add: eqs)
  show "quiet codec db (snd (enforce_pending_proposals_limit env n h db))"
    using same [of db env "EnforcePendingLimit n h"] by (simp add: eqs)
  show "quiet codec db (snd (clean_stale_consensus_data env h db))"
    using same [of db env "CleanStale h"] by (simp add: eqs)
  show "quiet codec db (snd (extend_certificate env codec c db))" by (rule quiet_extend [OF assms])
  show "quiet codec db (snd (prune_blocks env db))"
    by (auto simp: prune_blocks_def and_then_def Let_def intro: quiet_refl quiet_prune [OF assms]
        split: prod.splits sum.splits)
qed

section \<open>Quiet handlers\<close>

text \<open>The database after a computation, and the rules that follow its structure.\<close>

abbreviation db_of :: "'r \<times> 'w sys \<Rightarrow> tables" where
  "db_of m \<equiv> fst (snd m)"

lemma quiet_and_then [quiet_intros]:
  assumes "quiet codec db (db_of m)" and "\<And>a s. quiet codec (fst s) (db_of (k a s))"
  shows "quiet codec db (db_of (and_then m k))"
proof -
  obtain r s where m: "m = (r, s)" by (rule prod.exhaust)
  show ?thesis using assms(1) quiet_trans [OF _ assms(2)] unfolding m by (cases r) auto
qed

lemma on_db_db [simp]: "db_of (on_db f s) = snd (f (fst s))"
  by (simp add: on_db_def Let_def split: prod.splits)

lemma read_db_db [simp]: "db_of (read_db f s) = fst s"
  by (simp add: read_db_def)

lemma on_world_db [simp]: "db_of (on_world f s) = fst s"
  by (simp add: on_world_def split: prod.splits)

lemma quiet_on_db [quiet_intros]: "quiet codec (fst s) (snd (f (fst s))) \<Longrightarrow> quiet codec (fst s) (db_of (on_db f s))"
  by simp

lemma quiet_read_db [quiet_intros]: "quiet codec (fst s) (db_of (read_db f s))"
  by (simp add: quiet_refl)

lemma quiet_on_world [quiet_intros]: "quiet codec (fst s) (db_of (on_world f s))"
  by (simp add: quiet_refl)

lemma quiet_persist [quiet_intros]:
  "store_codec_laws (ne_codec env) \<Longrightarrow> quiet (ne_codec env) (fst s) (fst (persist_invalid_payload_best_effort env i s))"
  by (simp add: persist_invalid_payload_best_effort_def quiet_operations)

lemma quiet_validate_consensus_block [quiet_intros]:
  "store_codec_laws (ne_codec env) \<Longrightarrow> quiet (ne_codec env) (fst s) (db_of (validate_consensus_block env b s))"
  unfolding validate_consensus_block_def
  by (intro quiet_intros) (auto intro: quiet_intros split: payload_validation_result.splits)

lemma quiet_establish [quiet_intros]:
  "store_codec_laws (ne_codec env) \<Longrightarrow> quiet (ne_codec env) (fst s) (db_of (establish_block_validity env b prev s))"
  unfolding establish_block_validity_def by (auto intro!: quiet_intros split: sum.splits)

lemma quiet_maybe_store_pending [quiet_intros]:
  "store_codec_laws (ne_codec env) \<Longrightarrow> quiet (ne_codec env) (fst s) (db_of (maybe_store_pending_proposal env h n parts s))"
  unfolding maybe_store_pending_proposal_def by (auto intro!: quiet_intros split: option.splits)

lemma quiet_process_proposal_parts [quiet_intros]:
  "store_codec_laws (ne_codec env) \<Longrightarrow> quiet (ne_codec env) (fst s) (db_of (process_proposal_parts env h r vs n parts s))"
  unfolding process_proposal_parts_def by (auto intro!: quiet_intros split: option.splits sum.splits)

lemma quiet_validate_block [quiet_intros]:
  "store_codec_laws (ne_codec env) \<Longrightarrow> quiet (ne_codec env) (fst s) (db_of (validate_block env b prev s))"
  unfolding validate_block_def by (auto intro!: quiet_intros)

lemma quiet_handle_complete_parts [quiet_intros]:
  "store_codec_laws (ne_codec env) \<Longrightarrow>
     quiet (ne_codec env) (fst s) (db_of (handle_complete_parts env h r vs n prev t parts s))"
  unfolding handle_complete_parts_def
  by (intro quiet_intros) (auto simp: Let_def intro!: quiet_intros split: parts_outcome.splits)

lemma quiet_process_pending [quiet_intros]:
  "store_codec_laws (ne_codec env) \<Longrightarrow>
     quiet (ne_codec env) (fst s) (db_of (process_pending_proposal_parts env vs prev ps s))"
proof (induction ps arbitrary: s)
  case (Cons p ps)
  note IH = Cons.IH [OF Cons.prems]
  have persist: "quiet (ne_codec env) (fst s)
      (db_of (process_pending_proposal_parts env vs prev ps (persist_invalid_payload_best_effort env i s)))" for i
    by (rule quiet_trans [OF quiet_persist [OF Cons.prems] IH])
  have after: "quiet (ne_codec env) (fst s) (db_of (process_pending_proposal_parts env vs prev ps s'))"
      "quiet (ne_codec env) (fst s) (fst s')"
      "quiet (ne_codec env) (fst s) (db_of (and_then (on_db (remove_pending_parts_and_store_undecided_block (ne_redb env)
         (ne_codec env) p b') s') (\<lambda>_ s. process_pending_proposal_parts env vs prev ps s)))"
    if "establish_block_validity env b prev s = (r, s')" for b r s' b'
  proof -
    show first: "quiet (ne_codec env) (fst s) (fst s')"
      using quiet_establish [OF Cons.prems, of s b prev] that by simp
    show "quiet (ne_codec env) (fst s) (db_of (process_pending_proposal_parts env vs prev ps s'))"
      by (rule quiet_trans [OF first IH])
    show "quiet (ne_codec env) (fst s) (db_of (and_then (on_db (remove_pending_parts_and_store_undecided_block (ne_redb env)
         (ne_codec env) p b') s') (\<lambda>_ s. process_pending_proposal_parts env vs prev ps s)))"
      by (rule quiet_trans [OF first]) (intro quiet_intros Cons.prems IH)
  qed
  show ?case
    using IH persist after by (auto intro: quiet_refl split: option.splits sum.splits prod.splits report.splits)
qed (simp add: quiet_refl)

lemma quiet_revalidate_block [quiet_intros]:
  assumes laws: "store_codec_laws (ne_codec env)"
  shows "quiet (ne_codec env) (fst s) (db_of (revalidate_block env prev b s))"
proof -
  have store: "quiet (ne_codec env) db (snd (store_undecided_block (ne_redb env) (ne_codec env) k db))" for db k
    by (rule quiet_operations(4) [OF laws])
  have persist: "quiet (ne_codec env) (fst s) (db_of (and_then (on_db (store_undecided_block (ne_redb env) (ne_codec env) k)
      (persist_invalid_payload_best_effort env i s)) (\<lambda>_ s. (Inr k, s))))" for i k
    by (rule quiet_trans [OF quiet_persist [OF laws, where s = s and i = i]])
      (intro quiet_intros laws, simp add: quiet_refl)
  have engine: "quiet (ne_codec env) (fst s) (fst s')" if "validate_consensus_block env b s = (r, s')" for r s'
    using quiet_validate_consensus_block [OF laws, of s b] that by simp
  have again: "quiet (ne_codec env) (fst s) (db_of (and_then (on_db (store_undecided_block (ne_redb env) (ne_codec env) k) s')
      (\<lambda>_ s. (Inr k, s))))" if "validate_consensus_block env b s = (r, s')" for r s' k
    by (rule quiet_trans [OF engine [OF that]]) (intro quiet_intros laws, simp add: quiet_refl)
  show ?thesis
    unfolding revalidate_block_def using persist engine again
    by (auto simp: Let_def quiet_refl split: sum.splits prod.splits report.splits)
qed

lemma quiet_revalidate_blocks [quiet_intros]:
  "store_codec_laws (ne_codec env) \<Longrightarrow> quiet (ne_codec env) (fst s) (db_of (revalidate_blocks env prev bs s))"
  by (induction bs arbitrary: s) (auto intro!: quiet_intros)

lemma quiet_fetch_and_process [quiet_intros]:
  "store_codec_laws (ne_codec env) \<Longrightarrow>
     quiet (ne_codec env) (fst s) (db_of (fetch_and_process_pending_proposals env h r vs prev t s))"
  unfolding fetch_and_process_pending_proposals_def validate_undecided_blocks_def
  by (intro quiet_intros) (simp_all add: quiet_refl)

lemma quiet_on_process_synced_value [quiet_intros]:
  assumes laws: "store_codec_laws (ne_codec env)"
  shows "quiet (ne_codec env) (fst s) (db_of (on_process_synced_value env h r a bs prev s))"
  unfolding on_process_synced_value_def Let_def
  by (auto intro!: quiet_intros laws quiet_operations [OF laws] split: sum.splits option.splits block_verdict.splits)

lemma quiet_get_previously_built_block [quiet_intros]:
  "quiet codec (fst s) (db_of (get_previously_built_block env a h r s))"
  unfolding get_previously_built_block_def by (intro quiet_intros) (simp add: quiet_refl)

lemma quiet_build_and_validate_block [quiet_intros]:
  assumes laws: "store_codec_laws (ne_codec env)"
  shows "quiet (ne_codec env) (fst s) (db_of (build_and_validate_block env h r a prev fee s))"
  unfolding build_and_validate_block_def build_block_def
  by (auto intro!: quiet_intros laws quiet_validate_consensus_block [where s = "(d, w)" for d w, simplified fst_conv]
      split: sum.splits)

lemma quiet_on_get_value [quiet_intros]:
  assumes laws: "store_codec_laws (ne_codec env)"
  shows "quiet (ne_codec env) (fst s) (db_of (on_get_value env h r a prev fee sid timeout s))"
  unfolding on_get_value_def
  by (intro quiet_intros)
    (auto intro!: quiet_intros laws quiet_operations [OF laws] split: sum.splits option.splits)

lemma quiet_history [quiet_intros]:
  "quiet codec (fst s) (db_of (get_history_min_height_handle env halt s))"
  unfolding get_history_min_height_handle_def by (intro quiet_intros) (auto simp: Let_def quiet_refl on_world_def split: prod.splits)

lemma get_raw_decided_value_db: "db_of (get_raw_decided_value env len p h s) = fst s"
  by (auto simp: get_raw_decided_value_def and_then_def read_db_def on_db_def Let_def split: prod.splits sum.splits)

lemma collect_decided_values_db: "db_of (collect_decided_values env len mx tot rows s) = fst s"
proof (induction rows arbitrary: tot s)
  case (Cons row rows)
  obtain h p where row: "row = (h, p)" by (rule prod.exhaust)
  show ?case
  proof (cases p)
    case (Some payload)
    obtain r s' where run: "get_raw_decided_value env len payload h s = (r, s')" by (rule prod.exhaust)
    have same: "fst s' = fst s" using get_raw_decided_value_db [of env len payload h s] run by simp
    have rest: "db_of (and_then (collect_decided_values env len mx t rows s') (\<lambda>vs s. (Inr (x # vs), s))) = fst s" for t x
      using Cons [of t s'] same by (auto simp: and_then_def split: prod.splits sum.splits)
    show ?thesis
      using run same rest Cons [of _ s'] by (auto simp: row Some split: sum.splits report.splits)
  qed (simp add: row Cons)
qed simp

lemma quiet_get_decided_values [quiet_intros]:
  "quiet codec (fst s) (db_of (get_decided_values env len requested available batch mx s))"
  unfolding get_decided_values_def
  by (auto simp: quiet_refl collect_decided_values_db Let_def intro!: quiet_and_then split: sum.splits option.splits)

lemma quiet_get_decided_values_handle [quiet_intros]:
  "quiet codec (fst s) (db_of (get_decided_values_handle env len on batch mx requested s))"
proof -
  have "quiet codec (fst s) (fst s')" if "get_decided_values env len requested available batch mx s = (r, s')" for s s' r available
    using quiet_get_decided_values [of codec s env len requested available batch mx] that by simp
  then show ?thesis
    unfolding get_decided_values_handle_def
    by (auto simp: quiet_refl Let_def intro!: quiet_intros split: prod.splits sum.splits report.splits)
qed

section \<open>Steady handlers\<close>

text \<open>A step that is quiet on the database and leaves the position of the node as it is.\<close>

definition steady ::
  "('sig, 'ev) store_codec \<Rightarrow> ('w, 'pk, 'cp, 'sig, 'p, 'l) app_state \<Rightarrow> ('w, 'pk, 'cp, 'sig, 'p, 'l) app_state \<Rightarrow> bool" where
  "steady codec st st' \<longleftrightarrow>
     quiet codec (as_store st) (as_store st') \<and> as_current_height st' = as_current_height st
     \<and> as_previous_block st' = as_previous_block st \<and> as_decision st' = as_decision st"

lemma steady_refl: "steady codec st st"
  by (simp add: steady_def quiet_refl)

lemma steady_trans: "steady codec a b \<Longrightarrow> steady codec b c \<Longrightarrow> steady codec a c"
  by (auto simp: steady_def intro: quiet_trans)

lemma steady_app_inv: "steady codec st st' \<Longrightarrow> app_inv codec st \<Longrightarrow> app_inv codec st'"
  unfolding app_inv_def
proof (intro conjI)
  assume steady: "steady codec st st'" and inv: "store_inv codec (as_store st) \<and> chain_linked codec (as_store st) \<and> position_ok codec st"
  then have q: "quiet codec (as_store st) (as_store st')" by (simp add: steady_def)
  then have shrink: "\<And>h p. decided_at codec (as_store st') h = Some p \<Longrightarrow> decided_at codec (as_store st) h = Some p"
    using inv unfolding quiet_def by blast
  show "store_inv codec (as_store st')" using q inv by (simp add: quiet_def)
  show "chain_linked codec (as_store st')" using quiet_chain [OF q] inv by blast
  have none: "\<And>h. decided_at codec (as_store st) h = None \<Longrightarrow> decided_at codec (as_store st') h = None"
    using shrink by (metis not_None_eq option.distinct(1))
  have "as_current_height st' = as_current_height st" "as_previous_block st' = as_previous_block st"
    "as_decision st' = as_decision st" using steady by (simp_all add: steady_def)
  then show "position_ok codec st'" using inv shrink none unfolding position_ok_def by simp
qed

abbreviation state_of :: "'r \<times> ('w, 'pk, 'cp, 'sig, 'p, 'l) app_state \<Rightarrow> ('w, 'pk, 'cp, 'sig, 'p, 'l) app_state" where
  "state_of m \<equiv> snd m"

lemma steady_and_then:
  assumes "steady codec st (state_of m)" and "\<And>a s. steady codec s (state_of (k a s))"
  shows "steady codec st (state_of (and_then m k))"
proof -
  obtain r s where m: "m = (r, s)" by (rule prod.exhaust)
  show ?thesis using assms(1) steady_trans [OF _ assms(2)] unfolding m by (cases r) auto
qed

lemma steady_on_sys:
  assumes "\<And>s. quiet codec (fst s) (db_of (f s))"
  shows "steady codec st (state_of (on_sys f st))"
  using assms [of "(as_store st, as_world st)"] by (auto simp: on_sys_def steady_def split: prod.splits)

lemma steady_replying: "steady codec st (state_of m) \<Longrightarrow> steady codec st (state_of (replying f m))"
  by (simp add: replying_def)

lemma steady_mark_height_synced: "steady codec st st' \<Longrightarrow> steady codec st (mark_height_synced h t st')"
  by (simp add: steady_def mark_height_synced_def split: prod.splits)

lemma steady_started_height:
  "started_height env h r a t st = Inr st' \<Longrightarrow> steady codec st st'"
  by (auto simp: started_height_def init_proposal_monitor_def Let_def steady_def quiet_refl split: if_splits)

lemma steady_on_started_round:
  assumes laws: "store_codec_laws (ne_codec env)"
  shows "steady (ne_codec env) st (state_of (on_started_round env h r a t lt st))"
proof -
  have fetch: "steady (ne_codec env) st1 (state_of (and_then (on_sys (fetch_and_process_pending_proposals env h r vs prev lt)
      (st1\<lparr>as_current_round := r, as_current_proposer := Some a\<rparr>)) (\<lambda>ps st. (Inr ps, st\<lparr>as_proposal_monitor := g ps st\<rparr>))))"
    for st1 vs prev and g :: "proposed_value list \<Rightarrow> _ \<Rightarrow> _"
  proof (rule steady_trans)
    show "steady (ne_codec env) st1 (st1\<lparr>as_current_round := r, as_current_proposer := Some a\<rparr>)"
      by (simp add: steady_def quiet_refl)
    show "steady (ne_codec env) (st1\<lparr>as_current_round := r, as_current_proposer := Some a\<rparr>) (state_of (and_then
        (on_sys (fetch_and_process_pending_proposals env h r vs prev lt)
          (st1\<lparr>as_current_round := r, as_current_proposer := Some a\<rparr>)) (\<lambda>ps st. (Inr ps, st\<lparr>as_proposal_monitor := g ps st\<rparr>))))"
      by (intro steady_and_then steady_on_sys quiet_fetch_and_process laws) (simp add: steady_def quiet_refl)
  qed
  have start: "steady (ne_codec env) st st1"
    if "(if round_as_i64 r = 0 then started_height env h r a t st else Inr st) = Inr st1" for st1
    using that steady_started_height steady_refl by (auto split: if_splits)
  show ?thesis
    unfolding on_started_round_def
    using steady_trans [OF start fetch] start steady_refl by (auto split: sum.splits option.splits)
qed

lemma steady_started_round_handle:
  assumes laws: "store_codec_laws (ne_codec env)"
  shows "steady (ne_codec env) st (state_of (started_round_handle env h r a t lt st))"
  using steady_on_started_round [OF laws, of st h r a t lt]
  by (auto simp: started_round_handle_def split: prod.splits sum.splits report.splits)

lemma steady_next_stream_id: "next_stream_id h r st = (sid, st') \<Longrightarrow> steady codec st st'"
  by (auto simp: next_stream_id_def steady_def quiet_refl)

lemma steady_get_value_handle:
  assumes laws: "store_codec_laws (ne_codec env)"
  shows "steady (ne_codec env) st (state_of (get_value_handle env h r timeout t st))"
proof -
  obtain sid st1 where next_id: "next_stream_id h r st = (sid, st1)" by (rule prod.exhaust)
  note steady_next_stream_id [OF this]
  moreover have "steady (ne_codec env) st1 (state_of (get_value_handle env h r timeout t st))"
    unfolding get_value_handle_def next_id
    by (cases sid) (auto intro!: steady_and_then steady_on_sys quiet_on_get_value laws simp: steady_refl,
        auto simp: steady_def quiet_refl split: option.splits)
  ultimately show ?thesis by (rule steady_trans)
qed

lemma steady_on_received_proposal_part:
  assumes laws: "store_codec_laws (ne_codec env)"
  shows "steady (ne_codec env) st (state_of (on_received_proposal_part env n now now' lt from part st))"
proof -
  have close: "steady (ne_codec env) st (st2\<lparr>as_streams := x\<rparr>)" "steady (ne_codec env) st st2"
    if "on_sys (handle_complete_parts env h r vs n prev lt parts) (st\<lparr>as_streams := y\<rparr>) = (res, st2)"
    for h r vs prev parts y res st2 x
  proof -
    have "steady (ne_codec env) (st\<lparr>as_streams := y\<rparr>) st2"
      using steady_on_sys [of "ne_codec env" "handle_complete_parts env h r vs n prev lt parts" "st\<lparr>as_streams := y\<rparr>"]
        quiet_handle_complete_parts [OF laws] that by simp
    then show "steady (ne_codec env) st (st2\<lparr>as_streams := x\<rparr>)" "steady (ne_codec env) st st2"
      by (simp_all add: steady_def)
  qed
  have idle: "steady (ne_codec env) st (st\<lparr>as_streams := y\<rparr>)" for y by (simp add: steady_def quiet_refl)
  show ?thesis
    unfolding on_received_proposal_part_def Let_def
    using close idle
    by (auto split: prod.splits insert_result.splits sum.splits report.splits disposition.splits)
qed

lemma steady_received_proposal_part_handle:
  assumes laws: "store_codec_laws (ne_codec env)"
  shows "steady (ne_codec env) st (state_of (received_proposal_part_handle env n now now' t lt from part st))"
proof -
  have upd: "steady (ne_codec env) st st1 \<Longrightarrow> steady (ne_codec env) st (st1\<lparr>as_proposal_monitor := m\<rparr>)"
    "steady (ne_codec env) st st1 \<Longrightarrow> steady (ne_codec env) st (record_early_pending_parts_time h t st1)" for st1 m h
    by (simp_all add: steady_def record_early_pending_parts_time_def)
  show ?thesis
    using steady_on_received_proposal_part [OF laws, of st n now now' lt "from" part] upd
    by (auto simp: received_proposal_part_handle_def split: prod.splits sum.splits report.splits received_part.splits)
qed

lemma steady_process_synced_value_handle:
  assumes laws: "store_codec_laws (ne_codec env)"
  shows "steady (ne_codec env) st (state_of (process_synced_value_handle env h r a bs t st))"
  using steady_on_sys [of "ne_codec env" "on_process_synced_value env h r a bs (as_previous_block st)" st]
    quiet_on_process_synced_value [OF laws]
  by (auto simp: process_synced_value_handle_def steady_mark_height_synced
      split: prod.splits sum.splits report.splits option.splits)

lemma steady_restream_proposal_handle: "steady codec st (state_of (restream_proposal_handle env h v st))"
  unfolding restream_proposal_handle_def get_block_to_restream_def
  by (intro steady_and_then steady_on_sys quiet_read_db)
    (auto simp: steady_refl intro: steady_next_stream_id split: option.splits prod.splits)

text \<open>Every message but the decision and its finalisation leaves the node where it is.\<close>

fun settles :: "('w, 'sig, 'ev, 'p) app_msg \<Rightarrow> bool" where
  "settles (Decided _ _) \<longleftrightarrow> True"
| "settles (Finalized _ _) \<longleftrightarrow> True"
| "settles _ \<longleftrightarrow> False"

lemma steady_handle_consensus:
  assumes laws: "store_codec_laws (ne_codec env)" and "\<not> settles msg"
  shows "steady (ne_codec env) st (state_of (handle_consensus env cfg msg st))"
  using assms(2)
  by (cases msg) (auto intro!: steady_replying steady_started_round_handle steady_get_value_handle
      steady_received_proposal_part_handle steady_process_synced_value_handle steady_restream_proposal_handle
      steady_on_sys quiet_history quiet_get_decided_values_handle steady_refl laws)

section \<open>Deciding\<close>

lemma quiet_service_prune:
  assumes laws: "store_codec_laws codec"
  shows "quiet codec db (snd (service_prune_historical_certs env config h db))"
proof -
  note prune = quiet_prune [OF laws]
  have "quiet codec db (snd (prune_invalid_payloads env k (snd (prune_misbehavior_evidence env k
      (snd (prune_proposal_monitor_data env k (snd (prune_historical_certs env k db))))))))" for k
    unfolding prune_historical_certs_def prune_proposal_monitor_data_def prune_misbehavior_evidence_def prune_invalid_payloads_def
    by (rule quiet_trans [OF prune quiet_trans [OF prune quiet_trans [OF prune prune]]])
  then show ?thesis
    by (simp add: service_prune_historical_certs_def Let_def case_prod_unfold quiet_refl)
qed

text \<open>A commit stores the block, acknowledged, or leaves the database untouched.\<close>

lemma commit_cases:
  assumes laws: "store_codec_laws (ne_codec env)" and run: "commit env config c b (db, w) = ((ack, r), (db', w'))"
  obtains (failed) e where "\<not> ack" and "r = Inl e" and "db' = db"
  | (stored) db1 where "ack"
      and "store_decided_block (ne_redb env) (ne_codec env) c (cb_payload b) (cb_proposer b) db = (Inr (), db1)"
      and "quiet (ne_codec env) db1 db'" and "\<forall>blk. r = Inr blk \<longrightarrow> blk = execution_block_of (cb_payload b)"
proof -
  obtain res db1 where st: "store_decided_block (ne_redb env) (ne_codec env) c (cb_payload b) (cb_proposer b) db = (res, db1)"
    by (rule prod.exhaust)
  show thesis
  proof (cases res)
    case (Inl e)
    then have "db1 = db" using st by (auto elim: store_decided_block_cases)
    then show thesis
      using run st Inl failed by (auto simp: commit_def on_db_def split: store_error.splits)
  next
    case (Inr u)
    let ?clean = "snd (clean_stale_consensus_data (ne_redb env) (cc_height c) db1)"
    obtain fr w1 where fin: "finalize_decided_block env (cb_payload b) w = (fr, w1)" by (rule prod.exhaust)
    have clean: "quiet (ne_codec env) db1 ?clean" by (rule quiet_operations(8) [OF laws])
    show thesis
    proof (cases fr)
      case (Inl e)
      then show thesis using run st Inr fin clean by (intro stored [of db1]) (auto simp: commit_def on_db_def on_world_def)
    next
      case out: (Inr v)
      then have v: "fst v = execution_block_of (cb_payload b)"
        using fin by (auto simp: finalize_decided_block_def elim!: and_then_eq_InrE)
      have "quiet (ne_codec env) db1 (snd (prune_blocks (ne_redb env)
          (snd (service_prune_historical_certs (ne_redb env) config (cc_height c) ?clean))))"
        by (rule quiet_trans [OF clean quiet_trans [OF quiet_service_prune [OF laws] quiet_operations(10) [OF laws]]])
      then show thesis
        using run st Inr fin out v
        by (intro stored [of db1]) (auto simp: commit_def on_db_def on_world_def Let_def split: prod.splits)
    qed
  qed
qed

text \<open>What is committed was found under the certificate's value, bound to the chain and judged valid.\<close>

lemma decide_cases:
  assumes laws: "store_codec_laws (ne_codec env)" and run: "decide env config c prev (db, w) = ((ack, r), (db', w'))"
  obtains (refused) e where "\<not> ack" and "r = Inl e" and "db' = db"
  | (committed) b db1 where "ack"
      and "get_undecided_block_by_height_and_block_hash (ne_redb env) (ne_codec env) (cc_height c) (cc_value_id c) db = Inr (Some b)"
      and "check_payload_binding (cb_payload b) (cc_height c) prev = Inr ()" and "cb_validity b = Valid"
      and "store_decided_block (ne_redb env) (ne_codec env) c (cb_payload b) (cb_proposer b) db = (Inr (), db1)"
      and "quiet (ne_codec env) db1 db'" and "\<forall>blk. r = Inr blk \<longrightarrow> blk = execution_block_of (cb_payload b)"
proof (cases "get_undecided_block_by_height_and_block_hash (ne_redb env) (ne_codec env) (cc_height c) (cc_value_id c) db")
  case (Inl e)
  then show thesis using run refused
    by (auto simp: decide_def read_db_def on_db_def split: store_error.splits)
next
  case found: (Inr ob)
  show thesis
  proof (cases ob)
    case None
    then show thesis using run found refused by (auto simp: decide_def read_db_def on_db_def)
  next
    case (Some b)
    show thesis
    proof (cases "check_payload_binding (cb_payload b) (cc_height c) prev = Inr () \<and> is_valid (cb_validity b)")
      case True
      then have "commit env config c b (db, w) = ((ack, r), (db', w'))"
        using run found Some by (simp add: decide_def read_db_def on_db_def)
      with laws show thesis
      proof (cases rule: commit_cases)
        case (failed e)
        then show thesis by (rule refused)
      next
        case (stored db1)
        have "cb_validity b = Valid" using True by (simp add: is_valid_def)
        then show thesis using True found Some stored by (intro committed [of b db1]) simp_all
      qed
    next
      case False
      then show thesis using run found Some refused
        by (auto simp: decide_def read_db_def on_db_def split: sum.splits if_splits)
    qed
  qed
qed

text \<open>Storing the block of the current height extends the chain.\<close>

lemma decided_at_stored:
  assumes laws: "store_codec_laws codec" and inv: "store_inv codec db"
    and run: "store_decided_block env codec c p proposer db = (Inr (), db1)"
  shows "store_inv codec db1" and "pl_block_hash p = cc_value_id c"
    and "decided_at codec db1 h = (if h = cc_height c then Some p else decided_at codec db h)"
proof -
  from run have "insert_decided_block env codec \<lparr>dcb_execution_payload = p, dcb_certificate = c\<rparr> proposer db = (Inr (), db1)"
    and match: "pl_block_hash p = cc_value_id c"
    by (auto elim: store_decided_block_cases)
  note ins = this(1)
  show "pl_block_hash p = cc_value_id c" by (fact match)
  show "store_inv codec db1" by (rule store_inv_insert_decided_block [OF laws inv _ ins]) (simp add: match)
  show "decided_at codec db1 h = (if h = cc_height c then Some p else decided_at codec db h)"
    using insert_decided_block_eq [OF laws inv ins] by (simp add: decided_at_def split: option.splits)
qed

lemma chain_linked_stored:
  assumes laws: "store_codec_laws codec" and inv: "app_inv codec st" and height: "cc_height c = as_current_height st"
    and bound: "check_payload_binding p (cc_height c) (as_previous_block st) = Inr ()"
    and run: "store_decided_block env codec c p proposer (as_store st) = (Inr (), db1)"
  shows "chain_linked codec db1"
proof -
  let ?H = "as_current_height st"
  have sound: "store_inv codec (as_store st)" and chain: "chain_linked codec (as_store st)" and pos: "position_ok codec st"
    using inv by (simp_all add: app_inv_def)
  note at = decided_at_stored(3) [OF laws sound run]
  have number: "pl_block_number p = ?H" using bound height by (simp add: check_payload_binding_Inr)
  have parent: "pl_parent_hash p = pl_block_hash q" if below: "unat h + 1 = unat ?H" "decided_at codec (as_store st) h = Some q" for h q
  proof -
    obtain b where b: "as_previous_block st = Some b" "eb_block_hash b = pl_block_hash q" "eb_block_number b = h"
      using pos below unfolding position_ok_def by blast
    moreover have "checked_add h 1 = Some ?H" using below(1) by (simp add: checked_add_iff)
    ultimately show ?thesis using bound height by (auto simp: check_payload_binding_Inr)
  qed
  have above: "decided_at codec (as_store st) h = None" if "unat h = unat ?H + 1" for h
    using pos that unfolding position_ok_def by (simp add: word_less_nat_alt)
  show ?thesis
    unfolding chain_linked_def at height
  proof (intro conjI allI impI)
    fix h q assume "(if h = ?H then Some p else decided_at codec (as_store st) h) = Some q"
    then show "pl_block_number q = h" using number chain by (auto simp: chain_linked_def split: if_splits)
  next
    fix h h' q q'
    assume "unat h' = unat h + 1 \<and> (if h = ?H then Some p else decided_at codec (as_store st) h) = Some q
      \<and> (if h' = ?H then Some p else decided_at codec (as_store st) h') = Some q'"
    then have succ: "unat h' = unat h + 1" and low: "(if h = ?H then Some p else decided_at codec (as_store st) h) = Some q"
      and high: "(if h' = ?H then Some p else decided_at codec (as_store st) h') = Some q'" by blast+
    show "pl_parent_hash q' = pl_block_hash q"
    proof (cases "h = ?H")
      case True
      then show ?thesis using above [of h'] succ high by (auto split: if_splits)
    next
      case False
      show ?thesis
      proof (cases "h' = ?H")
        case True
        then show ?thesis using parent [of h q] succ low high False by simp
      next
        case other: False
        then show ?thesis using chain succ low high False unfolding chain_linked_def by auto
      qed
    qed
  qed
qed

lemma app_inv_decide:
  assumes laws: "store_codec_laws (ne_codec env)" and inv: "app_inv (ne_codec env) st"
    and height: "cc_height c = as_current_height st"
    and run: "decide env config c (as_previous_block st) (as_store st, w) = ((ack, r), (db', w'))"
  shows "store_inv (ne_codec env) db'" and "chain_linked (ne_codec env) db'"
    and "\<forall>h. as_current_height st < h \<longrightarrow> decided_at (ne_codec env) db' h = None"
    and "\<forall>h p. h \<noteq> as_current_height st \<and> decided_at (ne_codec env) db' h = Some p \<longrightarrow> decided_at (ne_codec env) (as_store st) h = Some p"
    and "\<forall>blk. r = Inr blk \<longrightarrow> ack \<and> eb_block_number blk = as_current_height st \<and> eb_block_hash blk = cc_value_id c
      \<and> (\<forall>p. decided_at (ne_codec env) db' (as_current_height st) = Some p \<longrightarrow> eb_block_hash blk = pl_block_hash p)"
proof -
  let ?c = "ne_codec env" and ?H = "as_current_height st"
  have sound: "store_inv ?c (as_store st)" and chain: "chain_linked ?c (as_store st)" and pos: "position_ok ?c st"
    using inv by (simp_all add: app_inv_def)
  have above: "\<And>h. ?H < h \<Longrightarrow> decided_at ?c (as_store st) h = None" using pos unfolding position_ok_def by blast
  have "store_inv ?c db' \<and> chain_linked ?c db' \<and> (\<forall>h. ?H < h \<longrightarrow> decided_at ?c db' h = None)
    \<and> (\<forall>h p. h \<noteq> ?H \<and> decided_at ?c db' h = Some p \<longrightarrow> decided_at ?c (as_store st) h = Some p)
    \<and> (\<forall>blk. r = Inr blk \<longrightarrow> ack \<and> eb_block_number blk = ?H \<and> eb_block_hash blk = cc_value_id c
      \<and> (\<forall>p. decided_at ?c db' ?H = Some p \<longrightarrow> eb_block_hash blk = pl_block_hash p))"
    using laws run
  proof (cases rule: decide_cases)
    case (refused e)
    then show ?thesis using sound chain above by auto
  next
    case (committed b db1)
    note at = decided_at_stored [OF laws sound committed(5)]
    have q: "store_inv ?c db'" "\<And>h p. decided_at ?c db' h = Some p \<Longrightarrow> decided_at ?c db1 h = Some p"
      using committed(6) at(1) unfolding quiet_def by blast+
    have linked: "chain_linked ?c db'"
      using quiet_chain [OF committed(6) at(1) chain_linked_stored [OF laws inv height committed(3,5)]] .
    have old: "decided_at ?c (as_store st) h = Some p" if "h \<noteq> ?H" "decided_at ?c db' h = Some p" for h p
      using q(2) [OF that(2)] that(1) at(3) [of h] height by simp
    have here: "p = cb_payload b" if "decided_at ?c db' ?H = Some p" for p
      using q(2) [OF that] at(3) [of ?H] height by simp
    have none: "decided_at ?c db' h = None" if "?H < h" for h
      using old [of h] above [OF that] that by (cases "decided_at ?c db' h") auto
    have number: "pl_block_number (cb_payload b) = ?H" using committed(3) height by (simp add: check_payload_binding_Inr)
    show ?thesis
      using q(1) linked old here none number at(2) committed(1,7) by (auto simp: execution_block_of_def)
  qed
  then show "store_inv ?c db'" "chain_linked ?c db'" "\<forall>h. ?H < h \<longrightarrow> decided_at ?c db' h = None"
    "\<forall>h p. h \<noteq> ?H \<and> decided_at ?c db' h = Some p \<longrightarrow> decided_at ?c (as_store st) h = Some p"
    "\<forall>blk. r = Inr blk \<longrightarrow> ack \<and> eb_block_number blk = ?H \<and> eb_block_hash blk = cc_value_id c
      \<and> (\<forall>p. decided_at ?c db' ?H = Some p \<longrightarrow> eb_block_hash blk = pl_block_hash p)" by blast+
qed

definition store_linked :: "('sig, 'ev) store_codec \<Rightarrow> tables \<Rightarrow> bool" where
  "store_linked codec db \<longleftrightarrow> store_inv codec db \<and> chain_linked codec db"

lemma app_inv_linked: "app_inv codec st \<Longrightarrow> store_linked codec (as_store st)"
  by (simp add: app_inv_def store_linked_def)

lemma quiet_linked: "quiet codec db db' \<Longrightarrow> store_linked codec db \<Longrightarrow> store_linked codec db'"
  using quiet_chain by (auto simp: store_linked_def quiet_def)

lemma prepare_next_height_Inr:
  assumes "prepare_next_height env tbt dp h blk sync w = (Inr info, w')"
  shows "unat (nh_next_height info) = unat h + 1" and "nh_decided_block info = blk"
  using assms by (auto simp: prepare_next_height_def Let_def height_increment_iff elim!: and_then_eq_InrE
      split: option.splits prod.splits)

lemma steady_store_monitor:
  assumes "store_codec_laws (ne_codec env)" and "store_proposal_monitor_on_decision env h v st = Inr st1"
  shows "steady (ne_codec env) st st1"
  using assms quiet_operations(2) [OF assms(1)]
  by (auto simp: store_proposal_monitor_on_decision_def steady_def quiet_refl split: option.splits if_splits)

lemma app_inv_decided_handle:
  fixes env :: "('w, 'pk, 'cp, 'sig, 'ev, 'p, 'l) node_env" and st :: "('w, 'pk, 'cp, 'sig, 'p, 'l) app_state"
  assumes laws: "store_codec_laws (ne_codec env)" and inv: "app_inv (ne_codec env) st"
    and height: "cc_height c = as_current_height st" and run: "decided_handle env config c now st = (r, st')"
  shows "store_linked (ne_codec env) (as_store st') \<and> (\<forall>a. r = Inr a \<longrightarrow> app_inv (ne_codec env) st')"
proof (cases "store_proposal_monitor_on_decision env (cc_height c) (cc_value_id c) st")
  case (Inl e)
  then show ?thesis using run app_inv_linked [OF inv] by (auto simp: decided_handle_def)
next
  case (Inr st1)
  let ?c = "ne_codec env" and ?H = "as_current_height st1"
  have steady: "steady ?c st st1" by (rule steady_store_monitor [OF laws Inr])
  then have inv1: "app_inv ?c st1" and height1: "cc_height c = ?H"
    using steady_app_inv inv height by (auto simp: steady_def)
  obtain ack res db w where dec: "decide env (dc_pruning config) c (as_previous_block st1) (as_store st1, as_world st1) = ((ack, res), (db, w))"
    by (metis prod.exhaust)
  note eff = app_inv_decide [OF laws inv1 height1 dec]
  have linked: "store_linked ?c db" using eff(1,2) by (simp add: store_linked_def)
  have prev: "unat h + 1 = unat ?H \<and> decided_at ?c db h = Some p \<longrightarrow>
      (\<exists>b. as_previous_block st1 = Some b \<and> eb_block_hash b = pl_block_hash p \<and> eb_block_number b = h)" for h p
  proof
    assume a: "unat h + 1 = unat ?H \<and> decided_at ?c db h = Some p"
    then have "h \<noteq> ?H" by auto
    then have "decided_at ?c (as_store st1) h = Some p" using eff(4) a by blast
    then show "\<exists>b. as_previous_block st1 = Some b \<and> eb_block_hash b = pl_block_hash p \<and> eb_block_number b = h"
      using inv1 a unfolding app_inv_def position_ok_def by blast
  qed
  have keep: "app_inv ?c st2"
    if "as_store st2 = db" "as_current_height st2 = ?H" "as_previous_block st2 = as_previous_block st1"
      "\<And>info. as_decision st2 = Some (Success info) \<Longrightarrow> unat (nh_next_height info) = unat ?H + 1
          \<and> (\<exists>blk. res = Inr blk \<and> nh_decided_block info = blk)" for st2 :: "('w, 'pk, 'cp, 'sig, 'p, 'l) app_state"
    using that eff prev by (auto simp: app_inv_def position_ok_def)
  show ?thesis
  proof (cases res)
    case err: (Inl e)
    show ?thesis
      using run Inr dec err linked keep [of st'] by (cases e) (auto simp: decided_handle_def)
  next
    case ok: (Inr blk)
    let ?y = "sync_state_of now (eb_timestamp blk) (dc_catch_up_threshold config)"
    obtain pr w1 where prep: "prepare_next_height env (dc_target_block_time config) (dc_default_params config) (cc_height c) blk ?y w = (pr, w1)"
      by (metis prod.exhaust)
    have out: "(r, st') = and_then (pr, st1\<lparr>as_sync_state := ?y, as_store := db, as_world := w1\<rparr>)
        (\<lambda>info st. (Inr ack, st\<lparr>as_decision := Some (Success info)\<rparr>))"
      using run Inr dec ok prep by (simp add: decided_handle_def on_sys_def on_world_def Let_def)
    show ?thesis
    proof (cases pr)
      case (Inl e)
      then show ?thesis using out linked by simp
    next
      case info: (Inr info)
      note next_ok = prepare_next_height_Inr [OF prep [unfolded info]]
      show ?thesis using out info linked keep [of st'] next_ok ok height1 by auto
    qed
  qed
qed

section \<open>Finalising\<close>

lemma get_decided_block_at:
  assumes inv: "store_inv codec db" and run: "get_decided_block env codec h db = Inr b"
  shows "map_option dcb_execution_payload b = decided_at codec db h"
proof -
  have ok: "re_begin_read env db = None"
    using run by (auto simp: get_decided_block_def read_tx_def split: option.splits)
  show ?thesis
    using run unfolding get_decided_block_sound [OF inv ok] by (auto simp: decided_at_def split: option.splits)
qed

lemma app_inv_move_to_next_height:
  assumes inv: "app_inv codec st" and info: "unat (nh_next_height info) = unat (as_current_height st) + 1"
    "eb_block_number (nh_decided_block info) = as_current_height st"
    "\<And>p. decided_at codec (as_store st) (as_current_height st) = Some p \<Longrightarrow> eb_block_hash (nh_decided_block info) = pl_block_hash p"
    and none: "as_decision st = None"
  shows "app_inv codec (move_to_next_height env info st)"
proof -
  let ?st = "move_to_next_height env info st"
  have eqs: "as_store ?st = as_store st" "as_current_height ?st = nh_next_height info" "as_decision ?st = None"
    "as_previous_block ?st = Some (nh_decided_block info)"
    using none by (simp_all add: move_to_next_height_def set_validator_set_def cleanup_early_arrivals_def Let_def)
  have above: "decided_at codec (as_store st) h = None" if "nh_next_height info < h" for h
    using inv that info(1) by (simp add: app_inv_def position_ok_def word_less_nat_alt)
  have "h = as_current_height st" if "unat h + 1 = unat (nh_next_height info)" for h
    using that info(1) by (simp add: word_unat_eq_iff)
  then show ?thesis
    using inv info(2,3) above by (auto simp: app_inv_def position_ok_def eqs)
qed

lemma app_inv_restart_height:
  assumes laws: "store_codec_laws (ne_codec env)" and inv: "app_inv (ne_codec env) st"
    and height: "h = as_current_height st" and none: "as_decision st = None"
    and run: "restart_height env h vs cp st = (r, st')"
  shows "store_linked (ne_codec env) (as_store st') \<and> (\<forall>a. r = Inr a \<longrightarrow> app_inv (ne_codec env) st')"
proof -
  let ?c = "ne_codec env" and ?prev = "height_saturating_sub h 1"
  define st1 where "st1 = set_validator_set env vs
      (st\<lparr>as_current_height := h, as_current_round := RoundNil, as_current_proposer := None\<rparr>)\<lparr>as_consensus_params := cp\<rparr>"
  have st1: "as_store st1 = as_store st" "as_current_height st1 = h" "as_decision st1 = None" "as_world st1 = as_world st"
    using none by (simp_all add: st1_def set_validator_set_def)
  have sound: "store_inv ?c (as_store st)" and chain: "chain_linked ?c (as_store st)" and pos: "position_ok ?c st"
    using inv by (simp_all add: app_inv_def)
  have run1: "and_then (on_sys (read_db (get_decided_block (ne_redb env) ?c ?prev)) st1) (\<lambda>b st.
      on_sys (on_db (clean_stale_consensus_data (ne_redb env) h))
        (st\<lparr>as_previous_block := map_option (execution_block_of \<circ> dcb_execution_payload) b\<rparr>)) = (r, st')"
    using run by (simp add: restart_height_def st1_def Let_def)
  show ?thesis
  proof (cases "get_decided_block (ne_redb env) ?c ?prev (as_store st)")
    case (Inl e)
    then show ?thesis
      using run1 st1 app_inv_linked [OF inv]
      by (auto simp: on_sys_def read_db_def on_db_def Let_def split: store_error.splits)
  next
    case (Inr b)
    define st2 where "st2 = st1\<lparr>as_previous_block := map_option (execution_block_of \<circ> dcb_execution_payload) b\<rparr>"
    note at = get_decided_block_at [OF sound Inr]
    have prev: "\<exists>blk. as_previous_block st2 = Some blk \<and> eb_block_hash blk = pl_block_hash p \<and> eb_block_number blk = k"
      if "unat k + 1 = unat h" "decided_at ?c (as_store st) k = Some p" for k p
    proof -
      have "k = ?prev" using that(1) by (simp add: word_unat_eq_iff height_saturating_sub_def unat_saturating_sub)
      moreover have "pl_block_number p = k" using chain that(2) by (simp add: chain_linked_def)
      ultimately show ?thesis using at that(2) by (auto simp: st2_def execution_block_of_def)
    qed
    have inv2: "app_inv ?c st2"
      using sound chain pos prev st1 height by (auto simp: app_inv_def position_ok_def st2_def)
    have "st1\<lparr>as_store := as_store st, as_world := as_world st\<rparr> = st1" using st1 by simp
    then have "on_sys (on_db (clean_stale_consensus_data (ne_redb env) h)) st2 = (r, st')"
      using run1 Inr st1 by (simp add: on_sys_def read_db_def on_db_def Let_def st2_def)
    then have "steady ?c st2 st'"
      using steady_on_sys [of ?c "on_db (clean_stale_consensus_data (ne_redb env) h)" st2] quiet_operations(8) [OF laws] by simp
    then show ?thesis using steady_app_inv inv2 app_inv_linked by blast
  qed
qed

lemma app_inv_finalized_handle:
  assumes laws: "store_codec_laws (ne_codec env)" and inv: "app_inv (ne_codec env) st"
    and height: "cc_height c = as_current_height st" and run: "finalized_handle env config c ev st = (r, st')"
  shows "store_linked (ne_codec env) (as_store st') \<and> (\<forall>a. r = Inr a \<longrightarrow> app_inv (ne_codec env) st')"
proof (cases "as_decision st")
  case None
  then show ?thesis using run app_inv_linked [OF inv] by (auto simp: finalized_handle_def)
next
  case (Some d)
  let ?c = "ne_codec env"
  define db where "db = (case ev of None \<Rightarrow> as_store st
      | Some e \<Rightarrow> snd (insert_misbehavior_evidence (ne_redb env) ?c e (as_store st)))"
  define db' where "db' = snd (extend_certificate (ne_redb env) ?c c db)"
  define st1 where "st1 = st\<lparr>as_store := db'\<rparr>"
  define st2 where "st2 = st\<lparr>as_decision := None, as_store := db'\<rparr>"
  have "quiet ?c (as_store st) db" using quiet_operations(1) [OF laws] by (auto simp: db_def quiet_refl split: option.splits)
  then have "quiet ?c (as_store st) db'" unfolding db'_def by (rule quiet_trans [OF _ quiet_operations(9) [OF laws]])
  then have inv1: "app_inv ?c st1" using steady_app_inv [OF _ inv, of st1] by (simp add: steady_def st1_def)
  then have inv2: "app_inv ?c st2" by (simp add: app_inv_def position_ok_def st1_def st2_def)
  show ?thesis
  proof (cases d)
    case (Success info)
    have eq: "(r, st') = start_next_height env config info st2"
      using run Some Success by (simp add: finalized_handle_def st2_def db'_def db_def Let_def)
    have "app_inv ?c (move_to_next_height env info st2)"
      by (rule app_inv_move_to_next_height [OF inv2])
        (use inv1 Some Success in \<open>auto simp: app_inv_def position_ok_def st1_def st2_def\<close>)
    then show ?thesis using eq app_inv_linked by (auto simp: start_next_height_def Let_def)
  next
    case (Failure e)
    have eq: "finalized_restart env (cc_height c) st2 = (r, st')"
      using run Some Failure by (simp add: finalized_handle_def st2_def db'_def db_def Let_def)
    obtain r1 st3 where rs: "restart_height env (cc_height c) (as_validator_set st2) (as_consensus_params st2) st2 = (r1, st3)"
      by (rule prod.exhaust)
    have "store_linked ?c (as_store st3) \<and> (\<forall>a. r1 = Inr a \<longrightarrow> app_inv ?c st3)"
      by (rule app_inv_restart_height [OF laws inv2 _ _ rs]) (simp_all add: height st2_def)
    then show ?thesis using eq rs by (cases r1) (auto simp: finalized_restart_def)
  qed
qed

section \<open>Runs of the application\<close>

text \<open>The engine decides and finalises the height the application is at.\<close>

fun admissible_msg :: "('w, 'pk, 'cp, 'sig, 'p, 'l) app_state \<Rightarrow> ('w, 'sig, 'ev, 'p) app_msg \<Rightarrow> bool" where
  "admissible_msg st (Decided c _) \<longleftrightarrow> cc_height c = as_current_height st"
| "admissible_msg st (Finalized c _) \<longleftrightarrow> cc_height c = as_current_height st"
| "admissible_msg st _ \<longleftrightarrow> True"

text \<open>
  The states of a run, with the flag that the loop still runs: an error of a handler ends it.
  The outside world and the failures of the database may differ from message to message.
\<close>

inductive app_run ::
  "('sig, 'ev) store_codec \<Rightarrow> ('cp, 'sig) app_config \<Rightarrow> ('w, 'pk, 'cp, 'sig, 'p::linorder, 'l) app_state \<Rightarrow> bool
     \<Rightarrow> ('w, 'pk, 'cp, 'sig, 'p, 'l) app_state \<Rightarrow> bool"
  for codec cfg st where
  start: "app_run codec cfg st True st"
| next_msg: "app_run codec cfg st True st1 \<Longrightarrow> ne_codec env = codec \<Longrightarrow> admissible_msg st1 msg
    \<Longrightarrow> handle_consensus env cfg msg st1 = (Inr reply, st2) \<Longrightarrow> app_run codec cfg st True st2"
| shutdown: "app_run codec cfg st True st1 \<Longrightarrow> ne_codec env = codec \<Longrightarrow> admissible_msg st1 msg
    \<Longrightarrow> handle_consensus env cfg msg st1 = (Inl e, st2) \<Longrightarrow> app_run codec cfg st False st2"

lemma handle_consensus_inv:
  assumes laws: "store_codec_laws (ne_codec env)" and inv: "app_inv (ne_codec env) st" and adm: "admissible_msg st msg"
    and run: "handle_consensus env cfg msg st = (r, st')"
  shows "store_linked (ne_codec env) (as_store st') \<and> (\<forall>a. r = Inr a \<longrightarrow> app_inv (ne_codec env) st')"
proof (cases "settles msg")
  case False
  then show ?thesis using steady_handle_consensus [OF laws False, of st cfg] steady_app_inv inv run app_inv_linked by fastforce
next
  case True
  then consider (dec) c now where "msg = Decided c now" | (fin) c ev where "msg = Finalized c ev"
    by (cases msg) simp_all
  then show ?thesis
  proof cases
    case dec
    obtain r1 st1 where d: "decided_handle env (ac_decided cfg) c now st = (r1, st1)" by (rule prod.exhaust)
    then show ?thesis
      using app_inv_decided_handle [OF laws inv _ d] adm run dec by (cases r1) (auto simp: replying_def)
  next
    case fin
    obtain r1 st1 where d: "finalized_handle env (ac_decided cfg) c ev st = (r1, st1)" by (rule prod.exhaust)
    then show ?thesis
      using app_inv_finalized_handle [OF laws inv _ d] adm run fin by (cases r1) (auto simp: replying_def)
  qed
qed

lemma app_run_inv:
  assumes "app_run codec cfg st running st'" and laws: "store_codec_laws codec" and inv: "app_inv codec st"
  shows "store_linked codec (as_store st') \<and> (running \<longrightarrow> app_inv codec st')"
  using assms(1)
proof (induction rule: app_run.induct)
  case start
  then show ?case using inv app_inv_linked by blast
next
  case (next_msg st1 env msg reply st2)
  then show ?case using handle_consensus_inv [of env st1 msg cfg "Inr reply" st2] laws by auto
next
  case (shutdown st1 env msg e st2)
  then show ?case using handle_consensus_inv [of env st1 msg cfg "Inl e" st2] laws by auto
qed


end
