(* ===== verification/App_Votes.thy ===== *)
theory App_Votes
  imports App_Safety
begin

text \<open>
  What the application says to the consensus engine: a vote for a value is justified, a value
  proposed for a round is proposed again when asked again, a decision is taken only on a block
  that was judged valid, and the pending path lets in a row that blocks a decision.
\<close>

section \<open>The undecided blocks\<close>

definition undecided_at :: "('sig, 'ev) store_codec \<Rightarrow> tables \<Rightarrow> composite_key \<Rightarrow> 'sig consensus_block option" where
  "undecided_at codec db k = Option.bind (bt_get (undecided_blocks db) k) (\<lambda>b. right_or_none (dec_block codec b))"

lemma right_or_none_Some: "right_or_none r = Some a \<longleftrightarrow> r = Inr a"
  by (cases r) (simp_all add: right_or_none_def)

lemma undecided_at_Some:
  "undecided_at codec db k = Some b \<longleftrightarrow> (\<exists>v. bt_get (undecided_blocks db) k = Some v \<and> dec_block codec v = Inr b)"
  by (auto simp: undecided_at_def bind_eq_Some_conv right_or_none_Some)

lemma undecided_row_key:
  assumes "store_inv codec db" and "bt_get (undecided_blocks db) k = Some v"
  obtains b where "dec_block codec v = Inr b" and "block_key b = k"
  using assms that unfolding store_inv_def rows_keyed_def by blast

lemma undecided_at_key:
  assumes "store_inv codec db" and "undecided_at codec db k = Some b"
  shows "block_key b = k"
proof -
  obtain v where v: "bt_get (undecided_blocks db) k = Some v" "dec_block codec v = Inr b"
    using assms(2) by (auto simp: undecided_at_Some)
  then show ?thesis using undecided_row_key [OF assms(1) v(1)] by fastforce
qed

lemma undecided_at_insert:
  assumes laws: "store_codec_laws codec" and inv: "store_inv codec db"
  shows "undecided_at codec (insert_undecided_block codec b db) k = (if k = block_key b then Some b else undecided_at codec db k)"
proof -
  have "dec_block codec (enc_block codec b) = Inr b" using laws by (simp add: store_codec_laws_def)
  then show ?thesis
    using store_inv_wf(3) [OF inv] by (simp add: undecided_at_def insert_undecided_block_def bt_get_insert right_or_none_def)
qed

lemma store_undecided_block_Inr:
  assumes "store_undecided_block env codec b db = (Inr (), db')"
  shows "db' = insert_undecided_block codec b db"
  using assms unfolding store_undecided_block_def by (elim write_tx_cases) auto

lemma decode_all_iff: "decode_all dec bs = Inr xs \<longleftrightarrow> map dec bs = map Inr xs"
proof (induction bs arbitrary: xs)
  case Nil
  then show ?case by auto
next
  case (Cons b bs)
  then show ?case
    by (cases xs; cases "dec b"; cases "decode_all dec bs") (auto simp: bind_result_def decoded_def)
qed

text \<open>\<open>Round::from\<close> gives back the number of a round.\<close>

definition round_from_law :: "(int \<Rightarrow> round) \<Rightarrow> bool" where
  "round_from_law round_from \<longleftrightarrow> (\<forall>i. 0 \<le> i \<and> i < 2 ^ 32 \<longrightarrow> round_as_i64 (round_from i) = i)"

text \<open>The blocks of a round are the rows whose key has its height and round, each once.\<close>

lemma get_undecided_blocks_decoded:
  assumes law: "round_from_law round_from" and room: "round_as_i64 r + 1 < 2 ^ 32"
    and run: "get_undecided_blocks env codec round_from h r db = Inr bs"
  shows "map (dec_block codec \<circ> snd) (filter (\<lambda>row. fst (fst row) = h \<and> fst (snd (fst row)) = round_as_i64 r) (undecided_blocks db))
    = map Inr bs"
proof -
  let ?i = "round_as_i64 r"
  have up: "round_as_i64 (round_from (?i + 1)) = ?i + 1"
    using law room round_as_i64_ge [of r] unfolding round_from_law_def by simp
  have inside: "(h, ?i, 0) \<le> k \<and> k < (h, ?i + 1, 0)" if "fst k = h" "fst (snd k) = ?i" for k :: composite_key
    using that by (cases k) simp
  have "filter (\<lambda>((h', r', _), _). h' = h \<and> r' = ?i) (bt_range (h, ?i, 0) (h, ?i + 1, 0) (undecided_blocks db))
      = filter (\<lambda>row. fst (fst row) = h \<and> fst (snd (fst row)) = ?i) (undecided_blocks db)"
    unfolding bt_range_def filter_filter case_prod_unfold using inside by (intro filter_cong) auto
  then show ?thesis
    using run unfolding get_undecided_blocks_def read_tx_def Let_def up
    by (simp add: decode_all_iff split: option.splits)
qed

lemma get_undecided_blocks_rows:
  assumes inv: "store_inv codec db" and law: "round_from_law round_from" and room: "round_as_i64 r + 1 < 2 ^ 32"
    and run: "get_undecided_blocks env codec round_from h r db = Inr bs"
  shows "distinct bs"
    and "b \<in> set bs \<longleftrightarrow> undecided_at codec db (block_key b) = Some b \<and> cb_height b = h \<and> round_as_i64 (cb_round b) = round_as_i64 r"
proof -
  define t where "t = undecided_blocks db"
  define P where "P = (\<lambda>row :: composite_key \<times> bytes. fst (fst row) = h \<and> fst (snd (fst row)) = round_as_i64 r)"
  have dec: "map (dec_block codec \<circ> snd) (filter P t) = map Inr bs"
    using get_undecided_blocks_decoded [OF law room run] by (simp add: P_def t_def)
  have wf: "bt_wf t" unfolding t_def by (rule store_inv_wf(3) [OF inv])
  note get = bt_in_set_get [OF wf]
  have keyed: "block_key x = fst row" if "row \<in> set t" "dec_block codec (snd row) = Inr x" for row x
  proof -
    have "bt_get (undecided_blocks db) (fst row) = Some (snd row)"
      using get [of "fst row" "snd row"] that(1) by (simp add: t_def)
    then obtain a where "dec_block codec (snd row) = Inr a" "block_key a = fst row"
      by (rule undecided_row_key [OF inv])
    then show ?thesis using that(2) by simp
  qed
  have len: "length (filter P t) = length bs" using arg_cong [OF dec, of length] by simp
  have keys: "map block_key bs = map fst (filter P t)"
  proof (rule nth_equalityI)
    fix j assume "j < length (map block_key bs)"
    then have j: "j < length (filter P t)" using len by simp
    then have "dec_block codec (snd (filter P t ! j)) = Inr (bs ! j)"
      using arg_cong [OF dec, of "\<lambda>xs. xs ! j"] len by simp
    moreover have "filter P t ! j \<in> set t" using nth_mem [OF j] by auto
    ultimately show "map block_key bs ! j = map fst (filter P t) ! j" using keyed j len by simp
  qed (simp add: len)
  have "distinct (map fst (filter P t))" using bt_wf_distinct [OF wf] by (rule distinct_map_filter)
  then have "distinct (map block_key bs)" using keys by simp
  then show "distinct bs" by (simp add: distinct_map)
  show "b \<in> set bs \<longleftrightarrow> undecided_at codec db (block_key b) = Some b \<and> cb_height b = h \<and> round_as_i64 (cb_round b) = round_as_i64 r"
  proof -
    have "b \<in> set bs \<longleftrightarrow> Inr b \<in> set (map (dec_block codec \<circ> snd) (filter P t))" unfolding dec by auto
    also have "\<dots> \<longleftrightarrow> (\<exists>row \<in> set t. P row \<and> dec_block codec (snd row) = Inr b)" by force
    also have "\<dots> \<longleftrightarrow> (\<exists>v. (block_key b, v) \<in> set t \<and> P (block_key b, v) \<and> dec_block codec v = Inr b)"
    proof
      assume "\<exists>row \<in> set t. P row \<and> dec_block codec (snd row) = Inr b"
      then obtain row where row: "row \<in> set t" "P row" "dec_block codec (snd row) = Inr b" by blast
      then have "row = (block_key b, snd row)" using keyed [of row b] by (simp add: prod_eq_iff)
      then show "\<exists>v. (block_key b, v) \<in> set t \<and> P (block_key b, v) \<and> dec_block codec v = Inr b"
        using row by (intro exI [of _ "snd row"]) simp
    qed auto
    also have "\<dots> \<longleftrightarrow> undecided_at codec db (block_key b) = Some b \<and> cb_height b = h \<and> round_as_i64 (cb_round b) = round_as_i64 r"
      unfolding get undecided_at_Some t_def [symmetric] by (auto simp: P_def block_key_def)
    finally show ?thesis .
  qed
qed

section \<open>Proposing the same value again\<close>

text \<open>The rows a proposer has in a round.\<close>

definition own_blocks :: "('sig, 'ev) store_codec \<Rightarrow> tables \<Rightarrow> height \<Rightarrow> round \<Rightarrow> address \<Rightarrow> 'sig consensus_block set" where
  "own_blocks codec db h r a =
     {b. undecided_at codec db (block_key b) = Some b \<and> cb_height b = h \<and> round_as_i64 (cb_round b) = round_as_i64 r
       \<and> cb_proposer b = a}"

lemma own_blocks_insert:
  assumes "store_codec_laws codec" and inv: "store_inv codec db" and "cb_height b = h"
    and "round_as_i64 (cb_round b) = round_as_i64 r" and "cb_proposer b = a"
    and "own_blocks codec db h r a \<subseteq> {b'}" and "own_blocks codec db h r a \<noteq> {} \<Longrightarrow> block_key b' = block_key b"
  shows "own_blocks codec (insert_undecided_block codec b db) h r a = {b}"
  using assms(3-) unfolding own_blocks_def undecided_at_insert [OF assms(1,2)] by (auto split: if_splits)

lemma distinct_singleton_list:
  assumes "distinct xs" and "set xs = {y}"
  shows "xs = [y]"
proof (cases xs)
  case (Cons x ys)
  then show ?thesis using assms by (cases ys) auto
qed (use assms in simp)

lemma get_previously_built_block_own:
  assumes inv: "store_inv (ne_codec env) (fst s)" and law: "round_from_law (ne_round_from env)"
    and room: "round_as_i64 r + 1 < 2 ^ 32"
    and run: "get_previously_built_block env a h r s = (Inr ob, s')"
  shows "s' = s" and "own_blocks (ne_codec env) (fst s) h r a = set_option ob"
proof -
  from run obtain bs where bs: "get_undecided_blocks (ne_redb env) (ne_codec env) (ne_round_from env) h r (fst s) = Inr bs"
    and s': "s' = s" and ob: "(case filter (\<lambda>b. cb_proposer b = a) bs of [] \<Rightarrow> Inr None | [b] \<Rightarrow> Inr (Some b)
        | _ \<Rightarrow> Inl (eyre ''Multiple undecided blocks found'')) = Inr ob"
    by (auto simp: get_previously_built_block_def read_db_def on_db_def elim!: and_then_eq_InrE
        split: sum.splits store_error.splits)
  show "s' = s" by (fact s')
  have "own_blocks (ne_codec env) (fst s) h r a = set (filter (\<lambda>b. cb_proposer b = a) bs)"
    using get_undecided_blocks_rows(2) [OF inv law room bs] by (auto simp: own_blocks_def)
  also have "\<dots> = set_option ob"
    using ob by (cases "filter (\<lambda>b. cb_proposer b = a) bs" rule: remdups_adj.cases) (auto simp del: set_filter)
  finally show "own_blocks (ne_codec env) (fst s) h r a = set_option ob" .
qed

text \<open>A block this node built: bound to its parent, and accepted by the execution client.\<close>

lemma build_and_validate_block_Inr:
  assumes "build_and_validate_block env h r a prev fee s = (Inr b, s')"
  shows "cb_height b = h" and "cb_round b = r" and "cb_proposer b = a" and "fst s' = fst s"
    and "check_payload_binding (cb_payload b) h (Some prev) = Inr ()"
proof -
  from assms obtain s1 s2 v where build: "build_block env h r a prev fee s = (Inr b, s1)"
    and bound: "check_payload_binding (cb_payload b) h (Some prev) = Inr ()"
    and check: "validate_consensus_block env b s1 = (Inr v, s2)" and "is_valid v" and s': "s' = s2"
    unfolding build_and_validate_block_def by (auto elim!: and_then_eq_InrE split: sum.splits if_splits)
  then have "fst s2 = fst s1" using validate_consensus_block_Valid [of env b s1 s2] by (simp add: is_valid_def)
  moreover have "fst s1 = fst s" "cb_height b = h" "cb_round b = r" "cb_proposer b = a"
    using build by (auto simp: build_block_def on_world_def Let_def elim!: and_then_eq_InrE split: prod.splits)
  ultimately show "cb_height b = h" "cb_round b = r" "cb_proposer b = a" "fst s' = fst s"
    "check_payload_binding (cb_payload b) h (Some prev) = Inr ()" using s' bound by simp_all
qed

text \<open>The block a successful request leaves as the proposer's only row of the round.\<close>

lemma on_get_value_Some:
  assumes laws: "store_codec_laws (ne_codec env)" and inv: "store_inv (ne_codec env) (fst s)"
    and law: "round_from_law (ne_round_from env)" and room: "round_as_i64 r + 1 < 2 ^ 32"
    and run: "on_get_value env h r a prev fee sid timeout s = (Inr (Some (h1, r1, v, msgs)), s1)"
  obtains b sig where "cb_height b = h" and "round_as_i64 (cb_round b) = round_as_i64 r" and "cb_proposer b = a"
    and "self_reported_block_hash b = v" and "check_payload_binding (cb_payload b) h prev = Inr ()"
    and "own_blocks (ne_codec env) (fst s) h r a \<subseteq> {b}"
    and "fst s1 = insert_undecided_block (ne_codec env) (b\<lparr>cb_signature := Some sig\<rparr>) (fst s)"
proof -
  let ?c = "ne_codec env"
  obtain ob where built: "get_previously_built_block env a h r s = (Inr ob, s)"
  proof -
    obtain ob s' where "get_previously_built_block env a h r s = (Inr ob, s')"
      using run unfolding on_get_value_def by (elim and_then_eq_InrE)
    then show thesis using get_previously_built_block_own(1) [OF inv law room] that by blast
  qed
  note own = get_previously_built_block_own(2) [OF inv law room built]
  from run obtain b s2 sig where
    pick: "(case ob of
         Some block \<Rightarrow>
           (case check_reused_block_binding block h prev of
              Inl e \<Rightarrow> (Inl e, s) | Inr _ \<Rightarrow> (Inr (Some block), s))
       | None \<Rightarrow>
           (case prev of
              None \<Rightarrow> (Inl (eyre ''No previous block available to build new block''), s)
            | Some previous \<Rightarrow>
                (case check_previous_block_is_predecessor previous h of
                   Inl e \<Rightarrow> (Inl e, s)
                 | Inr _ \<Rightarrow>
                     (case timeout of
                        Some w \<Rightarrow> (Inr None, (fst s, w))
                      | None \<Rightarrow>
                          and_then (build_and_validate_block env h r a previous fee s)
                            (\<lambda>block s. (Inr (Some block), s)))))) = (Inr (Some b), s2)"
    and v: "self_reported_block_hash b = v"
    and stored: "on_db (store_undecided_block (ne_redb env) ?c (b\<lparr>cb_signature := Some sig\<rparr>)) s2 = (Inr (), s1)"
    unfolding on_get_value_def built and_then_Inr
    by (elim and_then_eq_InrE) (auto elim!: and_then_eq_InrE split: option.splits sum.splits)
  have b: "cb_height b = h \<and> round_as_i64 (cb_round b) = round_as_i64 r \<and> cb_proposer b = a \<and> fst s2 = fst s
      \<and> check_payload_binding (cb_payload b) h prev = Inr () \<and> own_blocks ?c (fst s) h r a \<subseteq> {b}"
  proof (cases ob)
    case None
    then show ?thesis
      using pick own by (auto split: option.splits sum.splits elim!: and_then_eq_InrE dest: build_and_validate_block_Inr)
  next
    case (Some b0)
    then have "b0 \<in> own_blocks ?c (fst s) h r a" using own by simp
    then show ?thesis
      using pick own Some by (auto simp: own_blocks_def check_reused_block_binding_def split: sum.splits)
  qed
  have "store_undecided_block (ne_redb env) ?c (b\<lparr>cb_signature := Some sig\<rparr>) (fst s2) = (Inr (), fst s1)"
    using stored by (auto simp: on_db_def Let_def split: prod.splits sum.splits store_error.splits)
  then have "fst s1 = insert_undecided_block ?c (b\<lparr>cb_signature := Some sig\<rparr>) (fst s)"
    using store_undecided_block_Inr b by metis
  then show thesis using that b v by blast
qed


section \<open>Votes\<close>

lemma validate_block_Valid:
  assumes "validate_block env b prev s = (Inr b', s')"
  shows "cb_payload b' = cb_payload b \<and> cb_height b' = cb_height b \<and> cb_round b' = cb_round b \<and> cb_proposer b' = cb_proposer b
    \<and> (cb_validity b' = Valid \<longrightarrow> check_payload_binding (cb_payload b) (cb_height b) prev = Inr () \<and> engine_accepts env (cb_payload b) (snd s))"
  using assms establish_block_validity_Valid [of env b prev s]
  by (auto simp: validate_block_def elim!: and_then_eq_InrE)

lemma process_proposal_parts_block:
  assumes "process_proposal_parts env h r vs n parts s = (Inr (PartsBlock b), s')"
  obtains v where "pp_height parts = h" and "round_as_i64 (pp_round parts) \<le> round_as_i64 r"
    and "resolve_expected_proposer vs parts = Some v" and "proposal_parts_valid env parts v"
    and "assemble_block_from_parts (ne_unssz env) parts = Inr b" and "s' = s"
  using assms
  by (auto simp: process_proposal_parts_def elim!: and_then_eq_InrE split: if_splits option.splits sum.splits)

lemma handle_complete_parts_Assembled:
  assumes "handle_complete_parts env h r vs n prev t parts s = (Inr (Assembled v), s')"
  obtains proposer b b' s1 where "pp_height parts = h" and "round_as_i64 (pp_round parts) \<le> round_as_i64 r"
    and "resolve_expected_proposer vs parts = Some proposer" and "proposal_parts_valid env parts proposer"
    and "assemble_block_from_parts (ne_unssz env) parts = Inr b" and "validate_block env b prev s = (Inr b', s1)"
    and "may_be_stored_as_undecided (ne_hash_of env) b'"
    and "v = to_proposed_value_with_validity b' (validity_for b' t)"
proof -
  from assms obtain outcome s0 where out: "process_proposal_parts env h r vs n parts s = (Inr outcome, s0)"
    and rest: "(case outcome of
          PartsBlock block \<Rightarrow>
            and_then (validate_block env block prev s0) (\<lambda>block s.
              if \<not> may_be_stored_as_undecided (ne_hash_of env) block then (Inr Terminal, s)
              else let proposed_value = to_proposed_value_with_validity block (validity_for block t)
                   in and_then (on_db (store_undecided_block (ne_redb env) (ne_codec env) block) s)
                        (\<lambda>_ s. (Inr (Assembled proposed_value), s)))
        | _ \<Rightarrow>
            (Inr (if outcome = StoredPending \<and> h < pp_height parts \<and> round_as_i64 (pp_round parts) = 0
                  then BufferedPending (pp_height parts)
                  else if is_terminal outcome then Terminal else Deferred), s0)) = (Inr (Assembled v), s')"
    unfolding handle_complete_parts_def by (elim and_then_eq_InrE)
  obtain b where b: "outcome = PartsBlock b" using rest by (cases outcome) (auto split: if_splits)
  from rest [unfolded b] obtain b' s1 where "validate_block env b prev s0 = (Inr b', s1)"
    and "may_be_stored_as_undecided (ne_hash_of env) b'" and "v = to_proposed_value_with_validity b' (validity_for b' t)"
    by (auto simp: Let_def elim!: and_then_eq_InrE split: if_splits)
  with out [unfolded b] show thesis using that by (elim process_proposal_parts_block) metis
qed

lemma received_proposal_part_Some:
  assumes "received_proposal_part_handle env n now now' clock t from part st = (Inr (Some v), st')"
  obtains parts streams s' where "psm_insert (ne_lru env) now now' from part (as_streams st) = (IComplete parts, streams)"
    and "handle_complete_parts env (as_current_height st) (as_current_round st) (as_validator_set st) n (as_previous_block st) t parts
      (as_store st, as_world st) = (Inr (Assembled v), s')"
proof -
  obtain res st1 where rec: "on_received_proposal_part env n now now' t from part st = (res, st1)" by (rule prod.exhaust)
  then have res: "res = Inr (RpAssembled v)"
    using assms by (auto simp: received_proposal_part_handle_def split: sum.splits report.splits received_part.splits)
  obtain ins streams where ins: "psm_insert (ne_lru env) now now' from part (as_streams st) = (ins, streams)" by (rule prod.exhaust)
  obtain parts where parts: "ins = IComplete parts"
    using rec ins res by (auto simp: on_received_proposal_part_def Let_def split: insert_result.splits)
  obtain d s' where h: "handle_complete_parts env (as_current_height st) (as_current_round st) (as_validator_set st) n
      (as_previous_block st) t parts (as_store st, as_world st) = (d, s')" by (rule prod.exhaust)
  have "d = Inr (Assembled v)"
    using rec ins parts h res
    by (auto simp: on_received_proposal_part_def on_sys_def Let_def split: prod.splits sum.splits report.splits disposition.splits if_splits)
  then show thesis using that ins parts h by simp
qed

text \<open>
  (C4) A vote for a received value is justified: if the application tells the engine that a
  proposal it assembled is valid, then the stream was complete, the proposal is for the current
  height and not a later round, it is signed by the proposer the round has, its payload carries
  the height and extends the previous block, the execution client accepted it, and its timestamp
  is at most thirty seconds ahead of the local clock where there is one.
\<close>

theorem valid_vote_justified:
  assumes "received_proposal_part_handle env max_pending now now' clock local_time from part st = (Inr (Some v), st')"
    and "pv_validity v = Valid"
  shows "\<exists>parts streams proposer payload.
      psm_insert (ne_lru env) now now' from part (as_streams st) = (IComplete parts, streams)
      \<and> pp_height parts = as_current_height st \<and> pv_height v = as_current_height st
      \<and> round_as_i64 (pp_round parts) \<le> round_as_i64 (as_current_round st)
      \<and> select_proposer (as_validator_set st) (pp_height parts) (pp_round parts) = Some proposer
      \<and> val_address proposer = pp_proposer parts \<and> pv_proposer v = pp_proposer parts
      \<and> ne_verify env (pp_hash (codec_keccak256 (ne_codec env)) parts) (pp_fin parts) (val_public_key proposer) = Inr SigValid
      \<and> ne_unssz env (concat (pp_data parts)) = Inr payload \<and> pv_value v = pl_block_hash payload
      \<and> pl_block_number payload = as_current_height st
      \<and> (\<forall>b. as_previous_block st = Some b \<and> checked_add (eb_block_number b) 1 = Some (as_current_height st)
            \<longrightarrow> pl_parent_hash payload = eb_block_hash b)
      \<and> engine_accepts env payload (as_world st)
      \<and> (\<forall>t. local_time = Some t \<longrightarrow> unat (pl_timestamp payload) \<le> min (unat t + 30) (2 ^ 64 - 1))"
proof -
  from assms(1) obtain parts streams s' where ins: "psm_insert (ne_lru env) now now' from part (as_streams st) = (IComplete parts, streams)"
    and run: "handle_complete_parts env (as_current_height st) (as_current_round st) (as_validator_set st) max_pending
      (as_previous_block st) local_time parts (as_store st, as_world st) = (Inr (Assembled v), s')"
    by (rule received_proposal_part_Some)
  from run obtain proposer b b' s1 where place: "pp_height parts = as_current_height st"
      "round_as_i64 (pp_round parts) \<le> round_as_i64 (as_current_round st)"
    and who: "resolve_expected_proposer (as_validator_set st) parts = Some proposer" "proposal_parts_valid env parts proposer"
    and blk: "assemble_block_from_parts (ne_unssz env) parts = Inr b"
      "validate_block env b (as_previous_block st) (as_store st, as_world st) = (Inr b', s1)"
    and v: "v = to_proposed_value_with_validity b' (validity_for b' local_time)"
    by (rule handle_complete_parts_Assembled)
  have vote: "validity_for b' local_time = Valid" using assms(2) v by (simp add: to_proposed_value_with_validity_def)
  have sig: "val_address proposer = pp_proposer parts"
    "ne_verify env (pp_hash (codec_keccak256 (ne_codec env)) parts) (pp_fin parts) (val_public_key proposer) = Inr SigValid"
    using who(2) by (auto simp: proposal_parts_valid_def validate_proposal_parts_def split: if_splits sum.splits verification_result.splits)
  have b: "ne_unssz env (concat (pp_data parts)) = Inr (cb_payload b)" "cb_height b = pp_height parts" "cb_proposer b = pp_proposer parts"
    using blk(1) by (auto simp: assemble_block_from_parts_def split: sum.splits)
  show ?thesis
    using ins place who(1) sig b v vote [unfolded validity_for_Valid] validate_block_Valid [OF blk(2)]
    by (intro exI [of _ parts] exI [of _ streams] exI [of _ proposer] exI [of _ "cb_payload b"])
      (auto simp: resolve_expected_proposer_def to_proposed_value_with_validity_def self_reported_block_hash_def check_payload_binding_Inr)
qed

section \<open>Decisions\<close>

lemma decoded_row_Some:
  "decoded_row dec row = Inr (Some a) \<longleftrightarrow> (\<exists>b. row = Some b \<and> dec b = Inr a)"
proof (cases row)
  case (Some b)
  then show ?thesis by (cases "dec b") (simp_all add: decoded_row_def decoded_def)
qed (simp add: decoded_row_def)

lemma undecided_by_hash:
  assumes inv: "store_inv codec db"
    and run: "get_undecided_block_by_height_and_block_hash env codec h v db = Inr (Some b)"
  shows "undecided_at codec db (block_key b) = Some b" and "cb_height b = h" and "self_reported_block_hash b = v"
proof -
  let ?P = "\<lambda>((key_height, _, key_block_hash), _). key_height = h \<and> key_block_hash = v"
  obtain k bytes where found: "find ?P (undecided_blocks db) = Some (k, bytes)" and dec: "dec_block codec bytes = Inr b"
    using run by (auto simp: get_undecided_block_by_height_and_block_hash_def read_tx_def decoded_row_Some split: option.splits)
  have match: "?P (k, bytes)" and "(k, bytes) \<in> set (undecided_blocks db)"
    using found [unfolded find_Some_iff] by (elim exE conjE, simp, metis nth_mem)
  then have at: "undecided_at codec db k = Some b"
    using bt_in_set_get [OF store_inv_wf(3) [OF inv], of k bytes] dec by (simp add: undecided_at_Some)
  then have key: "block_key b = k" by (rule undecided_at_key [OF inv])
  show "undecided_at codec db (block_key b) = Some b" using at key by simp
  show "cb_height b = h" "self_reported_block_hash b = v" using match key by (auto simp: block_key_def)
qed

lemma store_monitor_undecided:
  assumes "store_proposal_monitor_on_decision env h v st = Inr st1"
  shows "undecided_blocks (as_store st1) = undecided_blocks (as_store st)"
    and "certificates (as_store st1) = certificates (as_store st)" and "decided_blocks (as_store st1) = decided_blocks (as_store st)"
    and "as_previous_block st1 = as_previous_block st" and "as_decision st1 = as_decision st" and "as_world st1 = as_world st"
  using assms
  by (auto simp: store_proposal_monitor_on_decision_def insert_proposal_monitor_data_def write_tx_def
      split: option.splits if_splits sum.splits)

lemma next_height_facts:
  "prepare_next_height env tbt dp h blk sync w = (Inr info, w') \<Longrightarrow>
     unat (nh_next_height info) = unat h + 1 \<and> nh_decided_block info = blk"
  by (intro conjI) (rule prepare_next_height_Inr, assumption)+

text \<open>A success means that the execution client took the block as its head.\<close>

lemma decide_finalizes:
  assumes "decide env config c prev (db, w) = ((ack, Inr blk), s')"
    and "get_undecided_block_by_height_and_block_hash (ne_redb env) (ne_codec env) (cc_height c) (cc_value_id c) db = Inr (Some b)"
  shows "\<exists>lv w1. set_latest_forkchoice_state (ne_engine env) (pl_block_hash (cb_payload b)) w = (Inr lv, w1)"
proof -
  have "commit env config c b (db, w) = ((ack, Inr blk), s')"
    using assms by (auto simp: decide_def read_db_def on_db_def split: sum.splits if_splits)
  then obtain x w1 where "finalize_decided_block env (cb_payload b) w = (Inr x, w1)"
    by (auto simp: commit_def on_db_def on_world_def Let_def split: prod.splits sum.splits store_error.splits)
  then show ?thesis by (auto simp: finalize_decided_block_def elim!: and_then_eq_InrE)
qed


section \<open>The pending path\<close>

lemma find_first_row:
  assumes "bt_wf t" and "bt_get t k = Some v" and "P k" and "\<And>j. j < k \<Longrightarrow> P j \<Longrightarrow> bt_get t j = None"
  shows "find (\<lambda>row. P (fst row)) t = Some (k, v)"
  using assms
proof (induction t)
  case (Cons row t)
  obtain k0 v0 where row: "row = (k0, v0)" by (rule prod.exhaust)
  have wf: "bt_wf t" and least: "\<And>j. j \<in> fst ` set t \<Longrightarrow> k0 < j" using Cons.prems(1) by (auto simp: row bt_wf_def)
  show ?case
  proof (cases "k0 = k")
    case True
    then show ?thesis using Cons.prems(2,3) by (simp add: row bt_get_def)
  next
    case False
    then have here: "bt_get t k = Some v" using Cons.prems(2) by (simp add: row bt_get_def)
    then have "k \<in> fst ` set t" using bt_in_set_get [OF wf, of k v] by force
    then have "k0 < k" by (rule least)
    then have skip: "\<not> P k0" using Cons.prems(4) [of k0] by (auto simp: row bt_get_def)
    have "bt_get t j = None" if "j < k" "P j" for j
      using Cons.prems(4) [OF that] that skip by (auto simp: row bt_get_def split: if_splits)
    then show ?thesis using Cons.IH [OF wf here Cons.prems(3)] skip by (simp add: row)
  qed
qed (simp add: bt_get_def)

lemma persist_undecided: "undecided_blocks (fst (persist_invalid_payload_best_effort env i s)) = undecided_blocks (fst s)"
  by (auto simp: persist_invalid_payload_best_effort_def append_invalid_payload_def write_tx_def bind_result_def Let_def
      split: option.splits sum.splits)

lemma validate_consensus_block_undecided:
  "undecided_blocks (db_of (validate_consensus_block env b s)) = undecided_blocks (fst s)"
  by (auto simp: validate_consensus_block_def on_world_def and_then_def persist_undecided
      split: prod.splits sum.splits payload_validation_result.splits)

lemma establish_undecided:
  "undecided_blocks (db_of (establish_block_validity env b prev s)) = undecided_blocks (fst s)"
  using validate_consensus_block_undecided [of env b s]
  by (auto simp: establish_block_validity_def and_then_def persist_undecided split: prod.splits sum.splits)

text \<open>A database whose transactions succeed.\<close>

definition database_works :: "redb_env \<Rightarrow> bool" where
  "database_works env \<longleftrightarrow> (\<forall>db. re_begin_read env db = None \<and> re_begin_write env db = None \<and> re_commit env db = None)"

lemma decide_refuses_first_invalid:
  assumes works: "database_works (ne_redb env)" and inv: "store_inv (ne_codec env) db"
    and row: "undecided_at (ne_codec env) db (block_key b) = Some b" and bad: "cb_validity b \<noteq> Valid"
    and first: "\<And>i. i < round_as_i64 (cb_round b) \<Longrightarrow> bt_get (undecided_blocks db) (cb_height b, i, self_reported_block_hash b) = None"
    and cert: "cc_height c = cb_height b" "cc_value_id c = self_reported_block_hash b"
  shows "\<exists>e. decide env config c prev (db, w) = ((False, Inl e), (db, w))"
proof -
  let ?k = "block_key b" and ?t = "undecided_blocks db"
  let ?P = "\<lambda>k :: composite_key. fst k = cb_height b \<and> snd (snd k) = self_reported_block_hash b"
  obtain v where v: "bt_get ?t ?k = Some v" "dec_block (ne_codec env) v = Inr b" using row by (auto simp: undecided_at_Some)
  have "find (\<lambda>row. ?P (fst row)) ?t = Some (?k, v)"
  proof (rule find_first_row [OF store_inv_wf(3) [OF inv] v(1)])
    fix j :: composite_key assume "j < ?k" "?P j"
    then have "j = (cb_height b, fst (snd j), self_reported_block_hash b)" "fst (snd j) < round_as_i64 (cb_round b)"
      by (cases j, auto simp: block_key_def)+
    then show "bt_get ?t j = None" using first by metis
  qed (simp add: block_key_def)
  moreover have "(\<lambda>((key_height, _, key_block_hash), _). key_height = cb_height b \<and> key_block_hash = self_reported_block_hash b)
      = (\<lambda>row :: composite_key \<times> bytes. ?P (fst row))" by auto
  ultimately have "get_undecided_block_by_height_and_block_hash (ne_redb env) (ne_codec env) (cc_height c) (cc_value_id c) db = Inr (Some b)"
    using works v(2) cert
    by (simp add: get_undecided_block_by_height_and_block_hash_def read_tx_def database_works_def decoded_row_Some)
  then show ?thesis
    using bad by (auto simp: decide_def read_db_def on_db_def is_valid_def split: sum.splits)
qed


end
