(* ===== verification/App_Startup.thy ===== *)
theory App_Startup
  imports App_Safety
begin

text \<open>
  The start of the consensus application (\<open>handlers/consensus_ready.rs\<close>): the handshake with the
  execution client, the replay of the decided blocks it is missing, the checkpoint sync when a
  payload was pruned, and the position the node starts from.
\<close>

section \<open>The handshake\<close>

record engine_capabilities =
  cap_new_payload_v4 :: bool
  cap_forkchoice_updated_v3 :: bool
  cap_get_payload_v4 :: bool
  cap_get_payload_v5 :: bool

text \<open>
  The calls the handshake makes besides those of the engine interface. \<open>st_tick\<close> sleeps for one
  poll interval and tells whether the timeout of the checkpoint sync has passed.
\<close>

record 'w startup_api =
  st_exchange_capabilities :: "'w \<Rightarrow> (report + engine_capabilities) \<times> 'w"
  st_latest_block :: "'w \<Rightarrow> (report + execution_block option) \<times> 'w"
  st_block_by_number :: "u64 \<Rightarrow> 'w \<Rightarrow> (report + execution_block option) \<times> 'w"
  st_tick :: "'w \<Rightarrow> bool \<times> 'w"

definition check_capabilities :: "'w startup_api \<Rightarrow> 'w \<Rightarrow> (report + unit) \<times> 'w" where
  "check_capabilities api w =
     and_then (st_exchange_capabilities api w) (\<lambda>caps w.
       (if \<not> cap_forkchoice_updated_v3 caps then Inl (eyre ''Engine does not support forkchoiceUpdatedV3'')
        else if \<not> cap_get_payload_v4 caps then Inl (eyre ''Engine does not support getPayloadV4'')
        else if \<not> cap_new_payload_v4 caps then Inl (eyre ''Engine does not support newPayloadV4'')
        else Inr (), w))"

datatype replay_block_error = PayloadMissing height | ReplayOther report

definition replay_block ::
  "('w, 'pk, 'cp, 'sig, 'ev, 'p, 'l) node_env \<Rightarrow> height \<Rightarrow> execution_block \<Rightarrow> 'w sys
     \<Rightarrow> (replay_block_error + execution_block) \<times> 'w sys" where
  "replay_block env height previous_block s =
     (case read_db (get_payload (ne_redb env) (ne_codec env) height) s of
        (Inl e, s) \<Rightarrow> (Inl (ReplayOther e), s)
      | (Inr None, s) \<Rightarrow> (Inl (PayloadMissing height), s)
      | (Inr (Some payload), s) \<Rightarrow>
          (case check_payload_binding payload height (Some previous_block) of
             Inl error \<Rightarrow> (Inl (ReplayOther (eyre ''Replay: payload is not bound to its place in the chain'')), s)
           | Inr _ \<Rightarrow>
               (case on_world (validate_payload env payload) s of
                  (Inl e, s) \<Rightarrow> (Inl (ReplayOther e), s)
                | (Inr (PayloadInvalid reason), s) \<Rightarrow>
                    (Inl (ReplayOther (eyre ''Replay: Execution payload validation failed'')), s)
                | (Inr PayloadValid, s) \<Rightarrow>
                    (case on_world (finalize_decided_block env payload) s of
                       (Inl e, s) \<Rightarrow> (Inl (ReplayOther e), s)
                     | (Inr (new_latest_block, _), s) \<Rightarrow> (Inr new_latest_block, s)))))"

text \<open>The polling loop; not returning is the value \<open>None\<close>.\<close>

partial_function (option) poll_checkpoint ::
  "'w startup_api \<Rightarrow> block_hash \<Rightarrow> height \<Rightarrow> 'w \<Rightarrow> ((report + execution_block) \<times> 'w) option" where
  "poll_checkpoint api target_block_hash target_block_height w =
     (let (timed_out, w) = st_tick api w
      in if timed_out then Some (Inl (eyre ''Checkpoint sync: timed out''), w)
         else case st_block_by_number api target_block_height w of
           (Inl e, w) \<Rightarrow> Some (Inl e, w)
         | (Inr (Some b), w) \<Rightarrow>
             Some (if eb_block_hash b = target_block_hash then Inr b
                   else Inl (eyre ''Checkpoint sync: block hash mismatch''), w)
         | (Inr None, w) \<Rightarrow> poll_checkpoint api target_block_hash target_block_height w)"

definition checkpoint_sync ::
  "('w, 'pk, 'cp) engine_api \<Rightarrow> 'w startup_api \<Rightarrow> block_hash \<Rightarrow> height \<Rightarrow> 'w
     \<Rightarrow> ((report + execution_block) \<times> 'w) option" where
  "checkpoint_sync engine api target_block_hash target_block_height w =
     (case api_forkchoice_updated engine target_block_hash None w of
        (Inl e, w) \<Rightarrow> Some (Inl e, w)
      | (Inr fcu_result, w) \<Rightarrow>
          (case ps_status (fu_payload_status fcu_result) of
             PsSyncing \<Rightarrow> poll_checkpoint api target_block_hash target_block_height w
           | PsValid \<Rightarrow>
               Some (and_then (st_block_by_number api target_block_height w) (\<lambda>b w.
                 (case b of None \<Rightarrow> Inl (eyre ''Checkpoint sync: no block after Valid FCU'') | Some b \<Rightarrow> Inr b, w)))
           | _ \<Rightarrow> Some (Inl (eyre ''Checkpoint sync: unexpected FCU status''), w)))"

text \<open>
  The replay of the heights up to the tip of the consensus store, from the last block the
  execution client has. A missing payload ends it with a checkpoint sync to the tip.
\<close>

function replay_loop ::
  "('w, 'pk, 'cp, 'sig, 'ev, 'p, 'l) node_env \<Rightarrow> 'w startup_api \<Rightarrow> height \<Rightarrow> height \<Rightarrow> execution_block \<Rightarrow> 'w sys
     \<Rightarrow> ((report + execution_block) \<times> 'w sys) option" where
  "replay_loop env api latest_height_cons replay_height latest_block s =
     (if latest_height_cons < replay_height then Some (Inr latest_block, s)
      else case replay_block env replay_height latest_block s of
        (Inr block, s) \<Rightarrow>
          (let s = snd (on_world (wait_for_persisted_block (ne_engine env) (eb_block_number block)) s)
           in case height_increment replay_height of
                None \<Rightarrow> Some (Inl (Panicked ''block height overflow''), s)
              | Some next_height \<Rightarrow> replay_loop env api latest_height_cons next_height block s)
      | (Inl (PayloadMissing h), s) \<Rightarrow>
          (case read_db (get_certificate (ne_redb env) (ne_codec env) (Some latest_height_cons)) s of
             (Inl e, s) \<Rightarrow> Some (Inl e, s)
           | (Inr None, s) \<Rightarrow> Some (Inl (eyre ''Handshake: no certificate''), s)
           | (Inr (Some certificate), s) \<Rightarrow>
               map_option (\<lambda>(r, w). (r, (fst s, w)))
                 (checkpoint_sync (ne_engine env) api (cc_value_id (scc_certificate certificate)) latest_height_cons (snd s)))
      | (Inl (ReplayOther e), s) \<Rightarrow> Some (Inl e, s))"
  by pat_completeness auto

termination
  by (relation "measure (\<lambda>(_, _, tip, h, _, _). Suc (unat tip) - unat h)")
    (auto simp: height_increment_iff word_less_nat_alt not_less)

declare replay_loop.simps [simp del]

record handshake_result =
  hr_previous_block :: execution_block
  hr_latest_height :: height
  hr_next_height :: height

definition handshake_and_replay ::
  "('w, 'pk, 'cp, 'sig, 'ev, 'p, 'l) node_env \<Rightarrow> 'w startup_api \<Rightarrow> 'w sys
     \<Rightarrow> ((report + handshake_result) \<times> 'w sys) option" where
  "handshake_and_replay env api s =
     (case on_world (check_capabilities api) s of
        (Inl e, s) \<Rightarrow> Some (Inl e, s)
      | (Inr _, s) \<Rightarrow>
     (case on_world (st_latest_block api) s of
        (Inl e, s) \<Rightarrow> Some (Inl e, s)
      | (Inr None, s) \<Rightarrow> Some (Inl (eyre ''Handshake: Could not get latest block from execution client''), s)
      | (Inr (Some latest_block), s) \<Rightarrow>
     (case read_db (max_height (ne_redb env)) s of
        (Inl e, s) \<Rightarrow> Some (Inl e, s)
      | (Inr tip, s) \<Rightarrow>
          let latest_height_el = eb_block_number latest_block;
              latest_height_cons = (case tip of Some h \<Rightarrow> h | None \<Rightarrow> 0)
          in if latest_height_cons < latest_height_el
             then Some (Inl (if latest_height_cons = 0 then eyre ''Handshake: EL has blocks but CL has no committed state''
                             else eyre ''Handshake: inconsistent state''), s)
             else case height_increment latest_height_el of
               None \<Rightarrow> Some (Inl (Panicked ''block height overflow''), s)
             | Some replay_height \<Rightarrow>
                 (case replay_loop env api latest_height_cons replay_height latest_block s of
                    None \<Rightarrow> None
                  | Some (Inl e, s) \<Rightarrow> Some (Inl e, s)
                  | Some (Inr latest_block, s) \<Rightarrow>
                      Some (case height_increment (eb_block_number latest_block) of
                              None \<Rightarrow> Inl (Panicked ''block height overflow'')
                            | Some next_height \<Rightarrow>
                                Inr \<lparr>hr_previous_block = latest_block, hr_latest_height = latest_height_cons,
                                     hr_next_height = next_height\<rparr>, s)))))"

definition on_consensus_ready ::
  "('w, 'pk, 'cp, 'sig, 'ev, 'p, 'l) node_env \<Rightarrow> 'w startup_api \<Rightarrow> 'cp \<Rightarrow> nat \<Rightarrow> 'w sys
     \<Rightarrow> ((report + height \<times> 'pk validator list \<times> 'cp \<times> execution_block) \<times> 'w sys) option" where
  "on_consensus_ready env api default_params max_pending s =
     map_option (\<lambda>m.
       and_then m (\<lambda>hr s.
       and_then (on_db (enforce_pending_proposals_limit (ne_redb env) max_pending (hr_next_height hr)) s) (\<lambda>_ s.
       and_then (read_db (get_pending_proposal_parts_count (ne_redb env)) s) (\<lambda>_ s.
       and_then (on_world (eth_signing_validator_set (ne_engine env) (hr_next_height hr)) s) (\<lambda>validator_set s.
         let (r, w) = eth_consensus_params (ne_engine env) (hr_latest_height hr) (snd s);
             consensus_params = (case r of Inr p \<Rightarrow> p | Inl _ \<Rightarrow> default_params)
         in (Inr (hr_next_height hr, validator_set, consensus_params, hr_previous_block hr), (fst s, w)))))))
     (handshake_and_replay env api s)"

definition consensus_ready_handle ::
  "('w, 'pk, 'cp, 'sig, 'ev, 'p::linorder, 'l) node_env \<Rightarrow> 'w startup_api \<Rightarrow> 'cp \<Rightarrow> u64 \<Rightarrow> u64
     \<Rightarrow> ('w, 'pk, 'cp, 'sig, 'p, 'l) app_state
     \<Rightarrow> ((report + height \<times> 'pk validator list) \<times> ('w, 'pk, 'cp, 'sig, 'p, 'l) app_state) option" where
  "consensus_ready_handle env api default_params parallel_requests batch_size st =
     (case max_pending_proposals parallel_requests batch_size of
        Inl e \<Rightarrow> Some (Inl e, st)
      | Inr limit \<Rightarrow>
          map_option (\<lambda>(r, db, w).
            let st = st\<lparr>as_store := db, as_world := w\<rparr>
            in case r of
                 Inl e \<Rightarrow> (Inl e, st)
               | Inr (next_height, next_validator_set, next_consensus_params, previous_block) \<Rightarrow>
                   (let st = st\<lparr>as_previous_block := Some previous_block, as_current_height := next_height\<rparr>;
                        st = set_validator_set env next_validator_set st;
                        st = st\<lparr>as_consensus_params := next_consensus_params\<rparr>
                    in (Inr (next_height, next_validator_set), st)))
          (on_consensus_ready env api default_params limit (as_store st, as_world st)))"

section \<open>The handshake returns\<close>

text \<open>
  Polling ends: some amount of remaining time shrinks with every poll that has not timed out, and
  asking for a block does not give time back.
\<close>

definition poll_law :: "'w startup_api \<Rightarrow> ('w \<Rightarrow> nat) \<Rightarrow> bool" where
  "poll_law api remaining \<longleftrightarrow>
     (\<forall>w w'. st_tick api w = (False, w') \<longrightarrow> remaining w' < remaining w)
     \<and> (\<forall>h w r w'. st_block_by_number api h w = (r, w') \<longrightarrow> remaining w' \<le> remaining w)"

text \<open>The client answers a request for a block by number with a block of that number.\<close>

definition block_number_law :: "'w startup_api \<Rightarrow> bool" where
  "block_number_law api \<longleftrightarrow>
     (\<forall>h w b w'. st_block_by_number api h w = (Inr (Some b), w') \<longrightarrow> eb_block_number b = h)"

lemma poll_checkpoint_returns:
  assumes "poll_law api remaining"
  shows "\<exists>r w'. poll_checkpoint api hash h w = Some (r, w')
    \<and> (block_number_law api \<longrightarrow> (\<forall>b. r = Inr b \<longrightarrow> eb_block_number b = h \<and> eb_block_hash b = hash))"
proof (induction "remaining w" arbitrary: w rule: less_induct)
  case less
  obtain t w1 where tick: "st_tick api w = (t, w1)" by (rule prod.exhaust)
  obtain r w2 where ask: "st_block_by_number api h w1 = (r, w2)" by (rule prod.exhaust)
  show ?case
  proof (cases "\<not> t \<and> r = Inr None")
    case True
    then have "remaining w2 < remaining w"
      using assms tick ask unfolding poll_law_def by (metis (full_types) le_less_trans)
    then have "\<exists>r w'. poll_checkpoint api hash h w2 = Some (r, w')
      \<and> (block_number_law api \<longrightarrow> (\<forall>b. r = Inr b \<longrightarrow> eb_block_number b = h \<and> eb_block_hash b = hash))" by (rule less)
    moreover have "poll_checkpoint api hash h w = poll_checkpoint api hash h w2"
      using True tick ask by (subst poll_checkpoint.simps) simp
    ultimately show ?thesis by simp
  next
    case False
    have "block_number_law api \<longrightarrow> (\<forall>b. r = Inr (Some b) \<longrightarrow> eb_block_number b = h)"
      using ask unfolding block_number_law_def by blast
    then show ?thesis
      using False tick ask by (subst poll_checkpoint.simps) (auto split: sum.splits option.splits)
  qed
qed

lemma checkpoint_sync_returns:
  assumes "poll_law api remaining"
  shows "\<exists>r w'. checkpoint_sync engine api hash h w = Some (r, w')
    \<and> (block_number_law api \<longrightarrow> (\<forall>b. r = Inr b \<longrightarrow> eb_block_number b = h))"
proof -
  obtain f w1 where fcu: "api_forkchoice_updated engine hash None w = (f, w1)" by (rule prod.exhaust)
  have poll: "\<exists>r w'. poll_checkpoint api hash h w1 = Some (r, w')
      \<and> (block_number_law api \<longrightarrow> (\<forall>b. r = Inr b \<longrightarrow> eb_block_number b = h))"
    using poll_checkpoint_returns [OF assms, of hash h w1] by blast
  obtain r w2 where ask: "st_block_by_number api h w1 = (r, w2)" by (rule prod.exhaust)
  have "block_number_law api \<longrightarrow> (\<forall>b. r = Inr (Some b) \<longrightarrow> eb_block_number b = h)"
    using ask unfolding block_number_law_def by blast
  then show ?thesis
    using fcu poll ask
    by (cases f; cases r) (auto simp: checkpoint_sync_def split: payload_status_enum.splits option.splits)
qed

text \<open>
  The execution client follows the decisions: a block it names for a number is the one decided
  for that height, if one is stored.
\<close>

definition follows_law :: "'w startup_api \<Rightarrow> ('sig, 'ev) store_codec \<Rightarrow> tables \<Rightarrow> bool" where
  "follows_law api codec db \<longleftrightarrow>
     (\<forall>w b w' p. st_latest_block api w = (Inr (Some b), w') \<and> decided_at codec db (eb_block_number b) = Some p
        \<longrightarrow> eb_block_hash b = pl_block_hash p)
     \<and> (\<forall>h w b w' p. st_block_by_number api h w = (Inr (Some b), w') \<and> decided_at codec db h = Some p
        \<longrightarrow> eb_block_hash b = pl_block_hash p)"

definition agrees :: "('sig, 'ev) store_codec \<Rightarrow> tables \<Rightarrow> execution_block \<Rightarrow> bool" where
  "agrees codec db b \<longleftrightarrow> (\<forall>p. decided_at codec db (eb_block_number b) = Some p \<longrightarrow> eb_block_hash b = pl_block_hash p)"

lemma replay_block_db: "db_of (replay_block env h prev s) = fst s"
  by (auto simp: replay_block_def read_db_def on_db_def on_world_def Let_def
      split: prod.splits sum.splits option.splits payload_validation_result.splits)

lemma get_payload_at: "get_payload env codec h db = Inr (Some p) \<Longrightarrow> payload_at codec db h = Some p"
  by (auto simp: get_payload_def read_tx_def decoded_row_def decoded_def payload_at_def right_or_none_def
      split: option.splits sum.splits)

lemma replay_block_Inr:
  assumes "replay_block env h prev s = (Inr b, s')"
  shows "eb_block_number b = h" and "agrees (ne_codec env) (fst s) b"
proof -
  obtain p where p: "get_payload (ne_redb env) (ne_codec env) h (fst s) = Inr (Some p)"
      "check_payload_binding p h (Some prev) = Inr ()" "b = execution_block_of p"
    using assms by (auto simp: replay_block_def read_db_def on_db_def finalize_decided_block_def on_world_def Let_def
        elim!: and_then_eq_InrE
        split: prod.splits sum.splits option.splits payload_validation_result.splits store_error.splits)
  then have h: "pl_block_number p = h" by (simp add: check_payload_binding_Inr)
  then show "eb_block_number b = h" using p(3) by (simp add: execution_block_of_def)
  show "agrees (ne_codec env) (fst s) b"
    using p(3) h get_payload_at [OF p(1)]
    by (auto simp: agrees_def decided_at_def execution_block_of_def split: option.splits)
qed

lemma checkpoint_sync_agrees:
  assumes "checkpoint_sync engine api hash h w = Some (Inr b, w')" and "follows_law api codec db" and "block_number_law api"
    and "poll_law api remaining"
    and "\<And>p. decided_at codec db h = Some p \<Longrightarrow> pl_block_hash p = hash"
  shows "eb_block_number b = h" and "agrees codec db b"
proof -
  show number: "eb_block_number b = h"
    using checkpoint_sync_returns [OF assms(4), of engine hash h w] assms(1,3) by auto
  obtain f w1 where fcu: "api_forkchoice_updated engine hash None w = (Inr f, w1)"
    using assms(1) by (auto simp: checkpoint_sync_def split: prod.splits sum.splits)
  consider (poll) "poll_checkpoint api hash h w1 = Some (Inr b, w')"
    | (valid) "st_block_by_number api h w1 = (Inr (Some b), w')"
    using assms(1) fcu
    by (auto simp: checkpoint_sync_def elim!: and_then_eq_InrE split: payload_status_enum.splits option.splits)
  then show "agrees codec db b"
  proof cases
    case poll
    then have "eb_block_hash b = hash" using poll_checkpoint_returns [OF assms(4), of hash h w1] assms(3) by auto
    then show ?thesis using assms(5) number by (auto simp: agrees_def)
  next
    case valid
    then show ?thesis using assms(2) number unfolding agrees_def follows_law_def by blast
  qed
qed

text \<open>What the replay promises of the block it ends with.\<close>

definition resumes ::
  "('w, 'pk, 'cp, 'sig, 'ev, 'p, 'l) node_env \<Rightarrow> 'w startup_api \<Rightarrow> height \<Rightarrow> height \<Rightarrow> execution_block \<Rightarrow> tables
     \<Rightarrow> execution_block \<Rightarrow> bool" where
  "resumes env api tip h latest db b \<longleftrightarrow>
     (block_number_law api \<and> follows_law api (ne_codec env) db \<and> store_inv (ne_codec env) db
        \<and> agrees (ne_codec env) db latest \<and> height_increment (eb_block_number latest) = Some h \<and> eb_block_number latest \<le> tip
      \<longrightarrow> eb_block_number b = tip \<and> agrees (ne_codec env) db b)"

lemma resumes_done: "tip < h \<Longrightarrow> resumes env api tip h latest db latest"
proof -
  assume past: "tip < h"
  have "eb_block_number latest = tip" if "height_increment (eb_block_number latest) = Some h" "eb_block_number latest \<le> tip"
    using that past by (simp add: height_increment_iff word_le_nat_alt word_less_nat_alt word_unat_eq_iff)
  then show ?thesis by (simp add: resumes_def)
qed

lemma resumes_step:
  assumes "eb_block_number block = h" and "agrees (ne_codec env) db block" and "height_increment h = Some h'" and "h \<le> tip"
    and "resumes env api tip h' block db b"
  shows "resumes env api tip h latest db b"
  using assms by (simp add: resumes_def)

lemma resumes_checkpoint:
  assumes poll: "poll_law api remaining" and run: "checkpoint_sync (ne_engine env) api (cc_value_id (scc_certificate c)) tip w = Some (Inr b, w')"
    and cert: "get_certificate (ne_redb env) (ne_codec env) (Some tip) db = Inr (Some c)"
  shows "resumes env api tip h latest db b"
  unfolding resumes_def
proof (intro impI, elim conjE)
  assume laws: "block_number_law api" "follows_law api (ne_codec env) db" and inv: "store_inv (ne_codec env) db"
  have "certificate_at (ne_codec env) db tip = Some c"
    using cert get_certificate_at [of "ne_redb env" db "ne_codec env" tip]
    by (auto simp: get_certificate_def read_tx_def certificate_at_def split: option.splits)
  then have "pl_block_hash p = cc_value_id (scc_certificate c)" if "decided_at (ne_codec env) db tip = Some p" for p
    using inv that unfolding store_inv_def decided_at_def by (auto split: option.splits)
  then show "eb_block_number b = tip \<and> agrees (ne_codec env) db b"
    using checkpoint_sync_agrees [OF run laws(2,1) poll] by blast
qed

lemma replay_loop_returns:
  assumes poll: "poll_law api remaining"
  shows "\<exists>r s'. replay_loop env api tip h latest s = Some (r, s') \<and> fst s' = fst s
    \<and> (\<forall>b. r = Inr b \<longrightarrow> resumes env api tip h latest (fst s) b)"
proof (induction "Suc (unat tip) - unat h" arbitrary: h latest s rule: less_induct)
  case less
  show ?case
  proof (cases "tip < h")
    case True
    then show ?thesis using resumes_done [OF True] by (subst replay_loop.simps) simp
  next
    case False
    obtain r0 s0 where rb: "replay_block env h latest s = (r0, s0)" by (rule prod.exhaust)
    have same: "fst s0 = fst s" using replay_block_db [of env h latest s] rb by simp
    show ?thesis
    proof (cases r0)
      case (Inr block)
      let ?s1 = "snd (on_world (wait_for_persisted_block (ne_engine env) (eb_block_number block)) s0)"
      note facts = replay_block_Inr [OF rb [unfolded Inr]]
      show ?thesis
      proof (cases "height_increment h")
        case None
        then show ?thesis using False rb Inr same by (subst replay_loop.simps) (simp add: Let_def)
      next
        case (Some h')
        then have "Suc (unat tip) - unat h' < Suc (unat tip) - unat h"
          using False by (simp add: height_increment_iff word_less_nat_alt not_less)
        from less [OF this, of block ?s1] obtain r s' where
          "replay_loop env api tip h' block ?s1 = Some (r, s')" "fst s' = fst s" "\<forall>b. r = Inr b \<longrightarrow> resumes env api tip h' block (fst s) b"
          using same by auto
        moreover have "replay_loop env api tip h latest s = replay_loop env api tip h' block ?s1"
          using False rb Inr Some by (subst replay_loop.simps) (simp add: Let_def)
        ultimately show ?thesis using resumes_step [OF facts Some] False by auto
      qed
    next
      case (Inl e)
      show ?thesis
      proof (cases e)
        case (ReplayOther err)
        then show ?thesis using False rb Inl same by (subst replay_loop.simps) simp
      next
        case (PayloadMissing k)
        obtain cr s1 where rd: "read_db (get_certificate (ne_redb env) (ne_codec env) (Some tip)) s0 = (cr, s1)" by (rule prod.exhaust)
        have s1: "fst s1 = fst s" using read_db_db [of "get_certificate (ne_redb env) (ne_codec env) (Some tip)" s0] rd same by simp
        have unfolded: "replay_loop env api tip h latest s = (case (cr, s1) of
             (Inl e, s) \<Rightarrow> Some (Inl e, s)
           | (Inr None, s) \<Rightarrow> Some (Inl (eyre ''Handshake: no certificate''), s)
           | (Inr (Some certificate), s) \<Rightarrow>
               map_option (\<lambda>(r, w). (r, (fst s, w)))
                 (checkpoint_sync (ne_engine env) api (cc_value_id (scc_certificate certificate)) tip (snd s)))"
          using False rb Inl PayloadMissing rd by (subst replay_loop.simps) simp
        show ?thesis
        proof (cases "\<exists>c. cr = Inr (Some c)")
          case True
          then obtain c where c: "cr = Inr (Some c)" by blast
          then have cert: "get_certificate (ne_redb env) (ne_codec env) (Some tip) (fst s) = Inr (Some c)"
            using rd same by (auto simp: read_db_def on_db_def Let_def split: sum.splits store_error.splits)
          obtain r w' where run: "checkpoint_sync (ne_engine env) api (cc_value_id (scc_certificate c)) tip (snd s1) = Some (r, w')"
            using checkpoint_sync_returns [OF poll] by blast
          then show ?thesis
            using unfolded c s1 resumes_checkpoint [OF poll _ cert] by auto
        next
          case False
          then show ?thesis using unfolded s1 by (cases s1) (auto split: sum.splits option.splits)
        qed
      qed
    qed
  qed
qed

definition tip_of :: "tables \<Rightarrow> height" where
  "tip_of db = (case bt_last (certificates db) of Some (h, _) \<Rightarrow> h | None \<Rightarrow> 0)"

lemma max_height_tip: "max_height env db = Inr t \<Longrightarrow> (case t of Some h \<Rightarrow> h | None \<Rightarrow> 0) = tip_of db"
  by (auto simp: max_height_def limit_height_def read_tx_def tip_of_def split: option.splits prod.splits)

lemma read_db_Inr: "read_db f s = (Inr a, s') \<longleftrightarrow> f (fst s) = Inr a \<and> s' = s"
  by (auto simp: read_db_def on_db_def Let_def split: sum.splits store_error.splits)

lemma read_db_state: "read_db f s = (r, s') \<Longrightarrow> s' = s"
  by (auto simp: read_db_def on_db_def Let_def)

lemma on_world_fst: "on_world f s = (r, s') \<Longrightarrow> fst s' = fst s"
  by (auto simp: on_world_def Let_def split: prod.splits)

lemma handshake_returns:
  assumes poll: "poll_law api remaining"
  shows "\<exists>r s'. handshake_and_replay env api s = Some (r, s') \<and> fst s' = fst s
    \<and> (\<forall>hr. r = Inr hr \<and> block_number_law api \<and> follows_law api (ne_codec env) (fst s) \<and> store_inv (ne_codec env) (fst s)
        \<longrightarrow> hr_latest_height hr = tip_of (fst s) \<and> unat (hr_next_height hr) = unat (tip_of (fst s)) + 1
          \<and> eb_block_number (hr_previous_block hr) = tip_of (fst s)
          \<and> (\<forall>p. decided_at (ne_codec env) (fst s) (tip_of (fst s)) = Some p \<longrightarrow> eb_block_hash (hr_previous_block hr) = pl_block_hash p))"
    (is "\<exists>r s'. ?good r s'")
proof -
  have stop: "\<exists>r s'. ?good r s'" if "handshake_and_replay env api s = Some (Inl e, s')" "fst s' = fst s" for e s'
    using that by auto
  obtain r1 s1 where c1: "on_world (check_capabilities api) s = (r1, s1)" by (rule prod.exhaust)
  obtain r2 s2 where c2: "on_world (st_latest_block api) s1 = (r2, s2)" by (rule prod.exhaust)
  obtain r3 s3 where c3: "read_db (max_height (ne_redb env)) s2 = (r3, s3)" by (rule prod.exhaust)
  have same: "fst s1 = fst s" "fst s2 = fst s" "s3 = s2"
    using on_world_fst [OF c1] on_world_fst [OF c2] read_db_state [OF c3] by simp_all
  show ?thesis
  proof (cases "\<exists>u latest t. r1 = Inr u \<and> r2 = Inr (Some latest) \<and> r3 = Inr t")
    case False
    then show ?thesis
      using c1 c2 c3 same
      by (cases r1; cases r2; cases r3; cases s2) (auto simp: handshake_and_replay_def split: option.splits intro!: stop)
  next
    case True
    then obtain u latest t where ok: "r1 = Inr u" "r2 = Inr (Some latest)" "r3 = Inr t" by blast
    let ?tip = "tip_of (fst s)" and ?el = "eb_block_number latest"
    have tip: "(case t of Some h \<Rightarrow> h | None \<Rightarrow> 0) = ?tip"
      using max_height_tip [of "ne_redb env" "fst s2" t] c3 ok(3) same by (simp add: read_db_Inr)
    have found: "agrees (ne_codec env) (fst s) latest" if "follows_law api (ne_codec env) (fst s)"
      using that c2 ok(2) unfolding follows_law_def agrees_def on_world_def Let_def by (auto split: prod.splits)
    show ?thesis
    proof (cases "?tip < ?el \<or> height_increment ?el = None")
      case True
      then show ?thesis using c1 c2 c3 ok same tip by (cases s2) (auto simp: handshake_and_replay_def Let_def intro!: stop)
    next
      case False
      then obtain h where h: "height_increment ?el = Some h" and le: "?el \<le> ?tip" by (auto simp: not_less)
      obtain r4 s4 where loop: "replay_loop env api ?tip h latest s2 = Some (r4, s4)" and s4: "fst s4 = fst s"
        and res: "\<forall>b. r4 = Inr b \<longrightarrow> resumes env api ?tip h latest (fst s) b"
        using replay_loop_returns [OF poll, of env ?tip h latest s2] same by auto
      have run: "handshake_and_replay env api s = (case (r4, s4) of
            (Inl e, s) \<Rightarrow> Some (Inl e, s)
          | (Inr latest_block, s) \<Rightarrow>
              Some (case height_increment (eb_block_number latest_block) of
                      None \<Rightarrow> Inl (Panicked ''block height overflow'')
                    | Some next_height \<Rightarrow>
                        Inr \<lparr>hr_previous_block = latest_block, hr_latest_height = ?tip, hr_next_height = next_height\<rparr>, s))"
        using c1 c2 c3 ok same tip h leD [OF le] loop by (simp add: handshake_and_replay_def Let_def split: sum.splits)
      show ?thesis
      proof (cases r4)
        case (Inl e)
        then show ?thesis using run s4 by (intro stop [of e s4]) simp_all
      next
        case (Inr b)
        have "eb_block_number b = ?tip \<and> agrees (ne_codec env) (fst s) b"
          if "block_number_law api" "follows_law api (ne_codec env) (fst s)" "store_inv (ne_codec env) (fst s)"
          using res Inr that found h le by (simp add: resumes_def)
        then show ?thesis
          using run Inr s4
          by (cases "height_increment (eb_block_number b)") (auto simp: height_increment_iff agrees_def)
      qed
    qed
  qed
qed

lemma decided_above_tip:
  assumes "store_inv codec db" and "tip_of db < h"
  shows "decided_at codec db h = None"
proof -
  have "bt_get (certificates db) h = None"
  proof (cases "bt_last (certificates db)")
    case None
    then show ?thesis by (simp add: bt_get_def)
  next
    case (Some row)
    obtain k v where row: "row = (k, v)" by (rule prod.exhaust)
    then have "h \<notin> bt_keys (certificates db)"
      using bt_last_max(2) [OF store_inv_wf(1) [OF assms(1)], of k v h] Some assms(2) by (auto simp: tip_of_def)
    then show ?thesis using bt_get_None_iff [of "certificates db" h] by blast
  qed
  then show ?thesis by (simp add: decided_at_def certificate_at_def)
qed

lemma on_consensus_ready_cases:
  assumes laws: "store_codec_laws (ne_codec env)" and hs: "handshake_and_replay env api s = Some (r1, s1)"
  obtains r s2 where "on_consensus_ready env api dp limit s = Some (r, s2)" and "quiet (ne_codec env) (fst s1) (fst s2)"
    and "\<And>nh vs cp prev. r = Inr (nh, vs, cp, prev) \<Longrightarrow> \<exists>hr. r1 = Inr hr \<and> nh = hr_next_height hr \<and> prev = hr_previous_block hr"
proof -
  let ?k = "\<lambda>hr s. and_then (on_db (enforce_pending_proposals_limit (ne_redb env) limit (hr_next_height hr)) s) (\<lambda>_ s.
       and_then (read_db (get_pending_proposal_parts_count (ne_redb env)) s) (\<lambda>_ s.
       and_then (on_world (eth_signing_validator_set (ne_engine env) (hr_next_height hr)) s) (\<lambda>validator_set s.
         let (r, w) = eth_consensus_params (ne_engine env) (hr_latest_height hr) (snd s);
             consensus_params = (case r of Inr p \<Rightarrow> p | Inl _ \<Rightarrow> dp)
         in (Inr (hr_next_height hr, validator_set, consensus_params, hr_previous_block hr), (fst s, w)))))"
  obtain r s2 where out: "and_then (r1, s1) ?k = (r, s2)" by (rule prod.exhaust)
  then have run: "on_consensus_ready env api dp limit s = Some (r, s2)"
    unfolding on_consensus_ready_def hs by simp
  have rest: "quiet (ne_codec env) (fst s) (db_of (?k hr s))" for hr s
    by (intro quiet_and_then quiet_on_db quiet_operations(7) [OF laws] quiet_read_db quiet_on_world)
      (simp add: Let_def case_prod_unfold quiet_refl)
  have "quiet (ne_codec env) (fst s1) (db_of (and_then (r1, s1) ?k))"
    by (rule quiet_and_then [OF _ rest]) (simp add: quiet_refl)
  then have "quiet (ne_codec env) (fst s1) (fst s2)" unfolding out by simp
  moreover have "\<exists>hr. r1 = Inr hr \<and> nh = hr_next_height hr \<and> prev = hr_previous_block hr"
    if "r = Inr (nh, vs, cp, prev)" for nh vs cp prev
  proof (cases r1)
    case (Inl e)
    then show ?thesis using out that by simp
  next
    case (Inr hr)
    then show ?thesis using out that by (auto simp: Let_def case_prod_unfold elim!: and_then_eq_InrE)
  qed
  ultimately show thesis using that run by blast
qed

lemma consensus_ready_handle_cases:
  assumes "max_pending_proposals pr bs = Inr limit" and "as_decision st = None"
    and "on_consensus_ready env api dp limit (as_store st, as_world st) = Some (r, s2)"
  obtains (failed) e st' where "consensus_ready_handle env api dp pr bs st = Some (Inl e, st')"
  | (started) nh vs cp prev st' where "r = Inr (nh, vs, cp, prev)"
      and "consensus_ready_handle env api dp pr bs st = Some (Inr (nh, vs), st')"
      and "as_store st' = fst s2" and "as_current_height st' = nh" and "as_previous_block st' = Some prev"
      and "as_decision st' = None" and "as_validator_set st' = vs"
proof -
  obtain db w where s2: "s2 = (db, w)" by (rule prod.exhaust)
  show thesis
  proof (cases r)
    case (Inl e)
    then show thesis using assms s2 by (intro failed) (simp add: consensus_ready_handle_def Let_def)
  next
    case (Inr x)
    obtain nh vs cp prev where x: "x = (nh, vs, cp, prev)" by (metis prod.exhaust)
    let ?st = "set_validator_set env vs (st\<lparr>as_store := db, as_world := w, as_previous_block := Some prev,
        as_current_height := nh\<rparr>)\<lparr>as_consensus_params := cp\<rparr>"
    show thesis
      by (rule started [OF Inr [unfolded x], of ?st])
        (use assms s2 in \<open>simp_all add: Inr x consensus_ready_handle_def set_validator_set_def Let_def\<close>)
  qed
qed


end
