(* ===== verification/App_Queries.thy ===== *)
theory App_Queries
  imports App_Safety
begin

text \<open>
  What the sync protocol is served with: decided values of the requested and available heights,
  each with its own certificate, within the limits of the configuration.
\<close>

lemma get_clamped_request_range_Some:
  assumes "get_clamped_request_range lo hi earliest latest batch = Inr (Some (start, stop))"
  shows "lo \<le> start" and "earliest \<le> start" and "start \<le> stop" and "stop \<le> hi" and "stop \<le> latest"
    and "unat stop - unat start + 1 \<le> unat batch"
proof -
  let ?s = "if lo < earliest then earliest else lo" and ?e = "if latest < hi then latest else hi"
  have order: "\<not> latest < earliest" "\<not> hi < lo" "\<not> (hi < earliest \<or> latest < lo)" and nz: "batch \<noteq> 0"
    using assms by (auto simp: get_clamped_request_range_def Let_def split: if_splits)
  have le: "?s \<le> ?e" "earliest \<le> ?s" "lo \<le> ?s" "?e \<le> latest" "?e \<le> hi" using order by auto
  have body: "get_clamped_request_range lo hi earliest latest batch = (case checked_add (?e - ?s) 1 of None \<Rightarrow> Inr None
      | Some n \<Rightarrow> if batch < n then (case height_increment_by ?s (saturating_sub batch 1) of
          None \<Rightarrow> Inl (Panicked ''height overflow'') | Some e \<Rightarrow> Inr (Some (?s, e))) else Inr (Some (?s, ?e)))"
    by (simp only: get_clamped_request_range_def Let_def order nz if_False)
  obtain n where n: "checked_add (?e - ?s) 1 = Some n" using assms unfolding body by (cases "checked_add (?e - ?s) 1") auto
  have n_nat: "unat n = unat ?e - unat ?s + 1"
    using n unat_sub [OF le(1)] by (simp only: checked_add_iff) simp
  have run: "(if batch < n then (case height_increment_by ?s (saturating_sub batch 1) of
        None \<Rightarrow> Inl (Panicked ''height overflow'') | Some e \<Rightarrow> Inr (Some (?s, e))) else Inr (Some (?s, ?e))) = Inr (Some (start, stop))"
    using assms unfolding body n by simp
  have start: "start = ?s" using run by (auto split: if_splits option.splits)
  have "start \<le> stop \<and> stop \<le> ?e \<and> unat stop - unat start + 1 \<le> unat batch"
  proof (cases "batch < n")
    case True
    then have "unat stop = unat ?s + (unat batch - 1)"
      using run by (auto simp: height_increment_by_def checked_add_iff unat_saturating_sub split: option.splits)
    moreover have "0 < unat batch" using nz by (simp add: unat_gt_0)
    ultimately show ?thesis using True n_nat start by (auto simp: word_le_nat_alt word_less_nat_alt)
  next
    case False
    then show ?thesis using run n_nat le(1) start by (auto simp: word_le_nat_alt word_less_nat_alt)
  qed
  then show "lo \<le> start" "earliest \<le> start" "start \<le> stop" "stop \<le> hi" "stop \<le> latest"
    "unat stop - unat start + 1 \<le> unat batch"
    using le start by auto
qed

lemma get_raw_decided_value_Inr:
  assumes inv: "store_inv (ne_codec env) (fst s)" and run: "get_raw_decided_value env len p h s = (Inr (v, n), s')"
  shows "s' = s" and "len h v = Some n" and "rv_value_bytes v = ne_ssz env p" and "cc_height (rv_certificate v) = h"
    and "cc_value_id (rv_certificate v) = pl_block_hash p"
proof -
  obtain stored where st: "get_certificate (ne_redb env) (ne_codec env) (Some h) (fst s) = Inr (Some stored)"
    and s': "s' = s" and hash: "pl_block_hash p = cc_value_id (scc_certificate stored)"
    and v: "v = \<lparr>rv_certificate = scc_certificate stored, rv_value_bytes = ne_ssz env p\<rparr>" and n: "len h v = Some n"
    using run
    by (auto simp: get_raw_decided_value_def read_db_def on_db_def Let_def decided_block_new_def elim!: and_then_eq_InrE
        split: sum.splits option.splits store_error.splits if_splits)
  have "certificate_at (ne_codec env) (fst s) h = Some stored"
    using st by (auto simp: get_certificate_def read_tx_def certificate_at_def split: option.splits)
  then have "cc_height (scc_certificate stored) = h" by (rule certificate_at_height [OF inv])
  then show "s' = s" "len h v = Some n" "rv_value_bytes v = ne_ssz env p" "cc_height (rv_certificate v) = h"
    "cc_value_id (rv_certificate v) = pl_block_hash p" using s' hash v n by simp_all
qed

definition value_len :: "(height \<Rightarrow> 'sig raw_decided_value \<Rightarrow> u64 option) \<Rightarrow> 'sig raw_decided_value \<Rightarrow> nat" where
  "value_len len v = (case len (cc_height (rv_certificate v)) v of Some n \<Rightarrow> unat n | None \<Rightarrow> 0)"

lemma collect_decided_values_Inr:
  assumes inv: "store_inv (ne_codec env) (fst s)" and tot: "tot \<le> mx"
    and run: "collect_decided_values env len mx tot rows s = (Inr vs, s')"
  shows "unat tot + sum_list (map (value_len len) vs) \<le> unat mx \<and> length vs \<le> length rows
    \<and> (\<forall>v \<in> set vs. \<exists>h p. (h, Some p) \<in> set rows \<and> cc_height (rv_certificate v) = h
          \<and> cc_value_id (rv_certificate v) = pl_block_hash p \<and> rv_value_bytes v = ne_ssz env p)"
  using tot run inv
proof (induction rows arbitrary: tot vs s)
  case Nil
  then show ?case by (auto simp: word_le_nat_alt)
next
  case (Cons row rows)
  obtain h op where row: "row = (h, op)" by (rule prod.exhaust)
  show ?case
  proof (cases op)
    case None
    then show ?thesis using Cons.IH [OF Cons.prems(1) _ Cons.prems(3), of vs] Cons.prems(2) row by fastforce
  next
    case (Some p)
    obtain r s1 where raw: "get_raw_decided_value env len p h s = (r, s1)" by (rule prod.exhaust)
    have s1: "fst s1 = fst s" using get_raw_decided_value_db [of env len p h s] raw by simp
    then have inv1: "store_inv (ne_codec env) (fst s1)" using Cons.prems(3) by simp
    show ?thesis
    proof (cases r)
      case (Inl e)
      then have "collect_decided_values env len mx tot rows s1 = (Inr vs, s')"
        using Cons.prems(2) row Some raw by (cases e) auto
      then show ?thesis using Cons.IH [OF Cons.prems(1) _ inv1, of vs] row by fastforce
    next
      case (Inr vn)
      obtain v n where vn: "vn = (v, n)" by (rule prod.exhaust)
      note facts = get_raw_decided_value_Inr [OF Cons.prems(3) raw [unfolded Inr vn]]
      show ?thesis
      proof (cases "mx < n \<or> mx - n < tot")
        case True
        then have "vs = []" using Cons.prems(2) row Some raw Inr vn by simp
        then show ?thesis using Cons.prems(1) by (simp add: word_le_nat_alt)
      next
        case False
        then have fits: "n \<le> mx" "tot \<le> mx - n" by auto
        then have sum: "unat (tot + n) = unat tot + unat n" "tot + n \<le> mx"
          using unat_sub [of n mx] unat_lt2p [of mx] by (auto simp: word_le_nat_alt unat_add_lem [THEN iffD1])
        from Cons.prems(2) row Some raw Inr vn False obtain vs' where
          rest: "collect_decided_values env len mx (tot + n) rows s1 = (Inr vs', s')" and vs: "vs = v # vs'"
          by (auto elim!: and_then_eq_InrE)
        have "value_len len v = unat n" using facts(2,4) by (simp add: value_len_def)
        then show ?thesis
          using Cons.IH [OF sum(2) rest inv1] sum(1) facts(3-5) by (auto simp: vs row Some)
      qed
    qed
  qed
qed

text \<open>
  (C17) What the application serves for a sync request: values of heights that were requested and
  are available, each with the certificate of its own height that names its payload, at most the
  batch size in number and the response size in bytes.
\<close>

theorem decided_values_bounded:
  assumes "store_inv (ne_codec env) (fst s)"
    and "get_decided_values env len (lo, hi) (earliest, latest) batch_size max_response_size s = (Inr vs, s')"
  shows "length vs \<le> unat batch_size \<and> sum_list (map (value_len len) vs) \<le> unat max_response_size
    \<and> (\<forall>v \<in> set vs. let h = cc_height (rv_certificate v) in max lo earliest \<le> h \<and> h \<le> min hi latest
          \<and> (\<exists>p. rv_value_bytes v = ne_ssz env p \<and> pl_block_hash p = cc_value_id (rv_certificate v)))"
proof (cases "get_clamped_request_range lo hi earliest latest batch_size")
  case (Inl e)
  then show ?thesis using assms(2) by (simp add: get_decided_values_def)
next
  case (Inr rg)
  show ?thesis
  proof (cases rg)
    case None
    then show ?thesis using assms(2) Inr by (simp add: get_decided_values_def)
  next
    case (Some ab)
    obtain a b where ab: "ab = (a, b)" by (rule prod.exhaust)
    note range = get_clamped_request_range_Some [OF Inr [unfolded Some ab]]
    define hs :: "height list" where "hs = map word_of_nat [unat a..<Suc (unat b)]"
    obtain ps s1 where el: "on_world (eth_execution_payloads (ne_engine env) hs) s = (Inr ps, s1)"
      and col: "collect_decided_values env len max_response_size 0 (zip hs ps) s1 = (Inr vs, s')"
      using assms(2) Inr Some ab by (auto simp: get_decided_values_def hs_def Let_def elim!: and_then_eq_InrE)
    have "fst s1 = fst s" using on_world_db [of "eth_execution_payloads (ne_engine env) hs" s] el by simp
    note out = collect_decided_values_Inr [OF _ _ col]
    have "length vs \<le> length hs" using out assms(1) \<open>fst s1 = fst s\<close> by auto
    moreover have "length hs = unat b - unat a + 1" using range(3) by (simp add: hs_def word_le_nat_alt)
    ultimately have "length vs \<le> unat batch_size" using range(6) by simp
    moreover have "a \<le> h \<and> h \<le> b" if mem: "h \<in> set hs" for h
    proof -
      obtain m where m: "h = word_of_nat m" "m \<in> {unat a..<Suc (unat b)}"
        using mem unfolding hs_def by (auto simp del: upt_Suc)
      then have m: "h = word_of_nat m" "unat a \<le> m" "m \<le> unat b" by auto
      have "m < 2 ^ 64" using m(3) unat_lt2p [of b] by simp
      then have "unat h = m" by (simp add: m(1) unat_of_nat take_bit_nat_eq_self)
      then show ?thesis using m by (simp add: word_le_nat_alt)
    qed
    ultimately show ?thesis
      using out assms(1) \<open>fst s1 = fst s\<close> range by (fastforce simp: Let_def dest: set_zip_leftD)
  qed
qed

end
