(* ===== verification/App_Instance.thy ===== *)
theory App_Instance
  imports App_Votes App_Startup App_Queries Store_Instance
begin

text \<open>
  A node to run: an execution client that accepts every payload and builds the block above its
  parent, on the database of the store's example. The properties of the application at work.
\<close>

section \<open>A node\<close>

abbreviation five :: exec_payload where
  "five \<equiv> Store_Instance.ex_payload"

definition valid_status :: "block_hash \<Rightarrow> payload_status" where
  "valid_status h = \<lparr>ps_status = PsValid, ps_latest_valid_hash = Some h\<rparr>"

definition ex_engine :: "(unit, unit, unit) engine_api" where
  "ex_engine =
     \<lparr>api_forkchoice_updated = (\<lambda>h attrs w.
        (Inr \<lparr>fu_payload_status = valid_status h, fu_payload_id = map_option (\<lambda>_. 1) attrs\<rparr>, w)),
      api_get_payload = (\<lambda>_ _ w. (Inr five, w)),
      api_new_payload = (\<lambda>p _ _ w. (Inr (valid_status (pl_block_hash p)), w)),
      api_is_osaka_active = None, api_timestamp_now = (\<lambda>w. (100, w)),
      eth_signing_validator_set = (\<lambda>_ w. (Inr [\<lparr>val_address = 1, val_public_key = (), val_voting_power = 1\<rparr>], w)),
      eth_consensus_params = (\<lambda>_ w. (Inr (), w)),
      eth_earliest_block = (\<lambda>w. (Inr None, w)),
      eth_execution_payloads = (\<lambda>hs w. (Inr (map (\<lambda>_. Some five) hs), w)),
      wait_for_persisted_block = (\<lambda>_ w. (Inr (), w))\<rparr>"

definition ex_node :: "(unit, unit, unit, unit, unit, nat, (nat \<times> bytes) list) node_env" where
  "ex_node =
     \<lparr>ne_redb = ok_env, ne_codec = ex_codec, ne_engine = ex_engine, ne_verify = (\<lambda>_ _ _. Inr SigValid),
      ne_sign = (\<lambda>_. Inr ()), ne_ssz = (\<lambda>_. []), ne_unssz = (\<lambda>_. Inr five), ne_hash_of = (\<lambda>_. Inr 9),
      ne_api_text = (\<lambda>_. ''''), ne_binding_text = (\<lambda>_. ''''), ne_round_from = (\<lambda>i. Round (of_int i)),
      ne_lru = recency_lru, ne_network_id = (\<lambda>_. [])\<rparr>"

lemma ex_node_simps [simp]:
  "ne_redb ex_node = ok_env" "ne_codec ex_node = ex_codec" "ne_engine ex_node = ex_engine"
  "ne_verify ex_node = (\<lambda>_ _ _. Inr SigValid)" "ne_sign ex_node = (\<lambda>_. Inr ())" "ne_ssz ex_node = (\<lambda>_. [])"
  "ne_unssz ex_node = (\<lambda>_. Inr five)" "ne_hash_of ex_node = (\<lambda>_. Inr 9)" "ne_round_from ex_node = (\<lambda>i. Round (of_int i))"
  by (simp_all add: ex_node_def)

lemma five_simps [simp]:
  "pl_block_number five = 5" "pl_parent_hash five = 4" "pl_block_hash five = 9" "pl_timestamp five = 100"
  by (simp_all add: Store_Instance.ex_payload_def)

definition block_five :: "unit consensus_block" where
  "block_five = \<lparr>cb_height = 5, cb_round = Round 0, cb_valid_round = RoundNil, cb_proposer = 1, cb_validity = Valid,
     cb_payload = five, cb_signature = Some ()\<rparr>"

lemma block_five_simps [simp]:
  "cb_height block_five = 5" "cb_round block_five = Round 0" "cb_proposer block_five = 1" "cb_validity block_five = Valid"
  "cb_payload block_five = five" "cb_signature block_five = Some ()" "block_key block_five = (5, 0, 9)"
  "block_five\<lparr>cb_signature := Some ()\<rparr> = block_five"
  by (simp_all add: block_five_def block_key_def self_reported_block_hash_def)

lemma ex_certificate_simps [simp]: "cc_height (ex_certificate sigs) = 5" "cc_value_id (ex_certificate sigs) = 9"
  by (simp_all add: ex_certificate_def)

lemma ex_codec_simps [simp]:
  "enc_block ex_codec = put_block" "dec_block ex_codec (put_block b) = Inr b"
  "enc_payload ex_codec = put_payload" "dec_payload ex_codec (put_payload p) = Inr p"
  "dec_certificate ex_codec [1] = Inr ex_minimal"
  by (simp_all add: ex_codec_def take_put_block take_put_payload)

definition undecided_db :: tables where
  "undecided_db = empty_tables\<lparr>undecided_blocks := [((5, 0, 9), put_block block_five)]\<rparr>"

lemma undecided_db_inv: "store_inv ex_codec undecided_db"
  using store_step_inv [OF ex_codec_laws store_inv_empty, of ok_env "StoreUndecided block_five"]
  by (simp add: store_undecided_block_def write_tx_def insert_undecided_block_def undecided_db_def empty_tables_def)

definition parent_four :: execution_block where
  "parent_four = \<lparr>eb_block_hash = 4, eb_block_number = 4, eb_parent_hash = 3, eb_timestamp = 90\<rparr>"

definition at_five :: "tables \<Rightarrow> (unit, unit, unit, unit, nat, (nat \<times> bytes) list) app_state" where
  "at_five db =
     \<lparr>as_address = 1, as_fee_recipient = 0,
      as_validator_set = [\<lparr>val_address = 1, val_public_key = (), val_voting_power = 1\<rparr>], as_stream_nonce = 0,
      as_streams = part_streams_map_new recency_lru 0 5 1, as_network_id = [], as_current_height = 5,
      as_current_round = Round 0, as_current_proposer = Some 1, as_decision = None, as_sync_state = InSync,
      as_previous_block = Some parent_four, as_consensus_params = (), as_proposal_monitor = None, as_early_arrivals = [],
      as_store = db, as_world = ()\<rparr>"

definition ex_decided_config :: "unit decided_config" where
  "ex_decided_config = \<lparr>dc_pruning = \<lparr>pc_certificates_distance = 0, pc_certificates_before = 0\<rparr>,
     dc_target_block_time = (\<lambda>_. None), dc_default_params = (), dc_catch_up_threshold = 1000, dc_halt_height = None\<rparr>"

definition ex_config :: "(unit, unit) app_config" where
  "ex_config = \<lparr>ac_decided = ex_decided_config, ac_max_pending = 10, ac_sync_enabled = True, ac_batch_size = 5,
     ac_max_response_size = 1000, ac_encoded_len = (\<lambda>_ _. Some 100)\<rparr>"

lemma no_certificate: "certificates db = [] \<Longrightarrow> decided_at codec db h = None"
  by (simp add: decided_at_def certificate_at_def bt_get_def)

lemma at_five_inv: "app_inv ex_codec (at_five undecided_db)"
proof -
  have "decided_at ex_codec undecided_db h = None" for h
    by (rule no_certificate) (simp add: undecided_db_def empty_tables_def)
  then show ?thesis
    by (simp add: app_inv_def position_ok_def chain_linked_def at_five_def undecided_db_inv)
qed

section \<open>A decision\<close>

lemma store_five:
  "store_decided_block ok_env ex_codec (ex_certificate [(1, ())]) five 1 undecided_db
     = (Inr (), undecided_db\<lparr>decided_blocks := [(5, put_payload five)], certificates := [(5, [1])]\<rparr>)"
  by (simp add: store_decided_block_def decided_block_new_def insert_decided_block_def insert_certificate_def write_tx_def
      ex_codec_def ex_minimal_def ex_certificate_def undecided_db_def empty_tables_def Let_def)

lemma clean_five:
  "clean_stale_consensus_data ok_env 5 (undecided_db\<lparr>decided_blocks := [(5, put_payload five)], certificates := [(5, [1])]\<rparr>)
     = (Inr (), ex_db)"
  by (simp add: clean_stale_consensus_data_def write_tx_def undecided_db_def empty_tables_def ex_db_def bt_retain_def)

lemma finalize_five: "finalize_decided_block ex_node five () = (Inr (execution_block_of five, 9), ())"
  by (simp add: finalize_decided_block_def set_latest_forkchoice_state_def ex_engine_def valid_status_def)

lemma prune_five: "prune_blocks ok_env ex_db = (Inr [], ex_db)"
  by (simp add: prune_blocks_def prune_height_table_batch_def max_height_def limit_height_def read_tx_def ex_db_def
      empty_tables_def bt_last_def Let_def height_range_def height_saturating_sub_def saturating_sub_def RETH_AMNESIA_HEIGHT_COUNT_def)

lemma commit_five:
  "commit ex_node (dc_pruning ex_decided_config) (ex_certificate [(1, ())]) block_five (undecided_db, ())
     = ((True, Inr (execution_block_of five)), (ex_db, ()))"
  by (simp add: commit_def on_db_def on_world_def store_five clean_five finalize_five prune_five
      service_prune_historical_certs_def pruning_enabled_def ex_decided_config_def)

lemma decide_five:
  "decide ex_node (dc_pruning ex_decided_config) (ex_certificate [(1, ())]) (Some parent_four) (undecided_db, ())
     = ((True, Inr (execution_block_of five)), (ex_db, ()))"
proof -
  have "get_undecided_block_by_height_and_block_hash ok_env ex_codec 5 9 undecided_db = Inr (Some block_five)"
    by (simp add: get_undecided_block_by_height_and_block_hash_def read_tx_def undecided_db_def decoded_row_def decoded_def)
  then show ?thesis
    using commit_five by (simp add: decide_def read_db_def on_db_def check_payload_binding_def parent_four_def is_valid_def
        checked_add_def)
qed

definition five_decided :: "(unit, unit, unit, unit, nat, (nat \<times> bytes) list) app_state" where
  "five_decided = (at_five ex_db)\<lparr>as_sync_state := CatchingUp, as_decision := Some (Success \<lparr>nh_next_height = 6,
     nh_validator_set = [\<lparr>val_address = 1, val_public_key = (), val_voting_power = 1\<rparr>], nh_consensus_params = (),
     nh_decided_block = execution_block_of five, nh_target_time = None\<rparr>)\<rparr>"

lemma decided_five:
  "decided_handle ex_node ex_decided_config (ex_certificate [(1, ())]) (10 ^ 12) (at_five undecided_db) = (Inr True, five_decided)"
proof -
  have "prepare_next_height ex_node (\<lambda>_. None) () 5 (execution_block_of five) CatchingUp () = (Inr \<lparr>nh_next_height = 6,
     nh_validator_set = [\<lparr>val_address = 1, val_public_key = (), val_voting_power = 1\<rparr>], nh_consensus_params = (),
     nh_decided_block = execution_block_of five, nh_target_time = None\<rparr>, ())"
    by (simp add: prepare_next_height_def height_increment_def checked_add_def ex_engine_def Let_def)
  moreover have "sync_state_of (10 ^ 12) (eb_timestamp (execution_block_of five)) 1000 = CatchingUp"
    by (simp add: sync_state_of_def is_catching_up_def execution_block_of_def)
  ultimately show ?thesis
    using decide_five
    by (simp add: decided_handle_def store_proposal_monitor_on_decision_def at_five_def five_decided_def on_sys_def on_world_def
        ex_decided_config_def Let_def)
qed



section \<open>A value to propose\<close>

lemma round_from_ex: "round_from_law (ne_round_from ex_node)"
proof -
  have "int (unat (of_int i :: u32)) = i" if "0 \<le> i" "i < 2 ^ 32" for i :: int
    using that by (simp add: unsigned_of_int take_bit_int_eq_self)
  then show ?thesis by (simp add: round_from_law_def)
qed

lemma prepare_five:
  "\<exists>msgs. prepare_stream (\<lambda>_. []) (codec_keccak256 ex_codec) (\<lambda>_. Inr () :: string + unit) sid (block_five\<lparr>cb_signature := sg\<rparr>)
     = Inr (msgs, ())"
  by (cases sg) (simp_all add: prepare_stream_def make_proposal_parts_def Let_def)

lemma store_block_five:
  "store_undecided_block ok_env ex_codec block_five empty_tables = (Inr (), undecided_db)"
  "store_undecided_block ok_env ex_codec block_five undecided_db = (Inr (), undecided_db)"
  by (simp_all add: store_undecided_block_def write_tx_def insert_undecided_block_def undecided_db_def empty_tables_def)

lemma build_five:
  "build_and_validate_block ex_node 5 (Round 0) 1 parent_four fee (empty_tables, ())
     = (Inr (block_five\<lparr>cb_signature := None\<rparr>), (empty_tables, ()))"
proof -
  have "generate_payload_with_retry ex_node parent_four fee () = (Inr five, ())"
    unfolding generate_payload_with_retry_def
    by (subst generate_with_retries.simps)
      (simp add: generate_once_def generate_block_def ex_engine_def valid_status_def parent_four_def Let_def)
  moreover have "validate_payload ex_node five () = (Inr PayloadValid, ())"
    by (simp add: validate_payload_def notify_new_block_def ex_engine_def valid_status_def)
  ultimately show ?thesis
    by (simp add: build_and_validate_block_def build_block_def on_world_def check_payload_binding_def parent_four_def checked_add_def
        validate_consensus_block_def is_valid_def block_five_def)
qed

lemma get_value_first:
  "\<exists>msgs. on_get_value ex_node 5 (Round 0) 1 (Some parent_four) 0 sid None (empty_tables, ())
     = (Inr (Some (5, Round 0, 9, msgs)), (undecided_db, ()))"
proof -
  have "get_previously_built_block ex_node 1 5 (Round 0) (empty_tables, ()) = (Inr None, (empty_tables, ()))"
    by (simp add: get_previously_built_block_def read_db_def on_db_def get_undecided_blocks_def read_tx_def empty_tables_def
        bt_range_def Let_def)
  moreover obtain msgs where "prepare_stream (\<lambda>_. []) (codec_keccak256 ex_codec) (\<lambda>_. Inr ()) sid (block_five\<lparr>cb_signature := None\<rparr>)
      = (Inr (msgs, ()) :: string + _)" using prepare_five by blast
  ultimately show ?thesis
    by (intro exI [of _ msgs]) (simp add: on_get_value_def check_previous_block_is_predecessor_def build_five on_db_def
        store_block_five self_reported_block_hash_def, simp add: parent_four_def checked_add_def)
qed

lemma get_value_again:
  "\<exists>msgs. on_get_value ex_node 5 (Round 0) 1 None 7 sid (Some ()) (undecided_db, ())
     = (Inr (Some (5, Round 0, 9, msgs)), (undecided_db, ()))"
proof -
  have "get_previously_built_block ex_node 1 5 (Round 0) (undecided_db, ()) = (Inr (Some block_five), (undecided_db, ()))"
    by (simp add: get_previously_built_block_def read_db_def on_db_def get_undecided_blocks_def read_tx_def undecided_db_def
        bt_range_def Let_def bind_result_def decoded_def)
  moreover obtain msgs where "prepare_stream (\<lambda>_. []) (codec_keccak256 ex_codec) (\<lambda>_. Inr ()) sid block_five = (Inr (msgs, ()) :: string + _)"
    using prepare_five [of sid "Some ()"] by auto
  ultimately show ?thesis
    by (intro exI [of _ msgs]) (simp add: on_get_value_def check_reused_block_binding_def check_payload_binding_def on_db_def
        store_block_five self_reported_block_hash_def)
qed


section \<open>A vote\<close>

definition vote_codec :: "(nat, unit) store_codec" where
  "vote_codec =
     \<lparr>enc_payload = (\<lambda>_. []), dec_payload = (\<lambda>_. Inl ''''), enc_certificate = (\<lambda>_. Inl ''''), dec_certificate = (\<lambda>_. Inl ''''),
      enc_evidence = (\<lambda>_. Inl ''''), dec_evidence = (\<lambda>_. Inl ''''), enc_monitor = (\<lambda>_. Inl ''''), dec_monitor = (\<lambda>_. Inl ''''),
      enc_invalid = (\<lambda>_. Inl ''''), dec_invalid = (\<lambda>_. Inl ''''), enc_block = (\<lambda>_. []), dec_block = (\<lambda>_. Inl ''''),
      enc_parts = (\<lambda>_. Inl ''''), dec_parts = (\<lambda>_. Inl ''''), codec_keccak256 = id, codec_sig_to_bytes = (\<lambda>_. [])\<rparr>"

definition vote_node :: "(unit, unit, unit, nat, unit, nat, (nat \<times> bytes) list) node_env" where
  "vote_node =
     \<lparr>ne_redb = ok_env, ne_codec = vote_codec, ne_engine = ex_engine, ne_verify = (\<lambda>_ s _. Inr (if s = 9 then SigValid else SigInvalid)),
      ne_sign = (\<lambda>_. Inr 9), ne_ssz = (\<lambda>_. [1, 2, 3]), ne_unssz = (\<lambda>b. if b = [1, 2, 3] then Inr five else Inl ''decode''),
      ne_hash_of = (\<lambda>_. Inr 9), ne_api_text = (\<lambda>_. ''''), ne_binding_text = (\<lambda>_. ''''),
      ne_round_from = (\<lambda>i. Round (of_int i)), ne_lru = recency_lru, ne_network_id = (\<lambda>_. [])\<rparr>"

definition vote_state :: "(unit, unit, unit, nat, nat, (nat \<times> bytes) list) app_state" where
  "vote_state =
     \<lparr>as_address = 1, as_fee_recipient = 0,
      as_validator_set = [\<lparr>val_address = 77, val_public_key = (), val_voting_power = 1\<rparr>], as_stream_nonce = 0,
      as_streams = ex_before_last, as_network_id = [], as_current_height = 5, as_current_round = Round 0,
      as_current_proposer = Some 77, as_decision = None, as_sync_state = InSync, as_previous_block = Some parent_four,
      as_consensus_params = (), as_proposal_monitor = None, as_early_arrivals = [], as_store = empty_tables, as_world = ()\<rparr>"

definition last_part :: "nat part_message" where
  "last_part = \<lparr>sm_stream_id = ex_sid, sm_sequence = 0, sm_content = ContentData (PartInit ex_init)\<rparr>"

definition vote_for_five :: proposed_value where
  "vote_for_five = \<lparr>pv_height = 5, pv_round = Round 0, pv_proposer = 77, pv_valid_round = RoundNil, pv_value = 9, pv_validity = Valid\<rparr>"

lemma vote_run: "\<exists>st'. received_proposal_part_handle vote_node 10 7 7 0 (Some 90) 3 last_part vote_state = (Inr (Some vote_for_five), st')"
proof -
  have "validate_payload vote_node five () = (Inr PayloadValid, ())"
    by (simp add: validate_payload_def notify_new_block_def vote_node_def ex_engine_def valid_status_def)
  moreover have "select_proposer [\<lparr>val_address = 77, val_public_key = (), val_voting_power = 1\<rparr>] 5 (Round 0)
      = Some \<lparr>val_address = 77, val_public_key = (), val_voting_power = 1\<rparr>"
    by (simp add: select_proposer_def checked_sub_def checked_add_def get_by_index_def)
  ultimately have "\<exists>s'. handle_complete_parts vote_node 5 (Round 0) [\<lparr>val_address = 77, val_public_key = (), val_voting_power = 1\<rparr>] 10
      (Some parent_four) (Some 90) ex_pp (empty_tables, ()) = (Inr (Assembled vote_for_five), s')"
    by (simp add: handle_complete_parts_def process_proposal_parts_def ex_pp_def ex_init_def pp_height_def pp_round_def pp_proposer_def
        resolve_expected_proposer_def proposal_parts_valid_def validate_proposal_parts_def assemble_block_from_parts_def
        validate_block_def establish_block_validity_def check_payload_binding_def parent_four_def checked_add_def
        validate_consensus_block_def on_world_def may_be_stored_as_undecided_def is_valid_def validity_for_def skew_apply_def
        header_timestamp_exceeds_skew_def ARC_PROPOSER_CLOCK_SKEW_THRESHOLD_SECS_def saturating_add_def
        to_proposed_value_with_validity_def self_reported_block_hash_def vote_for_five_def on_db_def store_undecided_block_def
        write_tx_def vote_node_def)
  then show ?thesis
    using ex_last_insert
    by (auto simp: received_proposal_part_handle_def on_received_proposal_part_def on_sys_def vote_state_def last_part_def
        Let_def vote_node_def split: prod.splits)
qed

theorem valid_vote_justified_witness:
  "\<exists>st'. received_proposal_part_handle vote_node 10 7 7 0 (Some 90) 3 last_part vote_state = (Inr (Some vote_for_five), st')
    \<and> (\<exists>payload. engine_accepts vote_node payload () \<and> pl_block_number payload = 5 \<and> unat (pl_timestamp payload) \<le> 120)"
proof -
  obtain st' where run: "received_proposal_part_handle vote_node 10 7 7 0 (Some 90) 3 last_part vote_state = (Inr (Some vote_for_five), st')"
    using vote_run by blast
  from valid_vote_justified [OF run] show ?thesis using run by (fastforce simp: vote_for_five_def vote_state_def)
qed

section \<open>A pending row\<close>

definition other_node :: "(unit, unit, unit, unit, unit, nat, (nat \<times> bytes) list) node_env" where
  "other_node = ex_node\<lparr>ne_hash_of := \<lambda>_. Inr 8\<rparr>"

definition block_six :: "unit consensus_block" where
  "block_six = \<lparr>cb_height = 6, cb_round = Round 0, cb_valid_round = RoundNil, cb_proposer = 1, cb_validity = Valid,
     cb_payload = five, cb_signature = Some ()\<rparr>"


section \<open>A start\<close>

definition ex_startup :: "unit startup_api" where
  "ex_startup =
     \<lparr>st_exchange_capabilities = (\<lambda>w. (Inr \<lparr>cap_new_payload_v4 = True, cap_forkchoice_updated_v3 = True,
        cap_get_payload_v4 = True, cap_get_payload_v5 = False\<rparr>, w)),
      st_latest_block = (\<lambda>w. (Inr (Some (execution_block_of five)), w)),
      st_block_by_number = (\<lambda>h w. (Inr (Some ((execution_block_of five)\<lparr>eb_block_number := h\<rparr>)), w)),
      st_tick = (\<lambda>w. (True, w))\<rparr>"

lemma decided_ex_db: "decided_at ex_codec ex_db h = (if h = 5 then Some five else None)"
  by (simp add: decided_at_def certificate_at_def payload_at_def ex_db_def bt_get_def right_or_none_def)

lemma ex_startup_laws: "poll_law ex_startup (\<lambda>_. 0)" "block_number_law ex_startup" "follows_law ex_startup ex_codec ex_db"
  by (auto simp: poll_law_def block_number_law_def follows_law_def ex_startup_def decided_ex_db execution_block_of_def split: if_splits)

lemma start_run:
  "\<exists>st'. consensus_ready_handle ex_node ex_startup () 2 5 (at_five ex_db)
     = Some (Inr (6, [\<lparr>val_address = 1, val_public_key = (), val_voting_power = 1\<rparr>]), st')"
proof -
  have "max_pending_proposals 2 5 = Inr 10" by (simp add: max_pending_proposals_def checked_mul_def)
  moreover have "handshake_and_replay ex_node ex_startup (ex_db, ()) = Some (Inr \<lparr>hr_previous_block = execution_block_of five,
      hr_latest_height = 5, hr_next_height = 6\<rparr>, (ex_db, ()))"
    by (simp add: handshake_and_replay_def on_world_def check_capabilities_def ex_startup_def read_db_def on_db_def max_height_def
        limit_height_def read_tx_def ex_db_def bt_last_def execution_block_of_def height_increment_def checked_add_def Let_def
        replay_loop.simps)
  moreover have "enforce_pending_proposals_limit ok_env 10 6 ex_db = (Inr [], ex_db)"
    by (simp add: enforce_pending_proposals_limit_def write_tx_def bind_result_def max_allowed_height_def height_increment_by_def
        checked_add_def keys_to_remove_def ex_db_def empty_tables_def Let_def)
  ultimately show ?thesis
    by (simp add: consensus_ready_handle_def on_consensus_ready_def at_five_def on_db_def read_db_def on_world_def
        get_pending_proposal_parts_count_def read_tx_def ex_engine_def Let_def)
qed


section \<open>A sync request\<close>

theorem decided_values_bounded_witness:
  "\<exists>vs s'. get_decided_values ex_node (\<lambda>_ _. Some 100) (1, 10) (5, 5) 5 1000 (ex_db, ()) = (Inr vs, s')
     \<and> length vs \<le> 5 \<and> sum_list (map (value_len (\<lambda>_ _. Some 100)) vs) \<le> 1000"
proof -
  have "get_clamped_request_range 1 10 5 5 5 = Inr (Some (5, 5))"
    by (simp add: get_clamped_request_range_def checked_add_def Let_def)
  then have "\<exists>vs s'. get_decided_values ex_node (\<lambda>_ _. Some 100) (1, 10) (5, 5) 5 1000 (ex_db, ()) = (Inr vs, s')"
    by (simp add: get_decided_values_def on_world_def ex_engine_def get_raw_decided_value_def read_db_def on_db_def
        get_certificate_at ex_db_certificate ex_minimal_def decided_block_new_def Let_def)
  then obtain vs s' where run: "get_decided_values ex_node (\<lambda>_ _. Some 100) (1, 10) (5, 5) 5 1000 (ex_db, ()) = (Inr vs, s')" by blast
  have "store_inv (ne_codec ex_node) (fst (ex_db, ()))" by (simp add: ex_db_inv)
  from decided_values_bounded [OF this run] run show ?thesis by (intro exI [of _ vs] exI [of _ s']) simp
qed

end
