(* ===== verification/Spec2Isabelle.thy ===== *)
theory Spec2Isabelle
  imports Part_Streams Block_Executor Frame_Instance Store_Instance App_Instance
begin

text \<open>
  A verification development of the Arc node, an execution and consensus client written in
  Rust. This header is extended with every component.
\<close>

end
